theory Spec2Isabelle
  imports Complex_Main "HOL-Library.Sublist"
begin

chapter \<open>Product synchronisation: jobs, workflows and the CSV export\<close>

text \<open>
  A shallow embedding of the product synchronisation code: the scheduled job
  (\<^verbatim>\<open>src/jobs/daily-product-sync.ts\<close>), the batch workflow
  (\<^verbatim>\<open>src/workflows/batch-products.ts\<close>), the single workflow \<^verbatim>\<open>sync-products\<close> and
  the CSV export route. Strings are \<^typ>\<open>string\<close> (lists of 8-bit characters); JavaScript's
  \<^verbatim>\<open>undefined\<close>/\<^verbatim>\<open>null\<close> is \<^const>\<open>None\<close>; a thrown exception is the left
  summand of a sum type. Calls into the host framework (module services, the network) are
  modelled by small reference services whose assumptions are written where they are used.
\<close>

section \<open>JavaScript strings and numbers\<close>

text \<open>
  \<^verbatim>\<open>Number.prototype.toString\<close> on an integral number: the decimal numeral, with a
  leading minus sign for negative numbers. (JavaScript switches to exponent notation from
  \<^verbatim>\<open>1e21\<close> on; catalog ids are far below that.)
\<close>

definition digit_char :: "nat \<Rightarrow> char" where
  "digit_char d = ''0123456789'' ! (d mod 10)"

fun nat_toString :: "nat \<Rightarrow> string" where
  "nat_toString n =
     (if n < 10 then [digit_char n] else nat_toString (n div 10) @ [digit_char (n mod 10)])"

declare nat_toString.simps [simp del]

definition Number_toString :: "int \<Rightarrow> string" where
  "Number_toString i =
     (if i < 0 then CHR ''-'' # nat_toString (nat (- i)) else nat_toString (nat i))"

text \<open>
  \<^verbatim>\<open>String.prototype.toLowerCase\<close> and \<^verbatim>\<open>toUpperCase\<close> on the ASCII letters. Characters
  outside ASCII are left alone: wherever the source lowercases a string it then replaces
  every character outside \<^verbatim>\<open>[a-z0-9]\<close>, and no status key contains a non-ASCII letter.
\<close>

definition char_toLowerCase :: "char \<Rightarrow> char" where
  "char_toLowerCase c =
     (case map_of (zip ''ABCDEFGHIJKLMNOPQRSTUVWXYZ'' ''abcdefghijklmnopqrstuvwxyz'') c of
        Some l \<Rightarrow> l | None \<Rightarrow> c)"

definition char_toUpperCase :: "char \<Rightarrow> char" where
  "char_toUpperCase c =
     (case map_of (zip ''abcdefghijklmnopqrstuvwxyz'' ''ABCDEFGHIJKLMNOPQRSTUVWXYZ'') c of
        Some u \<Rightarrow> u | None \<Rightarrow> c)"

definition toLowerCase :: "string \<Rightarrow> string" where
  "toLowerCase s = map char_toLowerCase s"

definition toUpperCase :: "string \<Rightarrow> string" where
  "toUpperCase s = map char_toUpperCase s"

text \<open>The character class \<^verbatim>\<open>[a-z0-9]\<close>.\<close>

definition is_lower_alnum :: "char \<Rightarrow> bool" where
  "is_lower_alnum c = (c \<in> set ''abcdefghijklmnopqrstuvwxyz0123456789'')"

text \<open>
  \<^verbatim>\<open>s.replace(/[^a-z0-9]+/g, "-")\<close>: every maximal run of characters outside
  \<^verbatim>\<open>[a-z0-9]\<close> becomes one dash.
\<close>

function replace_non_alnum_runs :: "string \<Rightarrow> string" where
  "replace_non_alnum_runs [] = []"
| "replace_non_alnum_runs (c # cs) =
     (if is_lower_alnum c then c # replace_non_alnum_runs cs
      else CHR ''-'' # replace_non_alnum_runs (dropWhile (\<lambda>d. \<not> is_lower_alnum d) cs))"
  by pat_completeness auto
termination
  by (relation "measure length") (auto simp: le_imp_less_Suc length_dropWhile_le)

text \<open>\<^verbatim>\<open>s.replace(/^-+|-+$/g, "")\<close>: the leading and the trailing run of dashes go.\<close>

definition strip_dashes :: "string \<Rightarrow> string" where
  "strip_dashes s =
     rev (dropWhile (\<lambda>c. c = CHR ''-'') (rev (dropWhile (\<lambda>c. c = CHR ''-'') s)))"

text \<open>
  \<^verbatim>\<open>Math.round\<close>, in exact rational arithmetic (the source computes on IEEE doubles; no
  property below depends on the price).
\<close>

definition Math_round :: "rat \<Rightarrow> int" where
  "Math_round x = \<lfloor>x + 1 / 2\<rfloor>"

section \<open>The remote catalog's products and the workflow's input\<close>

text \<open>
  \<^verbatim>\<open>DummyProduct\<close> (\<^verbatim>\<open>daily-product-sync.ts\<close>, lines 5-14). \<^verbatim>\<open>brand\<close> and
  \<^verbatim>\<open>category\<close> may be missing on a remote record, hence the options.
\<close>

record DummyProduct =
  dp_id :: int
  dp_title :: string
  dp_description :: string
  dp_price :: rat
  dp_brand :: "string option"
  dp_category :: "string option"
  dp_thumbnail :: string
  dp_images :: "string list"

record PriceInput =
  amount :: int
  currency_code :: string

record VariantInput =
  variant_title :: string
  variant_prices :: "PriceInput list"
  variant_options :: "(string \<times> string) list"

record OptionInput =
  option_title :: string
  option_values :: "string list"

text \<open>
  \<^verbatim>\<open>ProductInput\<close> (\<^verbatim>\<open>batch-products.ts\<close>, lines 13-24). Of the metadata only
  \<^verbatim>\<open>metadata.external_id\<close> is read anywhere, so the record keeps that entry.
  \<^verbatim>\<open>status\<close> is optional because update entries are \<^verbatim>\<open>Partial<ProductInput>\<close>.
\<close>

record ProductInput =
  pi_title :: string
  pi_description :: string
  pi_handle :: string
  pi_status :: "string option"
  pi_metadata_external_id :: "string option"
  pi_thumbnail :: string
  pi_brandName :: "string option"
  pi_categoryName :: "string option"
  pi_variants :: "VariantInput list"
  pi_options :: "OptionInput list"

text \<open>An update entry: \<^verbatim>\<open>{ id: existing.id, ...medusaProduct }\<close>.\<close>

record UpdateInput =
  upd_id :: string
  upd_fields :: ProductInput

text \<open>A product as the product service returns it: its id and \<^verbatim>\<open>metadata?.external_id\<close>.\<close>

record StoredProduct =
  sp_id :: string
  sp_metadata_external_id :: "string option"

text \<open>\<^verbatim>\<open>mapToMedusaFormat\<close> (\<^verbatim>\<open>daily-product-sync.ts\<close>, lines 39-66).\<close>

definition mapToMedusaFormat :: "DummyProduct \<Rightarrow> ProductInput" where
  "mapToMedusaFormat product =
     \<lparr> pi_title = dp_title product,
       pi_description = dp_description product,
       pi_handle =
         strip_dashes (replace_non_alnum_runs (toLowerCase (dp_title product)))
           @ ''-'' @ Number_toString (dp_id product),
       pi_status = Some ''draft'',
       pi_metadata_external_id = Some (Number_toString (dp_id product)),
       pi_thumbnail = dp_thumbnail product,
       pi_brandName = dp_brand product,
       pi_categoryName = dp_category product,
       pi_variants =
         [\<lparr> variant_title = ''Default'',
            variant_prices =
              [\<lparr> amount = Math_round (dp_price product * 100), currency_code = ''usd'' \<rparr>],
            variant_options = [(''Default Option'', ''Default'')] \<rparr>],
       pi_options = [\<lparr> option_title = ''Default Option'', option_values = [''Default''] \<rparr>] \<rparr>"

section \<open>Reconciliation: the create/update split\<close>

text \<open>
  Modelled from the spec: the product module service's \<^verbatim>\<open>listProducts\<close> belongs to the
  host framework. The job calls it with the filter
  \<^verbatim>\<open>{ metadata: { external_id: externalIds } }\<close> and, as its comment says, assumes that the
  filter works: the call returns the stored products whose \<^verbatim>\<open>metadata.external_id\<close> is
  one of the requested strings, in store order.
\<close>

definition listProducts :: "StoredProduct list \<Rightarrow> string list \<Rightarrow> StoredProduct list" where
  "listProducts store externalIds =
     filter (\<lambda>p. case sp_metadata_external_id p of
                    None \<Rightarrow> False
                  | Some e \<Rightarrow> e \<in> set externalIds) store"

text \<open>
  \<^verbatim>\<open>new Map(entries)\<close>: a later entry replaces an earlier one with the same key;
  \<^verbatim>\<open>get\<close> is application.
\<close>

definition Map_new :: "('k \<times> 'v) list \<Rightarrow> ('k \<rightharpoonup> 'v)" where
  "Map_new entries = map_of (rev entries)"

text \<open>
  The loop of lines 112-125: each product of the batch is pushed either onto
  \<^verbatim>\<open>updateBatch\<close> (with the id of the stored product found under its external id) or onto
  \<^verbatim>\<open>createBatch\<close>. The keys of \<^verbatim>\<open>existingMap\<close> are \<^verbatim>\<open>p.metadata?.external_id\<close>, which
  may be undefined, so the key type is \<^typ>\<open>string option\<close>; a stored product is an object
  and therefore truthy.
\<close>

fun split_loop ::
  "(string option \<rightharpoonup> StoredProduct) \<Rightarrow> DummyProduct list \<Rightarrow> ProductInput list \<Rightarrow>
     UpdateInput list \<Rightarrow> ProductInput list \<times> UpdateInput list" where
  "split_loop existingMap [] createBatch updateBatch = (createBatch, updateBatch)"
| "split_loop existingMap (p # ps) createBatch updateBatch =
     (let medusaProduct = mapToMedusaFormat p;
          externalId = Number_toString (dp_id p)
      in case existingMap (Some externalId) of
           Some existing \<Rightarrow>
             split_loop existingMap ps createBatch
               (updateBatch @ [\<lparr> upd_id = sp_id existing, upd_fields = medusaProduct \<rparr>])
         | None \<Rightarrow> split_loop existingMap ps (createBatch @ [medusaProduct]) updateBatch)"

text \<open>Lines 100-125: the external ids, the lookup of existing products, the map, the loop.\<close>

definition reconcile ::
  "StoredProduct list \<Rightarrow> DummyProduct list \<Rightarrow> ProductInput list \<times> UpdateInput list" where
  "reconcile store batch =
     (let externalIds = map (\<lambda>p. Number_toString (dp_id p)) batch;
          existingProducts = listProducts store externalIds;
          existingMap = Map_new (map (\<lambda>p. (sp_metadata_external_id p, p)) existingProducts)
      in split_loop existingMap batch [] [])"

text \<open>The external ids present in the store, and the stored product a key resolves to.\<close>

definition stored_external_ids :: "StoredProduct list \<Rightarrow> string set" where
  "stored_external_ids store = set (List.map_filter sp_metadata_external_id store)"

definition stored_target :: "StoredProduct list \<Rightarrow> string \<Rightarrow> StoredProduct option" where
  "stored_target store k = find (\<lambda>s. sp_metadata_external_id s = Some k) (rev store)"

text \<open>The products a first run creates, as the product service stores them under new ids.\<close>

definition persisted :: "string list \<Rightarrow> ProductInput list \<Rightarrow> StoredProduct list" where
  "persisted new_ids created =
     map2 (\<lambda>i c. \<lparr> sp_id = i, sp_metadata_external_id = pi_metadata_external_id c \<rparr>)
       new_ids created"

text \<open>A small store and two remote products, used to instantiate the theorems below.\<close>

definition demo_store :: "StoredProduct list" where
  "demo_store =
     [\<lparr> sp_id = ''prod_a'', sp_metadata_external_id = Some ''1'' \<rparr>,
      \<lparr> sp_id = ''prod_b'', sp_metadata_external_id = None \<rparr>]"

definition demo_lipstick :: DummyProduct where
  "demo_lipstick =
     \<lparr> dp_id = 1, dp_title = ''Red Lipstick'', dp_description = ''d'', dp_price = 13,
       dp_brand = Some ''Glamour'', dp_category = Some ''beauty'', dp_thumbnail = ''t'',
       dp_images = [] \<rparr>"

definition demo_apple :: DummyProduct where
  "demo_apple =
     \<lparr> dp_id = 2, dp_title = ''Apple'', dp_description = ''d'', dp_price = 2,
       dp_brand = None, dp_category = Some ''groceries'', dp_thumbnail = ''t'',
       dp_images = [] \<rparr>"

section \<open>The network and \<^verbatim>\<open>fetchWithRetry\<close>\<close>

text \<open>A thrown JavaScript \<^verbatim>\<open>Error\<close>, with its message.\<close>

datatype js_error = Error string

text \<open>
  What \<^verbatim>\<open>fetchWithRetry\<close> reads of a \<^verbatim>\<open>Response\<close>: \<^verbatim>\<open>res.ok\<close>, \<^verbatim>\<open>res.status\<close> and the
  outcome of \<^verbatim>\<open>await res.json()\<close>, which rejects when the body is not JSON.
\<close>

record 'j Response =
  res_ok :: bool
  res_status :: nat
  res_json :: "js_error + 'j"

text \<open>
  The network is a function from its own state and a URL to the outcome of one
  \<^verbatim>\<open>fetch(url)\<close> (a rejection or a response) and the next state. The job's side keeps a
  trace of what it did: the calls of \<^verbatim>\<open>fetch\<close> and the waits on \<^verbatim>\<open>setTimeout\<close>
  (in milliseconds), in order.
\<close>

datatype event = Fetch string | Sleep int

record 'n world =
  net :: 'n
  trace :: "event list"

type_synonym ('n, 'j) fetch_fn = "'n \<Rightarrow> string \<Rightarrow> (js_error + 'j Response) \<times> 'n"

text \<open>The body of the \<^verbatim>\<open>try\<close> block (lines 27-29), given the outcome of \<^verbatim>\<open>fetch\<close>.\<close>

definition try_attempt :: "js_error + 'j Response \<Rightarrow> js_error + 'j" where
  "try_attempt outcome =
     (case outcome of
        Inl err \<Rightarrow> Inl err
      | Inr res \<Rightarrow>
          if \<not> res_ok res
          then Inl (Error (''Request failed with status '' @ nat_toString (res_status res)))
          else res_json res)"

text \<open>
  The \<^verbatim>\<open>for\<close> loop of \<^verbatim>\<open>fetchWithRetry\<close> (lines 25-35) from index \<open>i\<close> on.
  \<^verbatim>\<open>Math.pow(2, i)\<close> is \<open>2 ^ i\<close> for the natural numbers \<open>i\<close> the loop counts through.
\<close>

function fetchWithRetry_from ::
  "('n, 'j) fetch_fn \<Rightarrow> string \<Rightarrow> int \<Rightarrow> int \<Rightarrow> int \<Rightarrow> 'n world \<Rightarrow> (js_error + 'j) \<times> 'n world"
  where
  "fetchWithRetry_from fetch url retries backoff i w =
     (if i < retries then
        (let (outcome, n') = fetch (net w) url;
             w1 = w\<lparr> net := n', trace := trace w @ [Fetch url] \<rparr>
         in case try_attempt outcome of
              Inr body \<Rightarrow> (Inr body, w1)
            | Inl err \<Rightarrow>
                if i = retries - 1 then (Inl err, w1)
                else fetchWithRetry_from fetch url retries backoff (i + 1)
                       (w1\<lparr> trace := trace w1 @ [Sleep (backoff * 2 ^ nat i)] \<rparr>))
      else (Inl (Error ''Unreachable''), w))"
  by pat_completeness auto
termination
  by (relation "measure (\<lambda>(fetch, url, retries, backoff, i, w). nat (retries - i))") auto

declare fetchWithRetry_from.simps [simp del]

definition fetchWithRetry ::
  "('n, 'j) fetch_fn \<Rightarrow> string \<Rightarrow> int \<Rightarrow> int \<Rightarrow> 'n world \<Rightarrow> (js_error + 'j) \<times> 'n world" where
  "fetchWithRetry fetch url retries backoff w = fetchWithRetry_from fetch url retries backoff 0 w"

text \<open>The default arguments: \<^verbatim>\<open>retries = 2, backoff = 1000\<close>.\<close>

definition default_retries :: int where
  "default_retries = 2"

definition default_backoff :: int where
  "default_backoff = 1000"

text \<open>A scripted network: its state is the list of outcomes still to come.\<close>

definition scripted_fetch :: "((js_error + 'j Response) list, 'j) fetch_fn" where
  "scripted_fetch script url =
     (case script of
        [] \<Rightarrow> (Inl (Error ''fetch failed''), [])
      | outcome # rest \<Rightarrow> (outcome, rest))"

definition is_Fetch :: "event \<Rightarrow> bool" where
  "is_Fetch e = (case e of Fetch u \<Rightarrow> True | Sleep d \<Rightarrow> False)"

text \<open>A response that is ok but carries HTML, then a response with a JSON body.\<close>

definition html_then_json :: "(js_error + nat Response) list" where
  "html_then_json =
     [Inr \<lparr> res_ok = True, res_status = 200, res_json = Inl (Error ''Unexpected token <'') \<rparr>,
      Inr \<lparr> res_ok = True, res_status = 200, res_json = Inr 7 \<rparr>]"

section \<open>Pagination: \<^verbatim>\<open>fetchAllProducts\<close>\<close>

text \<open>
  \<^verbatim>\<open>DummyResponse\<close>: a page of the catalog; \<^verbatim>\<open>products\<close> may be missing. The generator
  never looks inside a record of the page, so the page is modelled for any type \<open>'p\<close> of
  records.
\<close>

record 'p DummyResponse =
  resp_products :: "'p list option"
  resp_total :: nat
  resp_skip :: nat
  resp_limit :: nat

definition products_url :: "nat \<Rightarrow> nat \<Rightarrow> string" where
  "products_url limit skip =
     ''https://dummyjson.com/products?limit='' @ nat_toString limit
       @ ''&skip='' @ nat_toString skip"

text \<open>
  An async generator is a state machine: each \<^verbatim>\<open>next()\<close> runs the body up to the next
  \<^verbatim>\<open>yield\<close>, the end of the body or a thrown error. \<^verbatim>\<open>fetchAllProducts\<close> is either at
  the head of its loop with \<^verbatim>\<open>hasMore\<close> true, suspended at its \<^verbatim>\<open>yield\<close> (holding
  \<^verbatim>\<open>skip\<close> and \<^verbatim>\<open>data.total\<close>), or finished.
\<close>

datatype gen_state = AtLoopHead nat | AtYield nat nat | Finished

datatype 'a gen_item = Yield 'a | Return | Throw js_error

text \<open>Lines 74-82: one pass from the head of the loop to the \<^verbatim>\<open>yield\<close>.\<close>

definition fetch_page ::
  "('n, 'p DummyResponse) fetch_fn \<Rightarrow> nat \<Rightarrow> nat \<Rightarrow> 'n world \<Rightarrow>
     ('p list gen_item \<times> gen_state) \<times> 'n world" where
  "fetch_page fetch limit skip w =
     (case fetchWithRetry fetch (products_url limit skip) default_retries default_backoff w of
        (Inl err, w') \<Rightarrow> ((Throw err, Finished), w')
      | (Inr data, w') \<Rightarrow>
          (case resp_products data of
             None \<Rightarrow> ((Return, Finished), w')
           | Some ps \<Rightarrow>
               if length ps = 0 then ((Return, Finished), w')
               else ((Yield ps, AtYield skip (resp_total data)), w')))"

text \<open>
  \<^verbatim>\<open>next()\<close>. Resuming after the \<^verbatim>\<open>yield\<close> runs lines 84-85 and, unless
  \<^verbatim>\<open>skip >= data.total\<close>, the next pass of the loop.
\<close>

definition fetchAllProducts_next ::
  "('n, 'p DummyResponse) fetch_fn \<Rightarrow> nat \<Rightarrow> gen_state \<Rightarrow> 'n world \<Rightarrow>
     ('p list gen_item \<times> gen_state) \<times> 'n world" where
  "fetchAllProducts_next fetch limit gen w =
     (case gen of
        AtLoopHead skip \<Rightarrow> fetch_page fetch limit skip w
      | AtYield skip data_total \<Rightarrow>
          (let skip' = skip + limit
           in if skip' \<ge> data_total then ((Return, Finished), w)
              else fetch_page fetch limit skip' w)
      | Finished \<Rightarrow> ((Return, Finished), w))"

text \<open>A call of \<^verbatim>\<open>fetchAllProducts(limit)\<close> creates the generator with \<^verbatim>\<open>skip = 0\<close>.\<close>

definition fetchAllProducts :: gen_state where
  "fetchAllProducts = AtLoopHead 0"

text \<open>
  Draining the generator, as \<^verbatim>\<open>for await (const batch of fetchAllProducts(limit))\<close> does:
  the batches yielded, and the error if the generator threw. A server may keep sending
  pages for ever, so the result is optional: \<^const>\<open>None\<close> is a loop that never ends.
\<close>

partial_function (option) drain ::
  "('n, 'p DummyResponse) fetch_fn \<Rightarrow> nat \<Rightarrow> gen_state \<Rightarrow> 'n world \<Rightarrow> 'p list list \<Rightarrow>
     (('p list list \<times> js_error option) \<times> 'n world) option" where
  "drain fetch limit gen w batches =
     (case fetchAllProducts_next fetch limit gen w of
        ((Yield batch, gen'), w') \<Rightarrow> drain fetch limit gen' w' (batches @ [batch])
      | ((Return, gen'), w') \<Rightarrow> Some ((batches, None), w')
      | ((Throw err, gen'), w') \<Rightarrow> Some ((batches, Some err), w'))"

declare drain.simps [code]

section \<open>The remote catalog\<close>

definition is_digit :: "char \<Rightarrow> bool" where
  "is_digit c = (c \<in> set ''0123456789'')"

definition digit_value :: "char \<Rightarrow> nat" where
  "digit_value c = of_char c - 48"

definition digits_to_nat :: "string \<Rightarrow> nat" where
  "digits_to_nat s = foldl (\<lambda>acc c. 10 * acc + digit_value c) 0 s"

definition strip_prefix :: "string \<Rightarrow> string \<Rightarrow> string option" where
  "strip_prefix p s = (if prefix p s then Some (drop (length p) s) else None)"

definition parse_products_url :: "string \<Rightarrow> (nat \<times> nat) option" where
  "parse_products_url url =
     (case strip_prefix ''https://dummyjson.com/products?limit='' url of
        None \<Rightarrow> None
      | Some rest \<Rightarrow>
          (case strip_prefix ''&skip='' (dropWhile is_digit rest) of
             None \<Rightarrow> None
           | Some s \<Rightarrow>
               if takeWhile is_digit rest \<noteq> [] \<and> s \<noteq> [] \<and> list_all is_digit s
               then Some (digits_to_nat (takeWhile is_digit rest), digits_to_nat s)
               else None))"

text \<open>
  Modelled from the spec: the remote catalog, a "paginated read-only HTTP JSON API
  (limit/skip query parameters)". It holds a fixed list of products and answers a page
  request with the \<open>limit\<close> products after the first \<open>skip\<close> and with the total count; it
  has no state. Any other URL is answered 404.
\<close>

definition catalog_page :: "'p list \<Rightarrow> nat \<Rightarrow> nat \<Rightarrow> 'p DummyResponse" where
  "catalog_page catalog limit skip =
     \<lparr> resp_products = Some (take limit (drop skip catalog)),
       resp_total = length catalog, resp_skip = skip, resp_limit = limit \<rparr>"

definition catalog_fetch :: "'p list \<Rightarrow> (unit, 'p DummyResponse) fetch_fn" where
  "catalog_fetch catalog n url =
     (case parse_products_url url of
        Some (limit, skip) \<Rightarrow>
          (Inr \<lparr> res_ok = True, res_status = 200,
                 res_json = Inr (catalog_page catalog limit skip) \<rparr>, n)
      | None \<Rightarrow>
          (Inr \<lparr> res_ok = False, res_status = 404, res_json = Inl (Error ''Not Found'') \<rparr>, n))"

text \<open>The pages of a list, and the offsets at which they start.\<close>

function pages :: "nat \<Rightarrow> 'a list \<Rightarrow> 'a list list" where
  "pages n xs = (if n = 0 \<or> xs = [] then [] else take n xs # pages n (drop n xs))"
  by pat_completeness auto
termination
  by (relation "measure (\<lambda>(n, xs). length xs)") auto

declare pages.simps [simp del]


text \<open>
  The offsets requested from \<open>skip\<close> on, against a catalog of \<open>n\<close> products: the request
  at \<open>skip\<close> is always made, and another follows while \<open>skip + limit\<close> is below \<open>n\<close>.
\<close>

function request_offsets :: "nat \<Rightarrow> nat \<Rightarrow> nat \<Rightarrow> nat list" where
  "request_offsets limit skip n =
     skip # (if 0 < limit \<and> skip + limit < n then request_offsets limit (skip + limit) n else [])"
  by pat_completeness auto
termination
  by (relation "measure (\<lambda>(limit, skip, n). n - skip)") auto

declare request_offsets.simps [simp del]


section \<open>The job: \<^verbatim>\<open>dailyProductSync\<close>\<close>

text \<open>
  The logger's entries, by the call that writes them: \<^verbatim>\<open>"Starting daily product sync..."\<close>,
  \<^verbatim>\<open>"Processing batch of N products..."\<close>, \<^verbatim>\<open>"Error syncing batch:"\<close> with the workflow's
  errors, \<^verbatim>\<open>"Synced batch: C created, U updated."\<close>, \<^verbatim>\<open>"Daily product sync completed."\<close> and
  \<^verbatim>\<open>"Critical error in product sync:"\<close> with the error caught.
\<close>

datatype 'e log_entry =
    Info_starting
  | Info_processing nat
  | Error_syncing_batch "'e list"
  | Info_synced nat nat
  | Info_completed
  | Error_critical js_error

text \<open>
  The job's state: the network and its trace, the host application's state (of any type
  \<open>'s\<close>), and the log.
\<close>

record ('n, 's, 'e) job_state =
  world :: "'n world"
  app :: 's
  logs :: "'e log_entry list"

text \<open>
  The body of a page is cast to \<^verbatim>\<open>DummyResponse\<close> without a check (line 29), so a record of
  a page need not have the fields that \<^verbatim>\<open>DummyProduct\<close> declares. The job dereferences two
  of them: \<^verbatim>\<open>p.id.toString()\<close> (lines 100, 114 and 47) throws a \<^verbatim>\<open>TypeError\<close> when \<^verbatim>\<open>id\<close>
  is missing or null, and \<^verbatim>\<open>product.title.toLowerCase()\<close> (line 44) throws when \<^verbatim>\<open>title\<close>
  is not a string. The other fields are only copied. A record as it arrives:
\<close>

record RawProduct =
  raw_id :: "int option"
  raw_title :: "string option"
  raw_description :: string
  raw_price :: rat
  raw_brand :: "string option"
  raw_category :: "string option"
  raw_thumbnail :: string
  raw_images :: "string list"

text \<open>A record that has its id and title, seen as a \<^verbatim>\<open>DummyProduct\<close>, and the converse.\<close>

definition typed_product :: "int \<Rightarrow> string \<Rightarrow> RawProduct \<Rightarrow> DummyProduct" where
  "typed_product i t p =
     \<lparr> dp_id = i, dp_title = t, dp_description = raw_description p, dp_price = raw_price p,
       dp_brand = raw_brand p, dp_category = raw_category p, dp_thumbnail = raw_thumbnail p,
       dp_images = raw_images p \<rparr>"

definition raw_of :: "DummyProduct \<Rightarrow> RawProduct" where
  "raw_of p =
     \<lparr> raw_id = Some (dp_id p), raw_title = Some (dp_title p),
       raw_description = dp_description p, raw_price = dp_price p, raw_brand = dp_brand p,
       raw_category = dp_category p, raw_thumbnail = dp_thumbnail p,
       raw_images = dp_images p \<rparr>"

text \<open>\<^verbatim>\<open>p.id.toString()\<close> (lines 100 and 114).\<close>

definition raw_external_id :: "RawProduct \<Rightarrow> js_error + string" where
  "raw_external_id p =
     (case raw_id p of
        None \<Rightarrow> Inl (Error ''Cannot read properties of undefined (reading toString)'')
      | Some i \<Rightarrow> Inr (Number_toString i))"

text \<open>
  \<^verbatim>\<open>mapToMedusaFormat(p)\<close> (line 113) on a record as it arrives. The properties of the
  object literal are evaluated in order: \<^verbatim>\<open>handle\<close> (line 44) reads
  \<^verbatim>\<open>product.title.toLowerCase()\<close> before \<^verbatim>\<open>metadata\<close> (line 47) reads
  \<^verbatim>\<open>product.id.toString()\<close>.
\<close>

definition mapToMedusaFormat_raw :: "RawProduct \<Rightarrow> js_error + ProductInput" where
  "mapToMedusaFormat_raw p =
     (case raw_title p of
        None \<Rightarrow> Inl (Error ''Cannot read properties of undefined (reading toLowerCase)'')
      | Some t \<Rightarrow>
          (case raw_id p of
             None \<Rightarrow> Inl (Error ''Cannot read properties of undefined (reading toString)'')
           | Some i \<Rightarrow> Inr (mapToMedusaFormat (typed_product i t p))))"

text \<open>
  \<^verbatim>\<open>Array.prototype.map\<close> with a callback that may throw: the first error thrown ends the
  call.
\<close>

fun map_throwing :: "('a \<Rightarrow> js_error + 'b) \<Rightarrow> 'a list \<Rightarrow> js_error + 'b list" where
  "map_throwing f [] = Inr []"
| "map_throwing f (x # xs) =
     (case f x of
        Inl err \<Rightarrow> Inl err
      | Inr y \<Rightarrow> (case map_throwing f xs of Inl err \<Rightarrow> Inl err | Inr ys \<Rightarrow> Inr (y # ys)))"

text \<open>The loop of lines 112-125 on records as they arrive: it ends at the first throw.\<close>

fun split_loop_raw ::
  "(string option \<rightharpoonup> StoredProduct) \<Rightarrow> RawProduct list \<Rightarrow> ProductInput list \<Rightarrow>
     UpdateInput list \<Rightarrow> js_error + ProductInput list \<times> UpdateInput list" where
  "split_loop_raw existingMap [] createBatch updateBatch = Inr (createBatch, updateBatch)"
| "split_loop_raw existingMap (p # ps) createBatch updateBatch =
     (case mapToMedusaFormat_raw p of
        Inl err \<Rightarrow> Inl err
      | Inr medusaProduct \<Rightarrow>
          (case raw_external_id p of
             Inl err \<Rightarrow> Inl err
           | Inr externalId \<Rightarrow>
               (case existingMap (Some externalId) of
                  Some existing \<Rightarrow>
                    split_loop_raw existingMap ps createBatch
                      (updateBatch @ [\<lparr> upd_id = sp_id existing, upd_fields = medusaProduct \<rparr>])
                | None \<Rightarrow>
                    split_loop_raw existingMap ps (createBatch @ [medusaProduct]) updateBatch)))"

text \<open>
  The two awaited calls into the host framework, each modelled for any function of the
  application's state. \<^verbatim>\<open>productService.listProducts\<close> (line 103) is a read: it resolves
  with stored products or rejects. The workflow is run by the framework's engine with
  \<^verbatim>\<open>throwOnError: false\<close> (line 128): the call resolves with the errors of the run, or
  rejects, and leaves the application in a new state.
\<close>

type_synonym 's list_fn = "'s \<Rightarrow> string list \<Rightarrow> js_error + StoredProduct list"

type_synonym ('s, 'e) run_fn =
  "'s \<Rightarrow> ProductInput list \<times> UpdateInput list \<Rightarrow> (js_error + 'e list) \<times> 's"

text \<open>
  The body of the \<^verbatim>\<open>for await\<close> loop (lines 98-141). It has no \<^verbatim>\<open>try\<close> of its own: the
  result is the error thrown, if any, with the state at the throw.
\<close>

definition process_batch ::
  "('s, 'e) run_fn \<Rightarrow> 's list_fn \<Rightarrow> RawProduct list \<Rightarrow>
     ('n, 's, 'e) job_state \<Rightarrow> js_error option \<times> ('n, 's, 'e) job_state" where
  "process_batch run list_existing batch st =
     (let st1 = st\<lparr> logs := logs st @ [Info_processing (length batch)] \<rparr>
      in case map_throwing raw_external_id batch of
           Inl err \<Rightarrow> (Some err, st1)
         | Inr externalIds \<Rightarrow>
             (case list_existing (app st1) externalIds of
                Inl err \<Rightarrow> (Some err, st1)
              | Inr existingProducts \<Rightarrow>
                  (case split_loop_raw
                          (Map_new (map (\<lambda>p. (sp_metadata_external_id p, p)) existingProducts))
                          batch [] [] of
                     Inl err \<Rightarrow> (Some err, st1)
                   | Inr (createBatch, updateBatch) \<Rightarrow>
                       if length createBatch > 0 \<or> length updateBatch > 0 then
                         (case run (app st1) (createBatch, updateBatch) of
                            (Inl err, app') \<Rightarrow> (Some err, st1\<lparr> app := app' \<rparr>)
                          | (Inr errors, app') \<Rightarrow>
                              (let st2 = st1\<lparr> app := app' \<rparr>
                               in if errors \<noteq> []
                                  then (None, st2\<lparr> logs := logs st2
                                          @ [Error_syncing_batch errors] \<rparr>)
                                  else (None, st2\<lparr> logs := logs st2
                                          @ [Info_synced (length createBatch)
                                               (length updateBatch)] \<rparr>)))
                       else (None, st1))))"

text \<open>
  The \<^verbatim>\<open>for await\<close> loop inside the \<^verbatim>\<open>try\<close> (lines 96-146): an error thrown by the generator
  or by the loop body leaves the loop and is caught by the outer \<^verbatim>\<open>catch\<close> (line 144).
\<close>

partial_function (option) sync_loop ::
  "('n, RawProduct DummyResponse) fetch_fn \<Rightarrow> ('s, 'e) run_fn \<Rightarrow> 's list_fn \<Rightarrow>
     gen_state \<Rightarrow> ('n, 's, 'e) job_state \<Rightarrow> ('n, 's, 'e) job_state option" where
  "sync_loop fetch run list_existing gen st =
     (case fetchAllProducts_next fetch 20 gen (world st) of
        ((Yield batch, gen'), w') \<Rightarrow>
          (case process_batch run list_existing batch (st\<lparr> world := w' \<rparr>) of
             (None, st') \<Rightarrow> sync_loop fetch run list_existing gen' st'
           | (Some err, st') \<Rightarrow> Some (st'\<lparr> logs := logs st' @ [Error_critical err] \<rparr>))
      | ((Return, gen'), w') \<Rightarrow>
          Some (st\<lparr> world := w', logs := logs st @ [Info_completed] \<rparr>)
      | ((Throw err, gen'), w') \<Rightarrow>
          Some (st\<lparr> world := w', logs := logs st @ [Error_critical err] \<rparr>))"

declare sync_loop.simps [code]

definition dailyProductSync ::
  "('n, RawProduct DummyResponse) fetch_fn \<Rightarrow> ('s, 'e) run_fn \<Rightarrow> 's list_fn \<Rightarrow>
     ('n, 's, 'e) job_state \<Rightarrow> ('n, 's, 'e) job_state option" where
  "dailyProductSync fetch run list_existing st =
     sync_loop fetch run list_existing fetchAllProducts
       (st\<lparr> logs := logs st @ [Info_starting] \<rparr>)"

text \<open>
  The loop body applied to each batch of a list in turn, whatever errors the workflow
  returned for the batches before, up to the first batch on which the body throws.
\<close>

fun process_all ::
  "('s, 'e) run_fn \<Rightarrow> 's list_fn \<Rightarrow> RawProduct list list \<Rightarrow>
     ('n, 's, 'e) job_state \<Rightarrow> js_error option \<times> ('n, 's, 'e) job_state" where
  "process_all run list_existing [] st = (None, st)"
| "process_all run list_existing (batch # batches) st =
     (case process_batch run list_existing batch st of
        (None, st') \<Rightarrow> process_all run list_existing batches st'
      | (Some err, st') \<Rightarrow> (Some err, st'))"

text \<open>The last entry of the log: what the \<^verbatim>\<open>try\<close> ended with.\<close>

definition final_entry :: "js_error option \<Rightarrow> 'e log_entry" where
  "final_entry thrown = (case thrown of None \<Rightarrow> Info_completed | Some err \<Rightarrow> Error_critical err)"

text \<open>
  A catalog of \<open>n\<close> well-formed products with ids \<open>1, \<dots>, n\<close>, the same catalog with the
  title of one record missing, a record without an id, and a network that serves a
  catalog but fails the requests it is told to fail. The network's state is the number of
  requests seen.
\<close>

definition numbered_catalog :: "nat \<Rightarrow> RawProduct list" where
  "numbered_catalog n = map (\<lambda>i. raw_of (demo_apple\<lparr> dp_id := int i \<rparr>)) [1..<Suc n]"

definition untitled_catalog :: "nat \<Rightarrow> nat \<Rightarrow> RawProduct list" where
  "untitled_catalog n k =
     map (\<lambda>i. if i = k then (raw_of (demo_apple\<lparr> dp_id := int i \<rparr>))\<lparr> raw_title := None \<rparr>
              else raw_of (demo_apple\<lparr> dp_id := int i \<rparr>)) [1..<Suc n]"

definition demo_without_id :: RawProduct where
  "demo_without_id = (raw_of demo_apple)\<lparr> raw_id := None \<rparr>"

definition flaky_fetch :: "'p list \<Rightarrow> nat list \<Rightarrow> (nat, 'p DummyResponse) fetch_fn" where
  "flaky_fetch catalog failing n url =
     (if n \<in> set failing then (Inl (Error ''fetch failed''), Suc n)
      else (fst (catalog_fetch catalog () url), Suc n))"

text \<open>
  A workflow that returns an error for every run and changes nothing, one that always
  succeeds, and one whose call rejects; a product service with no stored products, and
  one whose call rejects.
\<close>

definition failing_run :: "(unit, string) run_fn" where
  "failing_run s input = (Inr [''step failed''], s)"

definition succeeding_run :: "(unit, string) run_fn" where
  "succeeding_run s input = (Inr [], s)"

definition rejecting_run :: "(unit, string) run_fn" where
  "rejecting_run s input = (Inl (Error ''workflow engine failed''), s)"

definition empty_service :: "unit list_fn" where
  "empty_service s externalIds = Inr []"

definition rejecting_service :: "unit list_fn" where
  "rejecting_service s externalIds = Inl (Error ''connection refused'')"

definition job_start :: "'n \<Rightarrow> ('n, unit, string) job_state" where
  "job_start n = \<lparr> world = \<lparr> net = n, trace = [] \<rparr>, app = (), logs = [] \<rparr>"


text \<open>The entries that mark the start of a batch.\<close>

definition is_processing :: "'e log_entry \<Rightarrow> bool" where
  "is_processing entry = (case entry of Info_processing n \<Rightarrow> True | _ \<Rightarrow> False)"

section \<open>Plain objects used as dictionaries\<close>

text \<open>
  The workflow keeps its name-to-id maps in plain objects (\<^verbatim>\<open>Record<string, string> = {}\<close>).
  Reading \<^verbatim>\<open>obj[key]\<close> finds an own property or else a member of \<^verbatim>\<open>Object.prototype\<close>:
  the object \<^verbatim>\<open>Object.prototype\<close> itself under \<^verbatim>\<open>__proto__\<close>, a function under the other
  inherited names. Writing a string to \<^verbatim>\<open>obj["__proto__"]\<close> is ignored; any other write
  creates or replaces an own property.
\<close>

datatype js_value = Undefined | Str string | ProtoFunction | ProtoObject

type_synonym js_object = "string \<rightharpoonup> string"

definition Object_prototype_functions :: "string list" where
  "Object_prototype_functions =
     [''constructor'', ''__defineGetter__'', ''__defineSetter__'', ''hasOwnProperty'',
      ''__lookupGetter__'', ''__lookupSetter__'', ''isPrototypeOf'', ''propertyIsEnumerable'',
      ''toString'', ''valueOf'', ''toLocaleString'']"

definition obj_get :: "js_object \<Rightarrow> string \<Rightarrow> js_value" where
  "obj_get obj key =
     (case obj key of
        Some v \<Rightarrow> Str v
      | None \<Rightarrow>
          if key = ''__proto__'' then ProtoObject
          else if key \<in> set Object_prototype_functions then ProtoFunction
          else Undefined)"

definition obj_set :: "js_object \<Rightarrow> string \<Rightarrow> string \<Rightarrow> js_object" where
  "obj_set obj key v = (if key = ''__proto__'' then obj else obj(key \<mapsto> v))"

text \<open>Truthiness: \<^verbatim>\<open>undefined\<close> and the empty string are falsy; functions and objects are truthy.\<close>

definition truthy :: "js_value \<Rightarrow> bool" where
  "truthy v = (case v of Undefined \<Rightarrow> False | Str s \<Rightarrow> s \<noteq> [] | _ \<Rightarrow> True)"

text \<open>\<^verbatim>\<open>Array.from(new Set(xs))\<close>: the distinct elements, each at its first occurrence.\<close>

definition Array_from_Set :: "'a list \<Rightarrow> 'a list" where
  "Array_from_Set xs = rev (remdups (rev xs))"

section \<open>Brands\<close>

record Brand =
  brand_id :: string
  brand_name :: string

text \<open>
  Modelled from the spec: the brand module's service ("brand CRUD (custom module)") is
  generated by the host framework and is not among the sources. The table of brands is a
  list. \<^verbatim>\<open>listBrands({ name: names })\<close> returns the brands whose name is among
  \<open>names\<close>; \<^verbatim>\<open>createBrands\<close> stores one new brand per input, in order, under the ids the
  framework generates (\<open>new_ids\<close>, taken as given), and returns the new brands;
  \<^verbatim>\<open>deleteBrands\<close> removes the brands with the given ids.
\<close>

definition listBrands :: "Brand list \<Rightarrow> string list \<Rightarrow> Brand list" where
  "listBrands table names = filter (\<lambda>b. brand_name b \<in> set names) table"

definition createBrands :: "string list \<Rightarrow> string list \<Rightarrow> Brand list \<Rightarrow> Brand list \<times> Brand list" where
  "createBrands new_ids names table =
     (let created = map2 (\<lambda>i n. \<lparr> brand_id = i, brand_name = n \<rparr>) new_ids names
      in (created, table @ created))"

definition deleteBrands :: "string list \<Rightarrow> Brand list \<Rightarrow> Brand list" where
  "deleteBrands ids table = filter (\<lambda>b. brand_id b \<notin> set ids) table"

text \<open>
  \<^verbatim>\<open>manageBrandsStep\<close> (\<^verbatim>\<open>batch-products.ts\<close>, lines 36-61). The result is the step's
  output (the brand map), its compensation input (the ids created) and the table after
  the step.
\<close>

definition manageBrandsStep ::
  "string list \<Rightarrow> string list \<Rightarrow> Brand list \<Rightarrow> (js_object \<times> string list) \<times> Brand list" where
  "manageBrandsStep new_ids brandNames table =
     (if length brandNames = 0 then ((Map.empty, []), table)
      else
        (let uniqueNames = Array_from_Set brandNames;
             existingBrands = listBrands table uniqueNames;
             brandMap = foldl (\<lambda>m b. obj_set m (brand_name b) (brand_id b)) Map.empty existingBrands;
             toCreate = filter (\<lambda>n. \<not> truthy (obj_get brandMap n)) uniqueNames
         in if length toCreate > 0 then
              (let (created, table') = createBrands new_ids toCreate table;
                   brandMap' = foldl (\<lambda>m b. obj_set m (brand_name b) (brand_id b)) brandMap created;
                   createdIds = map brand_id created
               in ((brandMap', createdIds), table'))
            else ((brandMap, []), table)))"

text \<open>
  The compensation function (lines 62-66). Its input is the second component of the
  step's response, or nothing when the step did not complete.
\<close>

definition manageBrandsStep_compensate :: "string list option \<Rightarrow> Brand list \<Rightarrow> Brand list" where
  "manageBrandsStep_compensate createdIds table =
     (case createdIds of
        None \<Rightarrow> table
      | Some ids \<Rightarrow> if length ids = 0 then table else deleteBrands ids table)"

section \<open>Categories\<close>

record Category =
  category_id :: string
  category_name :: string
  category_handle :: string

record CategoryInput =
  ci_name :: string
  ci_handle :: string

text \<open>\<^verbatim>\<open>nameToHandle\<close> (line 81).\<close>

definition nameToHandle :: "string \<Rightarrow> string" where
  "nameToHandle name = replace_non_alnum_runs (toLowerCase name)"

text \<open>
  Modelled from the spec: the product module's category service ("category CRUD") belongs
  to the host framework. \<^verbatim>\<open>listProductCategories({ handle: handles })\<close> returns the
  categories whose handle is among \<open>handles\<close>. \<^verbatim>\<open>createProductCategories\<close> stores one
  category per input under the generated ids \<open>new_ids\<close>, all or nothing: handles are
  unique in the table (the constraint the step's \<^verbatim>\<open>catch\<close> branch expects), so the call
  throws when an input's handle is already stored or occurs twice among the inputs.
  \<^verbatim>\<open>deleteProductCategories\<close> removes the categories with the given ids.
\<close>

definition listProductCategories :: "Category list \<Rightarrow> string list \<Rightarrow> Category list" where
  "listProductCategories table handles = filter (\<lambda>c. category_handle c \<in> set handles) table"

definition createProductCategories ::
  "string list \<Rightarrow> CategoryInput list \<Rightarrow> Category list \<Rightarrow>
     js_error + Category list \<times> Category list" where
  "createProductCategories new_ids inputs table =
     (if \<not> distinct (map ci_handle inputs)
         \<or> (\<exists>i \<in> set inputs. ci_handle i \<in> category_handle ` set table)
      then Inl (Error ''Product category with handle already exists'')
      else
        (let created =
               map2 (\<lambda>i c. \<lparr> category_id = i, category_name = ci_name c,
                               category_handle = ci_handle c \<rparr>) new_ids inputs
         in Inr (created, table @ created)))"

definition deleteProductCategories :: "string list \<Rightarrow> Category list \<Rightarrow> Category list" where
  "deleteProductCategories ids table = filter (\<lambda>c. category_id c \<notin> set ids) table"

text \<open>
  Lines 93-100: the names whose handle is already stored get that category's id; the others
  are collected for creation, one entry per name.
\<close>

fun categories_loop ::
  "(string \<rightharpoonup> Category) \<Rightarrow> string list \<Rightarrow> js_object \<Rightarrow> CategoryInput list \<Rightarrow>
     js_object \<times> CategoryInput list" where
  "categories_loop handleMap [] categoryMap toCreate = (categoryMap, toCreate)"
| "categories_loop handleMap (name # names) categoryMap toCreate =
     (let handle = nameToHandle name
      in case handleMap handle of
           Some c \<Rightarrow>
             categories_loop handleMap names (obj_set categoryMap name (category_id c)) toCreate
         | None \<Rightarrow>
             categories_loop handleMap names categoryMap
               (toCreate @ [\<lparr> ci_name = name, ci_handle = handle \<rparr>]))"

text \<open>
  Lines 106-109 and 117-121: each category is entered under the first of the unique names
  whose handle is the category's.
\<close>

definition enter_categories :: "string list \<Rightarrow> Category list \<Rightarrow> js_object \<Rightarrow> js_object" where
  "enter_categories uniqueNames cs categoryMap =
     foldl (\<lambda>m c. case find (\<lambda>u. nameToHandle u = category_handle c) uniqueNames of
                     Some original \<Rightarrow> if original \<noteq> [] then obj_set m original (category_id c) else m
                   | None \<Rightarrow> m) categoryMap cs"

text \<open>\<^verbatim>\<open>manageCategoriesStep\<close> (lines 72-126).\<close>

definition manageCategoriesStep ::
  "string list \<Rightarrow> string list \<Rightarrow> Category list \<Rightarrow>
     (js_object \<times> string list) \<times> Category list" where
  "manageCategoriesStep new_ids categoryNames table =
     (if length categoryNames = 0 then ((Map.empty, []), table)
      else
        (let uniqueNames = Array_from_Set categoryNames;
             handles = map nameToHandle uniqueNames;
             existingCategories = listProductCategories table handles;
             handleMap = Map_new (map (\<lambda>c. (category_handle c, c)) existingCategories);
             (categoryMap, toCreate) = categories_loop handleMap uniqueNames Map.empty []
         in if length toCreate > 0 then
              (case createProductCategories new_ids toCreate table of
                 Inr (created, table') \<Rightarrow>
                   ((enter_categories uniqueNames created categoryMap,
                     map category_id created), table')
               | Inl error \<Rightarrow>
                   (let fallbackCategories = listProductCategories table handles
                    in ((enter_categories uniqueNames fallbackCategories categoryMap, []),
                        table)))
            else ((categoryMap, []), table)))"

definition manageCategoriesStep_compensate ::
  "string list option \<Rightarrow> Category list \<Rightarrow> Category list" where
  "manageCategoriesStep_compensate createdIds table =
     (case createdIds of
        None \<Rightarrow> table
      | Some ids \<Rightarrow> if length ids = 0 then table else deleteProductCategories ids table)"


text \<open>A brand table and a category table with one row each.\<close>

definition demo_brands :: "Brand list" where
  "demo_brands = [\<lparr> brand_id = ''brand_0'', brand_name = ''Apple'' \<rparr>]"

definition demo_categories :: "Category list" where
  "demo_categories =
     [\<lparr> category_id = ''pcat_0'', category_name = ''Beauty'', category_handle = ''beauty'' \<rparr>]"

section \<open>Creating and updating products\<close>

text \<open>
  The framework's enum \<^verbatim>\<open>ProductStatus\<close> (\<^verbatim>\<open>@medusajs/framework/utils\<close>), a string enum and
  so at run time a plain object from member names to values.
\<close>

definition ProductStatus :: js_object where
  "ProductStatus =
     map_of [(''DRAFT'', ''draft''), (''PROPOSED'', ''proposed''),
             (''PUBLISHED'', ''published''), (''REJECTED'', ''rejected'')]"

text \<open>
  \<^verbatim>\<open>ProductStatus[status.toUpperCase()] || ProductStatus.DRAFT\<close> (lines 145 and 174).
\<close>

definition status_of :: "string \<Rightarrow> js_value" where
  "status_of status =
     (let named = obj_get ProductStatus (toUpperCase status)
      in if truthy named then named else obj_get ProductStatus ''DRAFT'')"

text \<open>
  \<^verbatim>\<open>rest\<close>: what is left of an input once \<^verbatim>\<open>brandName\<close>, \<^verbatim>\<open>categoryName\<close> and
  \<^verbatim>\<open>status\<close> (and, for an update, \<^verbatim>\<open>id\<close>) are taken out.
\<close>

record ProductRest =
  rest_title :: string
  rest_description :: string
  rest_handle :: string
  rest_metadata_external_id :: "string option"
  rest_thumbnail :: string
  rest_variants :: "VariantInput list"
  rest_options :: "OptionInput list"

definition rest_of :: "ProductInput \<Rightarrow> ProductRest" where
  "rest_of p =
     \<lparr> rest_title = pi_title p, rest_description = pi_description p,
       rest_handle = pi_handle p, rest_metadata_external_id = pi_metadata_external_id p,
       rest_thumbnail = pi_thumbnail p, rest_variants = pi_variants p,
       rest_options = pi_options p \<rparr>"

text \<open>What \<^verbatim>\<open>createProducts\<close> receives for one product; \<^verbatim>\<open>status\<close> is always set.\<close>

record CreateProductDTO =
  dto_rest :: ProductRest
  dto_status :: js_value
  dto_category_ids :: "js_value list"

text \<open>
  What \<^verbatim>\<open>updateProducts\<close> receives for one product; \<^verbatim>\<open>status\<close> and \<^verbatim>\<open>category_ids\<close>
  are properties the step may or may not set (\<^const>\<open>None\<close>: the property is absent).
\<close>

record UpdateProductData =
  ud_rest :: ProductRest
  ud_status :: "js_value option"
  ud_category_ids :: "js_value list option"

text \<open>\<^verbatim>\<open>categoryName && categoryMap[categoryName]\<close>.\<close>

definition category_of :: "js_object \<Rightarrow> string option \<Rightarrow> js_value option" where
  "category_of categoryMap categoryName =
     (case categoryName of
        None \<Rightarrow> None
      | Some name \<Rightarrow>
          if name \<noteq> [] \<and> truthy (obj_get categoryMap name)
          then Some (obj_get categoryMap name) else None)"

text \<open>
  Lines 143-147. \<^verbatim>\<open>status.toUpperCase()\<close> throws a \<^verbatim>\<open>TypeError\<close> when \<^verbatim>\<open>status\<close> is
  undefined.
\<close>

definition create_dto :: "js_object \<Rightarrow> ProductInput \<Rightarrow> js_error + CreateProductDTO" where
  "create_dto categoryMap p =
     (case pi_status p of
        None \<Rightarrow> Inl (Error ''Cannot read properties of undefined (reading toUpperCase)'')
      | Some status \<Rightarrow>
          Inr \<lparr> dto_rest = rest_of p,
                dto_status = status_of status,
                dto_category_ids =
                  (case category_of categoryMap (pi_categoryName p) of
                     Some c \<Rightarrow> [c] | None \<Rightarrow> []) \<rparr>)"

text \<open>
  \<^verbatim>\<open>createProductsStep\<close> (lines 137-149), up to its call of
  \<^verbatim>\<open>productService.createProducts(dtos)\<close>: the argument of that call, if it is made.
\<close>

definition createProductsStep_dtos ::
  "ProductInput list \<Rightarrow> js_object \<Rightarrow> js_error + CreateProductDTO list option" where
  "createProductsStep_dtos products categoryMap =
     (if length products = 0 then Inr None
      else case map_throwing (create_dto categoryMap) products of
             Inl err \<Rightarrow> Inl err
           | Inr dtos \<Rightarrow> Inr (Some dtos))"

text \<open>Lines 170-178: the \<^verbatim>\<open>updateData\<close> built for one update entry.\<close>

definition update_data :: "js_object \<Rightarrow> UpdateInput \<Rightarrow> UpdateProductData" where
  "update_data categoryMap u =
     \<lparr> ud_rest = rest_of (upd_fields u),
       ud_status =
         (case pi_status (upd_fields u) of
            None \<Rightarrow> None
          | Some status \<Rightarrow> if status \<noteq> [] then Some (status_of status) else None),
       ud_category_ids =
         (case category_of categoryMap (pi_categoryName (upd_fields u)) of
            Some c \<Rightarrow> Some [c] | None \<Rightarrow> None) \<rparr>"

text \<open>
  \<^verbatim>\<open>updateProductsStep\<close> (lines 163-181): the arguments of its calls of
  \<^verbatim>\<open>productService.updateProducts(id, updateData)\<close>.
\<close>

definition updateProductsStep_calls ::
  "UpdateInput list \<Rightarrow> js_object \<Rightarrow> (string \<times> UpdateProductData) list" where
  "updateProductsStep_calls updates categoryMap =
     (if length updates = 0 then []
      else map (\<lambda>u. (upd_id u, update_data categoryMap u)) updates)"

section \<open>Linking products and brands\<close>

text \<open>
  Modelled from the spec: the keys of a link. \<^verbatim>\<open>Modules.PRODUCT\<close> is the framework's
  name of the product module. \<^verbatim>\<open>BRAND_MODULE\<close>, the name of the custom brand module
  ("Brand (a custom extension entity)"), is declared in \<^verbatim>\<open>src/modules/brand\<close>, which is
  not among the sources; its usual value is taken. Nothing below depends on the two values,
  only on their being different property names.
\<close>

definition Modules_PRODUCT :: string where
  "Modules_PRODUCT = ''product''"

definition BRAND_MODULE :: string where
  "BRAND_MODULE = ''brand''"

text \<open>
  A link as the step builds it:
  \<^verbatim>\<open>{ [Modules.PRODUCT]: { product_id }, [BRAND_MODULE]: { brand_id } }\<close>. The brand id is
  whatever \<^verbatim>\<open>brandMap[brandName]\<close> gave.
\<close>

record Link =
  link_product_id :: string
  link_brand_id :: js_value

text \<open>
  \<^verbatim>\<open>getBrandId\<close> (lines 211-218), for input items of any type, given how to read
  \<^verbatim>\<open>metadata?.external_id\<close> and \<^verbatim>\<open>brandName\<close> from an item. \<^const>\<open>None\<close> is \<^verbatim>\<open>null\<close>.
  Two undefined external ids are equal under \<^verbatim>\<open>===\<close>.
\<close>

definition getBrandId ::
  "js_object \<Rightarrow> ('i \<Rightarrow> string option) \<Rightarrow> ('i \<Rightarrow> string option) \<Rightarrow> 'i list \<Rightarrow> StoredProduct \<Rightarrow>
     js_value option" where
  "getBrandId brandMap external_id_of brandName_of inputItems p =
     (let extId = sp_metadata_external_id p
      in case find (\<lambda>i. external_id_of i = extId) inputItems of
           None \<Rightarrow> None
         | Some inputItem \<Rightarrow>
             (case brandName_of inputItem of
                None \<Rightarrow> None
              | Some brandName \<Rightarrow>
                  if brandName \<noteq> [] then Some (obj_get brandMap brandName) else None))"

text \<open>One of the two loops (lines 221-229 and 232-240): a link for each product with a truthy brand id.\<close>

definition links_for ::
  "js_object \<Rightarrow> ('i \<Rightarrow> string option) \<Rightarrow> ('i \<Rightarrow> string option) \<Rightarrow> 'i list \<Rightarrow> StoredProduct list \<Rightarrow>
     Link list" where
  "links_for brandMap external_id_of brandName_of inputItems products =
     List.map_filter
       (\<lambda>p. case getBrandId brandMap external_id_of brandName_of inputItems p of
               None \<Rightarrow> None
             | Some brandId \<Rightarrow>
                 if truthy brandId
                 then Some \<lparr> link_product_id = sp_id p, link_brand_id = brandId \<rparr>
                 else None)
       products"

definition step_links ::
  "StoredProduct list \<Rightarrow> StoredProduct list \<Rightarrow> js_object \<Rightarrow> ProductInput list \<Rightarrow>
     UpdateInput list \<Rightarrow> Link list" where
  "step_links createdProducts updatedProducts brandMap originalCreateInput originalUpdateInput =
     links_for brandMap pi_metadata_external_id pi_brandName originalCreateInput createdProducts
     @ links_for brandMap (\<lambda>u. pi_metadata_external_id (upd_fields u))
         (\<lambda>u. pi_brandName (upd_fields u)) originalUpdateInput updatedProducts"

subsection \<open>\<^verbatim>\<open>JSON.stringify\<close> and \<^verbatim>\<open>JSON.parse\<close> on links\<close>

text \<open>
  What a link is as JSON. A property whose value is a function is left out; the object
  \<^verbatim>\<open>Object.prototype\<close> has no enumerable property of its own and is written \<^verbatim>\<open>{}\<close>.
\<close>

datatype json_property = JAbsent | JString string | JEmptyObject

record JsonLink =
  jl_product_id :: string
  jl_brand_id :: json_property

definition to_json_property :: "js_value \<Rightarrow> json_property" where
  "to_json_property v =
     (case v of
        Str s \<Rightarrow> JString s
      | ProtoObject \<Rightarrow> JEmptyObject
      | ProtoFunction \<Rightarrow> JAbsent
      | Undefined \<Rightarrow> JAbsent)"

definition to_json_link :: "Link \<Rightarrow> JsonLink" where
  "to_json_link l =
     \<lparr> jl_product_id = link_product_id l, jl_brand_id = to_json_property (link_brand_id l) \<rparr>"

text \<open>
  A string in JSON: the quotation mark and the backslash are escaped, and so are the
  control characters, by their short forms or as \<^verbatim>\<open>\u00XX\<close>.
\<close>

definition hex_digit :: "nat \<Rightarrow> char" where
  "hex_digit d = ''0123456789abcdef'' ! (d mod 16)"

definition hex_value :: "char \<Rightarrow> nat option" where
  "hex_value c =
     map_of (zip ''0123456789abcdefABCDEF''
               [0, 1, 2, 3, 4, 5, 6, 7, 8, 9, 10, 11, 12, 13, 14, 15, 10, 11, 12, 13, 14, 15]) c"

definition json_escape_char :: "char \<Rightarrow> string" where
  "json_escape_char c =
     (if c = CHR 0x22 then [CHR 0x5C, CHR 0x22]
      else if c = CHR 0x5C then [CHR 0x5C, CHR 0x5C]
      else if c = CHR 0x08 then [CHR 0x5C, CHR ''b'']
      else if c = CHR 0x0C then [CHR 0x5C, CHR ''f'']
      else if c = CHR 0x0A then [CHR 0x5C, CHR ''n'']
      else if c = CHR 0x0D then [CHR 0x5C, CHR ''r'']
      else if c = CHR 0x09 then [CHR 0x5C, CHR ''t'']
      else if (of_char c :: nat) < 32
        then [CHR 0x5C, CHR ''u'', CHR ''0'', CHR ''0'',
              hex_digit ((of_char c :: nat) div 16), hex_digit ((of_char c :: nat) mod 16)]
      else [c])"

definition JSON_quote :: "string \<Rightarrow> string" where
  "JSON_quote s = CHR 0x22 # concat (map json_escape_char s) @ [CHR 0x22]"

definition json_unescape_simple :: "char \<Rightarrow> char option" where
  "json_unescape_simple e =
     map_of [(CHR 0x22, CHR 0x22), (CHR 0x5C, CHR 0x5C), (CHR ''/'', CHR ''/''),
             (CHR ''b'', CHR 0x08), (CHR ''f'', CHR 0x0C), (CHR ''n'', CHR 0x0A),
             (CHR ''r'', CHR 0x0D), (CHR ''t'', CHR 0x09)] e"

definition json_unescape_hex :: "char \<Rightarrow> char \<Rightarrow> char \<Rightarrow> char \<Rightarrow> char option" where
  "json_unescape_hex h1 h2 h3 h4 =
     (case (hex_value h1, hex_value h2, hex_value h3, hex_value h4) of
        (Some a, Some b, Some c, Some d) \<Rightarrow>
          (let n = ((a * 16 + b) * 16 + c) * 16 + d
           in if n < 256 then Some (char_of n) else None)
      | _ \<Rightarrow> None)"

text \<open>
  Reading a JSON string from just after its opening quotation mark: the characters of the
  string and what follows the closing quotation mark.
\<close>

fun json_string_from :: "string \<Rightarrow> (string \<times> string) option" where
  "json_string_from [] = None"
| "json_string_from (c # r) =
     (if c = CHR 0x22 then Some ([], r)
      else if c = CHR 0x5C then
        (case r of
           [] \<Rightarrow> None
         | e # r1 \<Rightarrow>
             if e = CHR ''u'' then
               (case r1 of
                  h1 # h2 # h3 # h4 # r2 \<Rightarrow>
                    (case json_unescape_hex h1 h2 h3 h4 of
                       None \<Rightarrow> None
                     | Some ch \<Rightarrow> map_option (apfst ((#) ch)) (json_string_from r2))
                | _ \<Rightarrow> None)
             else
               (case json_unescape_simple e of
                  None \<Rightarrow> None
                | Some ch \<Rightarrow> map_option (apfst ((#) ch)) (json_string_from r1)))
      else if (of_char c :: nat) < 32 then None
      else map_option (apfst ((#) c)) (json_string_from r))"

text \<open>\<^verbatim>\<open>JSON.stringify\<close> of a link.\<close>

definition render_json_link :: "JsonLink \<Rightarrow> string" where
  "render_json_link l =
     ''{'' @ JSON_quote Modules_PRODUCT @ '':{'' @ JSON_quote ''product_id'' @ '':''
       @ JSON_quote (jl_product_id l)
       @ ''},'' @ JSON_quote BRAND_MODULE @ '':{''
       @ (case jl_brand_id l of
            JAbsent \<Rightarrow> []
          | JString s \<Rightarrow> JSON_quote ''brand_id'' @ '':'' @ JSON_quote s
          | JEmptyObject \<Rightarrow> JSON_quote ''brand_id'' @ '':{}'')
       @ ''}}''"

definition JSON_stringify_link :: "Link \<Rightarrow> string" where
  "JSON_stringify_link l = render_json_link (to_json_link l)"

text \<open>
  \<^verbatim>\<open>JSON.parse\<close> on the texts of links: \<^const>\<open>None\<close> for a text that is not the JSON of a
  link (where \<^verbatim>\<open>JSON.parse\<close> throws or builds a value of another shape).
\<close>

definition JSON_parse_link :: "string \<Rightarrow> JsonLink option" where
  "JSON_parse_link s =
     (case strip_prefix
             (''{'' @ JSON_quote Modules_PRODUCT @ '':{'' @ JSON_quote ''product_id'' @ '':''
                @ [CHR 0x22]) s of
        None \<Rightarrow> None
      | Some r1 \<Rightarrow>
          (case json_string_from r1 of
             None \<Rightarrow> None
           | Some (pid, r2) \<Rightarrow>
               (case strip_prefix (''},'' @ JSON_quote BRAND_MODULE @ '':{'') r2 of
                  None \<Rightarrow> None
                | Some r3 \<Rightarrow>
                    if r3 = ''}}''
                    then Some \<lparr> jl_product_id = pid, jl_brand_id = JAbsent \<rparr>
                    else
                      (case strip_prefix (JSON_quote ''brand_id'' @ '':'') r3 of
                         None \<Rightarrow> None
                       | Some r4 \<Rightarrow>
                           if r4 = ''{}}}''
                           then Some \<lparr> jl_product_id = pid, jl_brand_id = JEmptyObject \<rparr>
                           else
                             (case strip_prefix [CHR 0x22] r4 of
                                None \<Rightarrow> None
                              | Some r5 \<Rightarrow>
                                  (case json_string_from r5 of
                                     None \<Rightarrow> None
                                   | Some (bid, r6) \<Rightarrow>
                                       if r6 = ''}}''
                                       then Some \<lparr> jl_product_id = pid,
                                                   jl_brand_id = JString bid \<rparr>
                                       else None))))))"

text \<open>
  Line 243: \<^verbatim>\<open>Array.from(new Set(links.map(l => JSON.stringify(l)))).map(s => JSON.parse(s))\<close>.
\<close>

definition uniqueLinks :: "Link list \<Rightarrow> js_error + JsonLink list" where
  "uniqueLinks links =
     map_throwing
       (\<lambda>s. case JSON_parse_link s of
               None \<Rightarrow> Inl (Error ''SyntaxError'')
             | Some l \<Rightarrow> Inr l)
       (Array_from_Set (map JSON_stringify_link links))"

text \<open>
  \<^verbatim>\<open>linkProductBrandsStep\<close> (lines 193-259), up to its call of
  \<^verbatim>\<open>remoteLink.create(uniqueLinks)\<close>: the argument of that call, or \<^const>\<open>None\<close> when there
  is nothing to link and the call is not made.
\<close>

definition linkProductBrandsStep_created ::
  "StoredProduct list \<Rightarrow> StoredProduct list \<Rightarrow> js_object \<Rightarrow> ProductInput list \<Rightarrow>
     UpdateInput list \<Rightarrow> js_error + JsonLink list option" where
  "linkProductBrandsStep_created createdProducts updatedProducts brandMap originalCreateInput
       originalUpdateInput =
     (case uniqueLinks (step_links createdProducts updatedProducts brandMap originalCreateInput
                          originalUpdateInput) of
        Inl err \<Rightarrow> Inl err
      | Inr unique \<Rightarrow> if length unique > 0 then Inr (Some unique) else Inr None)"

section \<open>The single workflow\<close>

text \<open>
  The workflow \<^verbatim>\<open>sync-products\<close> does the same reconciliation in one step. Its
  \<^verbatim>\<open>DummyProduct\<close> has more fields; of these the step reads \<^verbatim>\<open>discountPercentage\<close>.
\<close>

record FullDummyProduct = DummyProduct +
  dp_discountPercentage :: rat

record SyncVariant =
  sv_title :: string
  sv_compare_at_price :: "rat option"
  sv_prices :: "PriceInput list"
  sv_options :: "(string \<times> string) list"

record SyncProductData =
  sd_title :: string
  sd_description :: string
  sd_handle :: string
  sd_thumbnail :: string
  sd_options :: "OptionInput list"
  sd_variants :: "SyncVariant list"
  sd_metadata_external_id :: string
  sd_metadata_brand_id :: js_value

record SyncUpdate =
  su_id :: string
  su_fields :: SyncProductData

text \<open>
  \<^verbatim>\<open>productData\<close> (lines 124-150). A missing brand is the key \<^verbatim>\<open>"undefined"\<close> of
  \<^verbatim>\<open>brandMap[p.brand]\<close>; a discount of 0 is falsy.
\<close>

definition productData :: "js_object \<Rightarrow> FullDummyProduct \<Rightarrow> SyncProductData" where
  "productData brandMap p =
     (let pId = Number_toString (dp_id p);
          handleSlug = strip_dashes (replace_non_alnum_runs (toLowerCase (dp_title p)));
          handle = handleSlug @ ''-'' @ pId
      in \<lparr> sd_title = dp_title p,
           sd_description = dp_description p,
           sd_handle = handle,
           sd_thumbnail = dp_thumbnail p,
           sd_options = [\<lparr> option_title = ''Default Option'', option_values = [''Default''] \<rparr>],
           sd_variants =
             [\<lparr> sv_title = ''Default Variant'',
                sv_compare_at_price =
                  (if dp_discountPercentage p \<noteq> 0
                   then Some (dp_price p * (1 + dp_discountPercentage p / 100)) else None),
                sv_prices =
                  [\<lparr> amount = Math_round (dp_price p * 100), currency_code = ''usd'' \<rparr>],
                sv_options = [(''Default Option'', ''Default'')] \<rparr>],
           sd_metadata_external_id = pId,
           sd_metadata_brand_id =
             obj_get brandMap (case dp_brand p of None \<Rightarrow> ''undefined'' | Some b \<Rightarrow> b) \<rparr>)"

text \<open>The loop of \<^verbatim>\<open>syncProductsStep\<close> (lines 120-160).\<close>

fun sync_split_loop ::
  "js_object \<Rightarrow> (string option \<rightharpoonup> StoredProduct) \<Rightarrow> FullDummyProduct list \<Rightarrow>
     SyncProductData list \<Rightarrow> SyncUpdate list \<Rightarrow> SyncProductData list \<times> SyncUpdate list" where
  "sync_split_loop brandMap existingMap [] toCreate toUpdate = (toCreate, toUpdate)"
| "sync_split_loop brandMap existingMap (p # ps) toCreate toUpdate =
     (let pId = Number_toString (dp_id p)
      in case existingMap (Some pId) of
           Some existing \<Rightarrow>
             sync_split_loop brandMap existingMap ps toCreate
               (toUpdate @ [\<lparr> su_id = sp_id existing, su_fields = productData brandMap p \<rparr>])
         | None \<Rightarrow>
             sync_split_loop brandMap existingMap ps (toCreate @ [productData brandMap p])
               toUpdate)"

text \<open>Lines 96-160 of \<^verbatim>\<open>syncProductsStep\<close>: what it will create and what it will update.\<close>

definition syncProductsStep_split ::
  "StoredProduct list \<Rightarrow> FullDummyProduct list \<Rightarrow> js_object \<Rightarrow>
     SyncProductData list \<times> SyncUpdate list" where
  "syncProductsStep_split store products brandMap =
     (let externalIds = map (\<lambda>p. Number_toString (dp_id p)) products;
          existingProducts = listProducts store externalIds;
          existingMap = Map_new (map (\<lambda>p. (sp_metadata_external_id p, p)) existingProducts)
      in sync_split_loop brandMap existingMap products [] [])"

text \<open>
  \<^verbatim>\<open>syncBrandsStep\<close> (lines 49-80). \<^verbatim>\<open>filter(Boolean)\<close> drops missing and empty brand
  names; existing brands are looked up in a \<^verbatim>\<open>Map\<close>.
\<close>

definition syncBrandsStep ::
  "string list \<Rightarrow> FullDummyProduct list \<Rightarrow> Brand list \<Rightarrow>
     (js_object \<times> string list) \<times> Brand list" where
  "syncBrandsStep new_ids products table =
     (let brandNames =
            Array_from_Set (filter (\<lambda>n. n \<noteq> []) (List.map_filter dp_brand products));
          existingBrands = listBrands table brandNames;
          existingBrandMap = Map_new (map (\<lambda>b. (brand_name b, brand_id b)) existingBrands);
          brandsToCreate = filter (\<lambda>name. existingBrandMap name = None) brandNames;
          (createdBrands, table') =
            (if length brandsToCreate > 0 then createBrands new_ids brandsToCreate table
             else ([], table));
          finalBrandMap =
            foldl (\<lambda>m b. obj_set m (brand_name b) (brand_id b))
              (foldl (\<lambda>m b. obj_set m (brand_name b) (brand_id b)) Map.empty existingBrands)
              createdBrands
      in ((finalBrandMap, map brand_id createdBrands), table'))"

section \<open>The CSV export\<close>

text \<open>
  What the route reads of a product returned by \<^verbatim>\<open>query.graph\<close>. A field that may be
  \<^verbatim>\<open>null\<close> or \<^verbatim>\<open>undefined\<close> is an option. Amounts are whole numbers, as the sync job stores
  them (\<^verbatim>\<open>Math.round\<close>); \<^verbatim>\<open>created_at\<close> is kept as the text it is written as.
\<close>

record ExportPrice =
  xp_currency_code :: string
  xp_amount :: int

record ExportVariant =
  xv_prices :: "ExportPrice list option"

record ExportProduct =
  x_id :: string
  x_metadata_external_id :: "string option"
  x_title :: "string option"
  x_handle :: "string option"
  x_status :: string
  x_brand_name :: "string option"
  x_variants :: "ExportVariant list option"
  x_created_at :: string

text \<open>\<^verbatim>\<open>Array.prototype.join(",")\<close>.\<close>

fun join_comma :: "string list \<Rightarrow> string" where
  "join_comma [] = []"
| "join_comma [x] = x"
| "join_comma (x # y # ys) = x @ '','' @ join_comma (y # ys)"

definition csv_header :: string where
  "csv_header =
     join_comma [''ID'', ''External ID'', ''Title'', ''Handle'', ''Status'', ''Brand'',
                 ''Price (USD)'', ''Created At'']"

text \<open>\<^verbatim>\<open>s.replace(/"/g, '""')\<close>.\<close>

definition double_quotes :: "string \<Rightarrow> string" where
  "double_quotes s = concat (map (\<lambda>c. if c = CHR 0x22 then [CHR 0x22, CHR 0x22] else [c]) s)"

text \<open>Lines 98-106: the amount of the first usd price of the first variant.\<close>

definition usdPrice_of :: "ExportProduct \<Rightarrow> int option" where
  "usdPrice_of product =
     (case x_variants product of
        None \<Rightarrow> None
      | Some [] \<Rightarrow> None
      | Some (v # vs) \<Rightarrow>
          (case xv_prices v of
             None \<Rightarrow> None
           | Some prices \<Rightarrow>
               (case find (\<lambda>pr. xp_currency_code pr = ''usd'') prices of
                  None \<Rightarrow> None
                | Some p \<Rightarrow> Some (xp_amount p))))"

text \<open>
  \<^verbatim>\<open>(usdPrice / 100).toFixed(2)\<close> for a whole number of cents: the sign, the units, a
  point and two digits. (The source divides doubles; the quotient of a whole number below
  \<open>10\<^sup>1\<^sup>5\<close> by 100 is printed by \<^verbatim>\<open>toFixed(2)\<close> as this exact decimal.)
\<close>

definition toFixed2_of_cents :: "int \<Rightarrow> string" where
  "toFixed2_of_cents a =
     (if a < 0 then ''-'' else [])
       @ nat_toString (nat \<bar>a\<bar> div 100) @ ''.''
       @ [digit_char (nat \<bar>a\<bar> mod 100 div 10), digit_char (nat \<bar>a\<bar> mod 10)]"

text \<open>Line 108: \<^verbatim>\<open>usdPrice ? (usdPrice / 100).toFixed(2) : "N/A"\<close>; the number 0 is falsy.\<close>

definition priceDisplay_of :: "int option \<Rightarrow> string" where
  "priceDisplay_of usdPrice =
     (case usdPrice of
        None \<Rightarrow> ''N/A''
      | Some a \<Rightarrow> if a \<noteq> 0 then toFixed2_of_cents a else ''N/A'')"

text \<open>
  Lines 109-120. A missing title is written \<^verbatim>\<open>undefined\<close> by the template; a missing
  handle is an empty cell of \<^verbatim>\<open>join\<close>.
\<close>

definition csv_cells :: "ExportProduct \<Rightarrow> string list" where
  "csv_cells product =
     (let priceDisplay = priceDisplay_of (usdPrice_of product);
          brandName = (case x_brand_name product of None \<Rightarrow> [] | Some n \<Rightarrow> n)
      in [x_id product,
          (case x_metadata_external_id product of None \<Rightarrow> [] | Some e \<Rightarrow> e),
          [CHR 0x22]
            @ (case x_title product of None \<Rightarrow> ''undefined'' | Some t \<Rightarrow> double_quotes t)
            @ [CHR 0x22],
          (case x_handle product of None \<Rightarrow> [] | Some h \<Rightarrow> h),
          x_status product,
          [CHR 0x22] @ double_quotes brandName @ [CHR 0x22],
          priceDisplay,
          x_created_at product])"

definition csv_row :: "ExportProduct \<Rightarrow> string" where
  "csv_row product = join_comma (csv_cells product)"

subsection \<open>Reading a CSV record\<close>

text \<open>
  The quoting rules the rows are read by: fields are separated by commas; a field that
  starts with a quotation mark runs to the closing quotation mark, a doubled quotation mark
  inside standing for one; any other field runs to the next comma and holds no quotation
  mark and no line break. \<^const>\<open>None\<close>: the text is not a record.
\<close>

datatype csv_state = FieldStart | InUnquoted | InQuoted | AfterQuote

fun csv_fields :: "csv_state \<Rightarrow> string \<Rightarrow> string list \<Rightarrow> string \<Rightarrow> string list option" where
  "csv_fields st cur done_fields [] =
     (case st of InQuoted \<Rightarrow> None | _ \<Rightarrow> Some (done_fields @ [cur]))"
| "csv_fields FieldStart cur done_fields (c # r) =
     (if c = CHR 0x22 then csv_fields InQuoted [] done_fields r
      else if c = CHR '','' then csv_fields FieldStart [] (done_fields @ [[]]) r
      else if c = CHR 0x0A \<or> c = CHR 0x0D then None
      else csv_fields InUnquoted [c] done_fields r)"
| "csv_fields InUnquoted cur done_fields (c # r) =
     (if c = CHR '','' then csv_fields FieldStart [] (done_fields @ [cur]) r
      else if c = CHR 0x22 \<or> c = CHR 0x0A \<or> c = CHR 0x0D then None
      else csv_fields InUnquoted (cur @ [c]) done_fields r)"
| "csv_fields InQuoted cur done_fields (c # r) =
     (if c = CHR 0x22 then csv_fields AfterQuote cur done_fields r
      else csv_fields InQuoted (cur @ [c]) done_fields r)"
| "csv_fields AfterQuote cur done_fields (c # r) =
     (if c = CHR 0x22 then csv_fields InQuoted (cur @ [CHR 0x22]) done_fields r
      else if c = CHR '','' then csv_fields FieldStart [] (done_fields @ [cur]) r
      else None)"

definition parse_csv_record :: "string \<Rightarrow> string list option" where
  "parse_csv_record s = csv_fields FieldStart [] [] s"

text \<open>A cell that can stand unquoted: no comma, no quotation mark, no line break.\<close>

definition csv_plain :: "string \<Rightarrow> bool" where
  "csv_plain s = list_all (\<lambda>c. c \<notin> set [CHR '','', CHR 0x22, CHR 0x0A, CHR 0x0D]) s"

text \<open>Two products: one as the sync job stores them, one whose external id holds a comma.\<close>

definition demo_export :: ExportProduct where
  "demo_export =
     \<lparr> x_id = ''prod_a'', x_metadata_external_id = Some ''1'',
       x_title = Some [CHR ''6'', CHR 0x22, CHR '' '', CHR ''x'', CHR '','', CHR ''y''],
       x_handle = Some ''six-inch-1'', x_status = ''draft'', x_brand_name = None,
       x_variants = Some [\<lparr> xv_prices = Some [\<lparr> xp_currency_code = ''usd'', xp_amount = 1299 \<rparr>] \<rparr>],
       x_created_at = ''2026-01-01T00:00:00.000Z'' \<rparr>"

definition demo_export_comma :: ExportProduct where
  "demo_export_comma = demo_export\<lparr> x_metadata_external_id := Some ''A,B'' \<rparr>"

chapter \<open>Properties\<close>

section \<open>Numbers as strings\<close>

lemma nat_toString_small: "n < 10 \<Longrightarrow> nat_toString n = [digit_char n]"
  by (simp add: nat_toString.simps)

section \<open>The create/update split\<close>

lemma existingMap_get:
  "Map_new (map (\<lambda>p. (sp_metadata_external_id p, p)) (listProducts store ids)) (Some k)
     = (if k \<in> set ids then stored_target store k else None)"
  unfolding Map_new_def listProducts_def stored_target_def
  by (induction store rule: rev_induct) (auto simp: rev_map rev_filter split: option.splits)

lemma stored_target_None: "stored_target store k = None \<longleftrightarrow> k \<notin> stored_external_ids store"
  unfolding stored_target_def stored_external_ids_def
  by (auto simp: find_None_iff List.map_filter_def image_iff)

lemma find_Some_member: "find P xs = Some x \<Longrightarrow> x \<in> set xs \<and> P x"
  by (induction xs) (auto split: if_splits)


lemma stored_external_ids_iff:
  "k \<in> stored_external_ids store \<longleftrightarrow> (\<exists>s. stored_target store k = Some s)"
  using stored_target_None [of store k] by auto

lemma split_loop_eq:
  "split_loop m batch cs us =
     (cs @ map mapToMedusaFormat [p \<leftarrow> batch. m (Some (Number_toString (dp_id p))) = None],
      us @ map (\<lambda>p. \<lparr> upd_id = sp_id (the (m (Some (Number_toString (dp_id p))))),
                       upd_fields = mapToMedusaFormat p \<rparr>)
             [p \<leftarrow> batch. m (Some (Number_toString (dp_id p))) \<noteq> None])"
  by (induction batch arbitrary: cs us) (auto simp: Let_def split: option.splits)

lemma reconcile_eq:
  "reconcile store batch =
     (map mapToMedusaFormat [p \<leftarrow> batch. Number_toString (dp_id p) \<notin> stored_external_ids store],
      map (\<lambda>p. \<lparr> upd_id = sp_id (the (stored_target store (Number_toString (dp_id p)))),
                  upd_fields = mapToMedusaFormat p \<rparr>)
          [p \<leftarrow> batch. Number_toString (dp_id p) \<in> stored_external_ids store])"
proof -
  have key: "\<And>p. p \<in> set batch \<Longrightarrow>
      Map_new (map (\<lambda>p. (sp_metadata_external_id p, p))
         (listProducts store (map (\<lambda>p. Number_toString (dp_id p)) batch)))
        (Some (Number_toString (dp_id p))) = stored_target store (Number_toString (dp_id p))"
    by (simp add: existingMap_get)
  show ?thesis
    unfolding reconcile_def Let_def split_loop_eq
    by (auto simp: key stored_external_ids_iff intro!: filter_cong map_cong)
qed

lemma reconcile_lengths:
  assumes "reconcile store batch = (createBatch, updateBatch)"
  shows "length createBatch + length updateBatch = length batch"
proof -
  let ?stored = "\<lambda>p. Number_toString (dp_id p) \<in> stored_external_ids store"
  from assms have "length createBatch = length [p \<leftarrow> batch. \<not> ?stored p]"
    and "length updateBatch = length [p \<leftarrow> batch. ?stored p]"
    by (auto simp: reconcile_eq)
  then show ?thesis
    using sum_length_filter_compl [of ?stored batch] by simp
qed




lemma stored_external_ids_append:
  "stored_external_ids (xs @ ys) = stored_external_ids xs \<union> stored_external_ids ys"
  by (simp add: stored_external_ids_def List.map_filter_def)

lemma stored_external_ids_persisted:
  "length new_ids = length created \<Longrightarrow>
     stored_external_ids (persisted new_ids created) =
       {e. Some e \<in> pi_metadata_external_id ` set created}"
  unfolding stored_external_ids_def persisted_def List.map_filter_def
  apply (induction new_ids created rule: list_induct2)
  apply (auto)
  done

text \<open>
  Two runs in a row: once the products the first run asked to create are stored with the
  metadata it gave them, a second run over the same batch creates nothing.
\<close>

lemma second_run_creates_nothing:
  assumes "length new_ids = length (fst (reconcile store batch))"
  shows "fst (reconcile (store @ persisted new_ids (fst (reconcile store batch))) batch) = []"
proof -
  have "Number_toString (dp_id p) \<in>
          stored_external_ids (store @ persisted new_ids (fst (reconcile store batch)))"
    if "p \<in> set batch" for p
  proof (cases "Number_toString (dp_id p) \<in> stored_external_ids store")
    case True
    then show ?thesis by (simp add: stored_external_ids_append)
  next
    case False
    with that have "mapToMedusaFormat p \<in> set (fst (reconcile store batch))"
      by (simp add: reconcile_eq)
    moreover have "pi_metadata_external_id (mapToMedusaFormat p) = Some (Number_toString (dp_id p))"
      by (simp add: mapToMedusaFormat_def)
    ultimately show ?thesis
      using assms by (force simp: stored_external_ids_append stored_external_ids_persisted)
  qed
  then show ?thesis
    by (simp add: reconcile_eq filter_empty_conv)
qed



section \<open>\<^verbatim>\<open>fetchWithRetry\<close>\<close>

lemma fetchWithRetry_default_unfold:
  assumes "fetch (net w) url = (r0, n1)" and "fetch n1 url = (r1, n2)"
  shows "fetchWithRetry fetch url default_retries default_backoff w =
     (case try_attempt r0 of
        Inr body \<Rightarrow> (Inr body, w\<lparr> net := n1, trace := trace w @ [Fetch url] \<rparr>)
      | Inl e0 \<Rightarrow>
          (try_attempt r1, w\<lparr> net := n2, trace := trace w @ [Fetch url, Sleep 1000, Fetch url] \<rparr>))"
  using assms
  by (simp add: fetchWithRetry_def default_retries_def default_backoff_def
      fetchWithRetry_from.simps [of fetch url 2 1000 0]
      fetchWithRetry_from.simps [of fetch url 2 1000 1] Let_def
      split: sum.splits)


lemma try_attempt_Inr_iff:
  "try_attempt outcome = Inr body \<longleftrightarrow>
     (\<exists>res. outcome = Inr res \<and> res_ok res \<and> res_json res = Inr body)"
  by (auto simp: try_attempt_def split: sum.splits)

text \<open>
  Claim C3, as amended. With the default arguments \<^verbatim>\<open>fetchWithRetry\<close> calls \<^verbatim>\<open>fetch\<close> at most
  twice. An attempt succeeds when \<^verbatim>\<open>fetch\<close> resolves, the response is ok and its body parses
  as JSON; every other attempt fails. The function returns the parsed body of the first
  attempt that succeeds; after a failed first attempt it waits \<open>1000 * 2 ^ 0\<close> milliseconds
  and tries once more; when the second attempt fails too it throws that attempt's error.
\<close>

theorem fetchWithRetry_default_two_attempts:
  assumes "fetch (net w) url = (r0, n1)" and "fetch n1 url = (r1, n2)"
    and "fetchWithRetry fetch url default_retries default_backoff w = (result, w')"
  shows "length (filter is_Fetch (trace w')) \<le> length (filter is_Fetch (trace w)) + 2
       \<and> (\<forall>res body. r0 = Inr res \<and> res_ok res \<and> res_json res = Inr body \<longrightarrow>
             result = Inr body \<and> net w' = n1 \<and> trace w' = trace w @ [Fetch url])
       \<and> (\<forall>e0. try_attempt r0 = Inl e0 \<longrightarrow>
             net w' = n2
           \<and> trace w' = trace w @ [Fetch url, Sleep (default_backoff * 2 ^ 0), Fetch url]
           \<and> (\<forall>res body. r1 = Inr res \<and> res_ok res \<and> res_json res = Inr body \<longrightarrow>
                 result = Inr body)
           \<and> (\<forall>e1. try_attempt r1 = Inl e1 \<longrightarrow> result = Inl e1))"
proof -
  have run: "(result, w') =
     (case try_attempt r0 of
        Inr body \<Rightarrow> (Inr body, w\<lparr> net := n1, trace := trace w @ [Fetch url] \<rparr>)
      | Inl e0 \<Rightarrow>
          (try_attempt r1, w\<lparr> net := n2, trace := trace w @ [Fetch url, Sleep 1000, Fetch url] \<rparr>))"
    using fetchWithRetry_default_unfold [of fetch w url r0 n1 r1 n2] assms by simp
  show ?thesis
  proof (cases "try_attempt r0")
    case (Inr body)
    with run have "result = Inr body" and "w' = w\<lparr> net := n1, trace := trace w @ [Fetch url] \<rparr>"
      by simp_all
    moreover from Inr have "\<forall>e0. try_attempt r0 \<noteq> Inl e0"
      by simp
    moreover from Inr have "\<forall>res b. r0 = Inr res \<and> res_ok res \<and> res_json res = Inr b \<longrightarrow> b = body"
      by (auto simp: try_attempt_def)
    ultimately show ?thesis
      by (auto simp: is_Fetch_def)
  next
    case (Inl e0)
    with run have res: "result = try_attempt r1"
      and w': "w' = w\<lparr> net := n2, trace := trace w @ [Fetch url, Sleep 1000, Fetch url] \<rparr>"
      by simp_all
    have "\<not> (\<exists>res body. r0 = Inr res \<and> res_ok res \<and> res_json res = Inr body)"
      using Inl try_attempt_Inr_iff [of r0] by auto
    moreover have "\<forall>res body. r1 = Inr res \<and> res_ok res \<and> res_json res = Inr body \<longrightarrow>
        try_attempt r1 = Inr body"
      by (auto simp: try_attempt_def)
    ultimately show ?thesis using res w'
      by (auto simp: is_Fetch_def default_backoff_def)
  qed
qed

text \<open>
  Claim C3 as stated fails: the first attempt's response is ok but its body does not
  parse; the function retries and returns the body of the second attempt, which is not the
  first attempt whose response is ok.
\<close>

theorem fetchWithRetry_first_ok_response_counterexample:
  "\<not> (\<forall>w r0 n1 result w'.
        scripted_fetch (net w) ''u'' = (Inr r0, n1) \<and> res_ok r0
      \<and> fetchWithRetry scripted_fetch ''u'' default_retries default_backoff w = (result, w')
      \<longrightarrow> result = (res_json r0 :: js_error + nat))"
proof
  assume claim: "\<forall>w r0 n1 result w'.
        scripted_fetch (net w) ''u'' = (Inr r0, n1) \<and> res_ok r0
      \<and> fetchWithRetry scripted_fetch ''u'' default_retries default_backoff w = (result, w')
      \<longrightarrow> result = (res_json r0 :: js_error + nat)"
  let ?w = "\<lparr> net = html_then_json, trace = [] \<rparr>"
  let ?r0 = "\<lparr> res_ok = True, res_status = 200, res_json = Inl (Error ''Unexpected token <'') \<rparr> :: nat Response"
  let ?run = "fetchWithRetry scripted_fetch ''u'' default_retries default_backoff ?w"
  have a: "scripted_fetch (net ?w) ''u'' = (Inr ?r0, tl html_then_json)"
    by (simp add: scripted_fetch_def html_then_json_def)
  have b: "fst ?run = Inr 7"
    by code_simp
  have c: "?run = (fst ?run, snd ?run)"
    by simp
  from claim [rule_format, of ?w ?r0 "tl html_then_json" "fst ?run" "snd ?run"] a c
  have "fst ?run = res_json ?r0"
    by simp
  with b show False by simp
qed

theorem fetchWithRetry_default_two_attempts_witness:
  "scripted_fetch (net \<lparr> net = html_then_json, trace = [] \<rparr>) ''u'' = (hd html_then_json, tl html_then_json)
   \<and> fetchWithRetry scripted_fetch ''u'' default_retries default_backoff
       \<lparr> net = html_then_json, trace = [] \<rparr>
       = (Inr 7, \<lparr> net = [], trace = [Fetch ''u'', Sleep 1000, Fetch ''u''] \<rparr>)"
proof -
  let ?w = "\<lparr> net = html_then_json, trace = [] \<rparr>"
  have a: "scripted_fetch (net ?w) ''u'' = (hd html_then_json, tl html_then_json)"
    by (simp add: scripted_fetch_def html_then_json_def)
  have b: "scripted_fetch (tl html_then_json) ''u'' = (hd (tl html_then_json), [])"
    by (simp add: scripted_fetch_def html_then_json_def)
  have c: "fetchWithRetry scripted_fetch ''u'' default_retries default_backoff ?w =
      (fst (fetchWithRetry scripted_fetch ''u'' default_retries default_backoff ?w),
       snd (fetchWithRetry scripted_fetch ''u'' default_retries default_backoff ?w))"
    by simp
  have e0: "try_attempt (hd html_then_json) = Inl (Error ''Unexpected token <'')"
    by (simp add: try_attempt_def html_then_json_def)
  from fetchWithRetry_default_two_attempts [OF a b c] e0
  have "fst (fetchWithRetry scripted_fetch ''u'' default_retries default_backoff ?w) = Inr 7"
    and "net (snd (fetchWithRetry scripted_fetch ''u'' default_retries default_backoff ?w)) = []"
    and "trace (snd (fetchWithRetry scripted_fetch ''u'' default_retries default_backoff ?w)) = [Fetch ''u'', Sleep 1000, Fetch ''u'']"
    by (simp_all add: html_then_json_def default_backoff_def)
  then have "fetchWithRetry scripted_fetch ''u'' default_retries default_backoff ?w =
      (Inr 7, \<lparr> net = [], trace = [Fetch ''u'', Sleep 1000, Fetch ''u''] \<rparr>)"
    by (simp add: prod_eq_iff world.equality)
  with a show ?thesis by simp
qed

section \<open>Decimal numerals\<close>

lemma digit_char_cases: "d < 10 \<Longrightarrow> d \<in> set [0, 1, 2, 3, 4, 5, 6, 7, 8, 9 :: nat]"
  by auto

lemma digit_value_digit_char: "d < 10 \<Longrightarrow> digit_value (digit_char d) = d"
  using digit_char_cases [of d] by (auto simp: digit_value_def digit_char_def)

lemma is_digit_digit_char: "is_digit (digit_char d)"
proof -
  have "d mod 10 \<in> set [0, 1, 2, 3, 4, 5, 6, 7, 8, 9 :: nat]"
    by (rule digit_char_cases) simp
  then show ?thesis
    by (auto simp: is_digit_def digit_char_def)
qed

lemma nat_toString_digits: "list_all is_digit (nat_toString n)"
  by (induction n rule: nat_toString.induct)
     (subst nat_toString.simps, simp add: is_digit_digit_char)

lemma nat_toString_nonempty: "nat_toString n \<noteq> []"
  by (subst nat_toString.simps) simp

lemma digits_to_nat_snoc: "digits_to_nat (s @ [c]) = 10 * digits_to_nat s + digit_value c"
  by (simp add: digits_to_nat_def)

lemma digits_to_nat_toString: "digits_to_nat (nat_toString n) = n"
proof (induction n rule: nat_toString.induct)
  case (1 n)
  show ?case
  proof (cases "n < 10")
    case True
    then show ?thesis
      by (simp add: nat_toString_small digits_to_nat_def digit_value_digit_char)
  next
    case False
    with 1 have "digits_to_nat (nat_toString (n div 10)) = n div 10"
      by simp
    with False show ?thesis
      by (subst nat_toString.simps) (simp add: digits_to_nat_snoc digit_value_digit_char)
  qed
qed

lemma nat_toString_inj: "nat_toString m = nat_toString n \<Longrightarrow> m = n"
  by (metis digits_to_nat_toString)

lemma Number_toString_inj: "Number_toString i = Number_toString j \<Longrightarrow> i = j"
proof -
  have no_minus: "hd (nat_toString n) \<noteq> CHR ''-''" for n
  proof -
    from nat_toString_digits [of n] nat_toString_nonempty [of n]
    have "is_digit (hd (nat_toString n))"
      by (cases "nat_toString n") simp_all
    then show ?thesis by (auto simp: is_digit_def)
  qed
  assume eq: "Number_toString i = Number_toString j"
  show "i = j"
  proof (cases "i < 0"; cases "j < 0")
    assume "i < 0" "j < 0"
    with eq have "nat (- i) = nat (- j)"
      by (auto simp: Number_toString_def dest: nat_toString_inj)
    with \<open>i < 0\<close> \<open>j < 0\<close> show ?thesis by simp
  next
    assume "i < 0" "\<not> j < 0"
    with eq have "hd (nat_toString (nat j)) = CHR ''-''"
      by (simp add: Number_toString_def; metis list.sel(1))
    with no_minus show ?thesis by blast
  next
    assume "\<not> i < 0" "j < 0"
    with eq have "hd (nat_toString (nat i)) = CHR ''-''"
      by (simp add: Number_toString_def; metis list.sel(1))
    with no_minus show ?thesis by blast
  next
    assume "\<not> i < 0" "\<not> j < 0"
    with eq have "nat i = nat j"
      by (auto simp: Number_toString_def dest: nat_toString_inj)
    with \<open>\<not> i < 0\<close> \<open>\<not> j < 0\<close> show ?thesis by simp
  qed
qed

section \<open>Pagination\<close>

lemma takeWhile_digits_append:
  "list_all is_digit ds \<Longrightarrow> \<not> is_digit c \<Longrightarrow> takeWhile is_digit (ds @ c # r) = ds"
  by (induction ds) simp_all

lemma dropWhile_digits_append:
  "list_all is_digit ds \<Longrightarrow> \<not> is_digit c \<Longrightarrow> dropWhile is_digit (ds @ c # r) = c # r"
  by (induction ds) simp_all

lemma parse_products_url_roundtrip:
  "parse_products_url (products_url limit skip) = Some (limit, skip)"
proof -
  have amp: "\<not> is_digit CHR ''&''"
    by (simp add: is_digit_def)
  have rest: "strip_prefix ''https://dummyjson.com/products?limit='' (products_url limit skip)
      = Some (nat_toString limit @ CHR ''&'' # ''skip='' @ nat_toString skip)"
    by (simp add: strip_prefix_def products_url_def)
  have tw: "takeWhile is_digit (nat_toString limit @ CHR ''&'' # ''skip='' @ nat_toString skip)
      = nat_toString limit"
    by (rule takeWhile_digits_append [OF nat_toString_digits amp])
  have dw: "dropWhile is_digit (nat_toString limit @ CHR ''&'' # ''skip='' @ nat_toString skip)
      = CHR ''&'' # ''skip='' @ nat_toString skip"
    by (rule dropWhile_digits_append [OF nat_toString_digits amp])
  have sk: "strip_prefix ''&skip='' (CHR ''&'' # ''skip='' @ nat_toString skip)
      = Some (nat_toString skip)"
    by (simp add: strip_prefix_def)
  show ?thesis
    unfolding parse_products_url_def rest option.case tw dw sk
    by (simp add: nat_toString_nonempty nat_toString_digits digits_to_nat_toString)
qed

lemma fetchWithRetry_catalog:
  "fetchWithRetry (catalog_fetch catalog) (products_url limit skip)
      default_retries default_backoff w
    = (Inr (catalog_page catalog limit skip),
       w\<lparr> trace := trace w @ [Fetch (products_url limit skip)] \<rparr>)"
proof -
  have f: "catalog_fetch catalog n (products_url limit skip) =
      (Inr \<lparr> res_ok = True, res_status = 200,
             res_json = Inr (catalog_page catalog limit skip) \<rparr>, n)" for n
    by (simp add: catalog_fetch_def parse_products_url_roundtrip)
  show ?thesis
    using fetchWithRetry_default_unfold
      [of "catalog_fetch catalog" w "products_url limit skip" _ "net w" _ "net w"] f
    by (simp add: try_attempt_def)
qed

lemma fetch_page_catalog:
  "fetch_page (catalog_fetch catalog) limit skip w =
     (if limit = 0 \<or> length catalog \<le> skip
      then ((Return, Finished), w\<lparr> trace := trace w @ [Fetch (products_url limit skip)] \<rparr>)
      else ((Yield (take limit (drop skip catalog)), AtYield skip (length catalog)),
            w\<lparr> trace := trace w @ [Fetch (products_url limit skip)] \<rparr>))"
  by (auto simp: fetch_page_def fetchWithRetry_catalog catalog_page_def min_def
      split: if_splits)


lemma pages_Nil [simp]: "pages n [] = []"
  by (simp add: pages.simps)

lemma concat_pages: "0 < n \<Longrightarrow> concat (pages n xs) = xs"
  by (induction n xs rule: pages.induct) (subst pages.simps, simp)

lemma drain_catalog_from:
  assumes "0 < limit"
  shows "drain (catalog_fetch catalog) limit (AtLoopHead skip) w batches =
     Some ((batches @ pages limit (drop skip catalog), None),
           w\<lparr> trace := trace w
                 @ map (\<lambda>off. Fetch (products_url limit off))
                     (request_offsets limit skip (length catalog)) \<rparr>)"
  using assms
proof (induction limit skip "length catalog" arbitrary: w batches rule: request_offsets.induct)
  case (1 limit skip)
  let ?w1 = "w\<lparr> trace := trace w @ [Fetch (products_url limit skip)] \<rparr>"
  show ?case
  proof (cases "length catalog \<le> skip")
    case True
    with 1(2) show ?thesis
      by (subst drain.simps, subst request_offsets.simps)
         (simp add: fetchAllProducts_next_def fetch_page_catalog)
  next
    case False
    then have page: "pages limit (drop skip catalog) =
        take limit (drop skip catalog) # pages limit (drop (skip + limit) catalog)"
      using 1(2) by (subst pages.simps) (simp add: add.commute)
    have step: "drain (catalog_fetch catalog) limit (AtLoopHead skip) w batches =
        drain (catalog_fetch catalog) limit (AtYield skip (length catalog)) ?w1
          (batches @ [take limit (drop skip catalog)])"
      using False 1(2)
      by (subst drain.simps) (simp add: fetchAllProducts_next_def fetch_page_catalog)
    show ?thesis
    proof (cases "skip + limit < length catalog")
      case True
      then have "drain (catalog_fetch catalog) limit (AtYield skip (length catalog)) ?w1
            (batches @ [take limit (drop skip catalog)]) =
          drain (catalog_fetch catalog) limit (AtLoopHead (skip + limit)) ?w1
            (batches @ [take limit (drop skip catalog)])"
        by (subst drain.simps, subst (2) drain.simps)
           (simp add: fetchAllProducts_next_def Let_def)
      also have "\<dots> = Some (((batches @ [take limit (drop skip catalog)])
              @ pages limit (drop (skip + limit) catalog), None),
            ?w1\<lparr> trace := trace ?w1
                 @ map (\<lambda>off. Fetch (products_url limit off))
                     (request_offsets limit (skip + limit) (length catalog)) \<rparr>)"
        using 1(1) [of ?w1 "batches @ [take limit (drop skip catalog)]"] 1(2) True by simp
      finally show ?thesis
        using True 1(2) step page
        by (subst request_offsets.simps) simp
    next
      case False
      then have "pages limit (drop (skip + limit) catalog) = []"
        by simp
      moreover from False
      have "drain (catalog_fetch catalog) limit (AtYield skip (length catalog)) ?w1
            (batches @ [take limit (drop skip catalog)]) =
          Some ((batches @ [take limit (drop skip catalog)], None), ?w1)"
        by (subst drain.simps) (simp add: fetchAllProducts_next_def Let_def)
      ultimately show ?thesis
        using False step page
        by (subst request_offsets.simps) simp
    qed
  qed
qed


lemma ceil_div_le_iff:
  fixes n limit m :: nat
  assumes "0 < limit"
  shows "(n + limit - 1) div limit \<le> m \<longleftrightarrow> n \<le> m * limit"
proof
  assume "(n + limit - 1) div limit \<le> m"
  then have "n + limit - 1 < (m + 1) * limit"
    using assms by (metis Suc_eq_plus1 div_less_iff_less_mult le_imp_less_Suc)
  then show "n \<le> m * limit"
    using assms by simp
next
  assume "n \<le> m * limit"
  then have "n + limit - 1 < (m + 1) * limit"
    using assms by simp
  then have "(n + limit - 1) div limit < m + 1"
    using assms by (simp add: div_less_iff_less_mult)
  then show "(n + limit - 1) div limit \<le> m"
    by simp
qed

lemma request_offsets_multiples:
  assumes "0 < limit"
  shows "request_offsets limit (j * limit) n =
     map (\<lambda>k. k * limit) [j..<max (Suc j) ((n + limit - 1) div limit)]"
  using assms
proof (induction limit "j * limit" n arbitrary: j rule: request_offsets.induct)
  case (1 limit n)
  let ?c = "(n + limit - 1) div limit"
  show ?case
  proof (cases "j * limit + limit < n")
    case True
    then have "\<not> n \<le> Suc j * limit"
      by simp
    then have c: "Suc (Suc j) \<le> ?c"
      using ceil_div_le_iff [OF 1(2), of n "Suc j"] by simp
    from 1(1) [of "Suc j"] True 1(2)
    have "request_offsets limit (Suc j * limit) n =
        map (\<lambda>k. k * limit) [Suc j..<max (Suc (Suc j)) ?c]"
      by (simp add: add.commute)
    with c True 1(2) show ?thesis
      by (subst request_offsets.simps) (simp add: max_def upt_conv_Cons add.commute)
  next
    case False
    then have "n \<le> Suc j * limit"
      by simp
    then have "?c \<le> Suc j"
      using ceil_div_le_iff [OF 1(2), of n "Suc j"] by simp
    with False show ?thesis
      by (subst request_offsets.simps) (simp add: max_def)
  qed
qed

text \<open>
  Claim C5. Against a catalog that answers every page request from one fixed list of
  products, \<^verbatim>\<open>fetchAllProducts\<close> with a positive page size ends; it asks for the pages at
  \<open>skip = 0, limit, 2 * limit, \<dots>\<close>, one request each, and stops after the first empty page
  or as soon as the next \<open>skip\<close> reaches the reported total; the batches it yields are the
  pages of the catalog, so together they hold every product once, in catalog order.
\<close>

theorem fetchAllProducts_exhaustive:
  assumes "0 < limit"
  shows "\<exists>batches w'.
      drain (catalog_fetch catalog) limit fetchAllProducts w [] = Some ((batches, None), w')
    \<and> batches = pages limit catalog
    \<and> concat batches = catalog
    \<and> trace w' = trace w
        @ map (\<lambda>k. Fetch (products_url limit (k * limit)))
            [0..<max 1 ((length catalog + limit - 1) div limit)]"
proof -
  have "request_offsets limit 0 (length catalog) =
      map (\<lambda>k. k * limit) [0..<max 1 ((length catalog + limit - 1) div limit)]"
    using request_offsets_multiples [OF assms, of 0 "length catalog"] by simp
  then show ?thesis
    using drain_catalog_from [OF assms, of catalog 0 w "[]"] concat_pages [OF assms, of catalog]
    by (simp add: fetchAllProducts_def comp_def)
qed

theorem fetchAllProducts_exhaustive_witness:
  "(0::nat) < 2
   \<and> drain (catalog_fetch [demo_lipstick, demo_apple, demo_lipstick]) 2 fetchAllProducts
       \<lparr> net = (), trace = [] \<rparr> []
     = Some (([[demo_lipstick, demo_apple], [demo_lipstick]], None),
             \<lparr> net = (), trace = [Fetch (products_url 2 0), Fetch (products_url 2 2)] \<rparr>)"
proof -
  have pos: "(0::nat) < 2"
    by simp
  have p: "pages 2 [demo_lipstick, demo_apple, demo_lipstick] =
      [[demo_lipstick, demo_apple], [demo_lipstick]]"
    by (simp add: pages.simps)
  have up: "[0..<max 1 ((length [demo_lipstick, demo_apple, demo_lipstick] + 2 - 1) div 2)]
      = [0, 1]"
    by (simp add: upt_conv_Cons)
  from fetchAllProducts_exhaustive
    [OF pos, of "[demo_lipstick, demo_apple, demo_lipstick]" "\<lparr> net = (), trace = [] \<rparr>"]
  obtain batches w' where
    "drain (catalog_fetch [demo_lipstick, demo_apple, demo_lipstick]) 2 fetchAllProducts
       \<lparr> net = (), trace = [] \<rparr> [] = Some ((batches, None), w')"
    and "batches = pages 2 [demo_lipstick, demo_apple, demo_lipstick]"
    and "trace w' = [Fetch (products_url 2 0), Fetch (products_url 2 2)]"
    unfolding up by auto
  then show ?thesis
    using p by (cases w') simp
qed


section \<open>The job\<close>

lemma map_throwing_total:
  "(\<And>x. x \<in> set xs \<Longrightarrow> f x = Inr (g x)) \<Longrightarrow> map_throwing f xs = Inr (map g xs)"
  by (induction xs) simp_all

lemma external_ids_wellformed:
  "map_throwing raw_external_id (map raw_of products) =
     Inr (map (\<lambda>p. Number_toString (dp_id p)) products)"
  by (induction products) (simp_all add: raw_external_id_def raw_of_def)

lemma typed_product_raw_of: "typed_product (dp_id p) (dp_title p) (raw_of p) = p"
  by (simp add: typed_product_def raw_of_def)

lemma mapToMedusaFormat_raw_of: "mapToMedusaFormat_raw (raw_of p) = Inr (mapToMedusaFormat p)"
proof -
  have "raw_title (raw_of p) = Some (dp_title p)" and "raw_id (raw_of p) = Some (dp_id p)"
    by (simp_all add: raw_of_def)
  then show ?thesis
    by (simp add: mapToMedusaFormat_raw_def typed_product_raw_of)
qed

lemma raw_external_id_raw_of: "raw_external_id (raw_of p) = Inr (Number_toString (dp_id p))"
  by (simp add: raw_external_id_def raw_of_def)

lemma split_loop_raw_wellformed:
  "split_loop_raw m (map raw_of products) cs us = Inr (split_loop m products cs us)"
  by (induction products arbitrary: cs us)
     (simp_all add: mapToMedusaFormat_raw_of raw_external_id_raw_of Let_def split: option.splits)

lemma split_loop_raw_lengths:
  "split_loop_raw m batch cs us = Inr (createBatch, updateBatch) \<Longrightarrow>
     length createBatch + length updateBatch = length cs + length us + length batch"
proof (induction batch arbitrary: cs us)
  case Nil
  then show ?case by simp
next
  case (Cons p ps)
  from Cons.prems obtain mp e where mp: "mapToMedusaFormat_raw p = Inr mp"
    and e: "raw_external_id p = Inr e"
    by (auto split: sum.splits)
  show ?case
  proof (cases "m (Some e)")
    case None
    with Cons.prems mp e
    have "split_loop_raw m ps (cs @ [mp]) us = Inr (createBatch, updateBatch)"
      by simp
    from Cons.IH [OF this] show ?thesis by simp
  next
    case (Some existing)
    with Cons.prems mp e
    have "split_loop_raw m ps cs (us @ [\<lparr> upd_id = sp_id existing, upd_fields = mp \<rparr>])
        = Inr (createBatch, updateBatch)"
      by simp
    from Cons.IH [OF this] show ?thesis by simp
  qed
qed

lemma external_ids_total:
  "\<forall>p \<in> set batch. raw_id p \<noteq> None \<Longrightarrow> \<exists>ids. map_throwing raw_external_id batch = Inr ids"
  by (induction batch) (auto simp: raw_external_id_def)

lemma split_loop_raw_total:
  "\<forall>p \<in> set batch. raw_id p \<noteq> None \<and> raw_title p \<noteq> None \<Longrightarrow>
     \<exists>cu. split_loop_raw m batch cs us = Inr cu"
  by (induction batch arbitrary: cs us)
     (auto simp: raw_external_id_def mapToMedusaFormat_raw_def split: option.splits)

text \<open>
  On well-formed records, with a product service that filters as the source assumes, the
  loop body splits the batch as \<^const>\<open>reconcile\<close> does.
\<close>

lemma process_batch_reconcile:
  assumes "reconcile (products_of (app st)) products = (createBatch, updateBatch)"
    and "products \<noteq> []"
  shows "process_batch run (\<lambda>s externalIds. Inr (listProducts (products_of s) externalIds))
           (map raw_of products) st =
         (case run (app st) (createBatch, updateBatch) of
            (Inl err, app') \<Rightarrow>
              (Some err, st\<lparr> app := app',
                              logs := logs st @ [Info_processing (length products)] \<rparr>)
          | (Inr errors, app') \<Rightarrow>
              (None, st\<lparr> app := app',
                          logs := logs st @ [Info_processing (length products),
                            if errors \<noteq> [] then Error_syncing_batch errors
                            else Info_synced (length createBatch) (length updateBatch)] \<rparr>))"
proof -
  from reconcile_lengths [OF assms(1)] assms(2)
  have "length createBatch > 0 \<or> length updateBatch > 0"
    by (cases products) auto
  moreover from assms(1)
  have "split_loop
          (Map_new (map (\<lambda>p. (sp_metadata_external_id p, p))
             (listProducts (products_of (app st))
                (map (\<lambda>p. Number_toString (dp_id p)) products))))
          products [] [] = (createBatch, updateBatch)"
    by (simp add: reconcile_def Let_def)
  ultimately show ?thesis
    by (simp add: process_batch_def Let_def external_ids_wellformed split_loop_raw_wellformed
          split: sum.splits prod.splits)
qed

lemma process_batch_world:
  "process_batch run list_existing batch (st\<lparr> world := w \<rparr>) =
     (fst (process_batch run list_existing batch st),
      (snd (process_batch run list_existing batch st))\<lparr> world := w \<rparr>)"
  by (simp add: process_batch_def Let_def split: sum.splits prod.splits)

lemma process_batch_keeps_world:
  "world (snd (process_batch run list_existing batch st)) = world st"
  by (simp add: process_batch_def Let_def split: sum.splits prod.splits)

lemma process_all_world:
  "process_all run list_existing batches (st\<lparr> world := w \<rparr>) =
     (fst (process_all run list_existing batches st),
      (snd (process_all run list_existing batches st))\<lparr> world := w \<rparr>)"
proof (induction batches arbitrary: st)
  case Nil
  then show ?case by simp
next
  case (Cons batch batches)
  obtain r st' where pb: "process_batch run list_existing batch st = (r, st')"
    by (cases "process_batch run list_existing batch st")
  then have "process_batch run list_existing batch (st\<lparr> world := w \<rparr>) = (r, st'\<lparr> world := w \<rparr>)"
    by (simp add: process_batch_world)
  with pb Cons [of st'] show ?case
    by (cases r) simp_all
qed

lemma is_processing_Info: "is_processing (Info_processing n)"
  by (simp add: is_processing_def)

lemma process_batch_logs:
  "\<exists>entry. logs (snd (process_batch run list_existing batch st)) =
      logs st @ Info_processing (length batch) # entry
    \<and> filter is_processing entry = []"
  by (simp add: process_batch_def Let_def is_processing_def split: sum.splits prod.splits)

lemma process_all_processing:
  "fst (process_all run list_existing batches st) = None \<Longrightarrow>
   filter is_processing (logs (snd (process_all run list_existing batches st))) =
     filter is_processing (logs st) @ map (\<lambda>b. Info_processing (length b)) batches"
proof (induction batches arbitrary: st)
  case Nil
  then show ?case by simp
next
  case (Cons batch batches)
  obtain r st' where pb: "process_batch run list_existing batch st = (r, st')"
    by (cases "process_batch run list_existing batch st")
  with Cons.prems have r: "r = None"
    by (cases r) simp_all
  obtain entry where "logs (snd (process_batch run list_existing batch st)) =
      logs st @ Info_processing (length batch) # entry" and "filter is_processing entry = []"
    using process_batch_logs by blast
  with pb have "filter is_processing (logs st') =
      filter is_processing (logs st) @ [Info_processing (length batch)]"
    by (simp add: is_processing_Info)
  moreover from Cons.prems pb r have "fst (process_all run list_existing batches st') = None"
    by simp
  ultimately show ?case
    using Cons.IH [of st'] pb r by simp
qed

lemma process_batch_no_throw:
  assumes "\<forall>p \<in> set batch. raw_id p \<noteq> None \<and> raw_title p \<noteq> None"
    and "\<forall>s ids. \<exists>ps. list_existing s ids = Inr ps"
    and "\<forall>s input. \<exists>errors. fst (run s input) = Inr errors"
  shows "fst (process_batch run list_existing batch st) = None"
proof -
  from assms(1) obtain ids where ids: "map_throwing raw_external_id batch = Inr ids"
    using external_ids_total [of batch] by blast
  from assms(2) obtain ps where ps: "list_existing (app st) ids = Inr ps"
    by blast
  from assms(1) obtain cu where
    cu: "split_loop_raw (Map_new (map (\<lambda>p. (sp_metadata_external_id p, p)) ps)) batch [] []
          = Inr cu"
    using split_loop_raw_total by blast
  from assms(3) obtain errors where "fst (run (app st) cu) = Inr errors"
    by blast
  then obtain app' where "run (app st) cu = (Inr errors, app')"
    by (cases "run (app st) cu") simp
  with ids ps cu show ?thesis
    by (cases cu) (simp add: process_batch_def Let_def)
qed

lemma process_all_no_throw:
  assumes "\<forall>batch \<in> set batches. \<forall>p \<in> set batch. raw_id p \<noteq> None \<and> raw_title p \<noteq> None"
    and "\<forall>s ids. \<exists>ps. list_existing s ids = Inr ps"
    and "\<forall>s input. \<exists>errors. fst (run s input) = Inr errors"
  shows "fst (process_all run list_existing batches st) = None"
  using assms(1)
proof (induction batches arbitrary: st)
  case Nil
  then show ?case by simp
next
  case (Cons batch batches)
  obtain r st' where pb: "process_batch run list_existing batch st = (r, st')"
    by (cases "process_batch run list_existing batch st")
  from Cons.prems have "\<forall>p \<in> set batch. raw_id p \<noteq> None \<and> raw_title p \<noteq> None"
    by simp
  from process_batch_no_throw [OF this assms(2,3), of st] pb have "r = None"
    by simp
  with pb Cons.IH [of st'] Cons.prems show ?case
    by simp
qed

lemma process_batch_returned_errors:
  assumes "map_throwing raw_external_id batch = Inr ids"
    and "list_existing (app st) ids = Inr ps"
    and "split_loop_raw (Map_new (map (\<lambda>p. (sp_metadata_external_id p, p)) ps)) batch [] []
          = Inr cu"
    and "run (app st) cu = (Inr errors, app')"
    and "errors \<noteq> []" and "batch \<noteq> []"
  shows "process_batch run list_existing batch st =
     (None, st\<lparr> app := app',
                 logs := logs st @ [Info_processing (length batch),
                                    Error_syncing_batch errors] \<rparr>)"
proof -
  obtain createBatch updateBatch where c: "cu = (createBatch, updateBatch)"
    by (cases cu)
  from split_loop_raw_lengths [OF assms(3) [unfolded c]] assms(6)
  have "length createBatch > 0 \<or> length updateBatch > 0"
    by (cases batch) auto
  with assms(1-5) c show ?thesis
    by (simp add: process_batch_def Let_def)
qed

lemma process_batch_rejected_run:
  assumes "map_throwing raw_external_id batch = Inr ids"
    and "list_existing (app st) ids = Inr ps"
    and "split_loop_raw (Map_new (map (\<lambda>p. (sp_metadata_external_id p, p)) ps)) batch [] []
          = Inr cu"
    and "run (app st) cu = (Inl err, app')"
    and "batch \<noteq> []"
  shows "process_batch run list_existing batch st =
     (Some err, st\<lparr> app := app', logs := logs st @ [Info_processing (length batch)] \<rparr>)"
proof -
  obtain createBatch updateBatch where c: "cu = (createBatch, updateBatch)"
    by (cases cu)
  from split_loop_raw_lengths [OF assms(3) [unfolded c]] assms(5)
  have "length createBatch > 0 \<or> length updateBatch > 0"
    by (cases batch) auto
  with assms(1-4) c show ?thesis
    by (simp add: process_batch_def Let_def)
qed

lemma process_batch_throws:
  assumes "map_throwing raw_external_id batch = Inl err
     \<or> (\<exists>ids. map_throwing raw_external_id batch = Inr ids
          \<and> (list_existing (app st) ids = Inl err
             \<or> (\<exists>ps. list_existing (app st) ids = Inr ps
                  \<and> split_loop_raw (Map_new (map (\<lambda>p. (sp_metadata_external_id p, p)) ps))
                       batch [] [] = Inl err)))"
  shows "process_batch run list_existing batch st =
     (Some err, st\<lparr> logs := logs st @ [Info_processing (length batch)] \<rparr>)"
  using assms by (auto simp: process_batch_def Let_def)

lemma sync_loop_generator_throws:
  assumes "fetchAllProducts_next fetch 20 gen (world st) = ((Throw err, gen'), w')"
  shows "sync_loop fetch run list_existing gen st =
     Some (st\<lparr> world := w', logs := logs st @ [Error_critical err] \<rparr>)"
  using assms by (subst sync_loop.simps) simp

lemma sync_loop_body_throws:
  assumes "fetchAllProducts_next fetch 20 gen (world st) = ((Yield batch, gen'), w')"
    and "process_batch run list_existing batch (st\<lparr> world := w' \<rparr>) = (Some err, st')"
  shows "sync_loop fetch run list_existing gen st =
     Some (st'\<lparr> logs := logs st' @ [Error_critical err] \<rparr>)"
  using assms by (subst sync_loop.simps) simp

lemma sync_loop_catalog_from:
  "\<exists>st'. sync_loop (catalog_fetch catalog) run list_existing (AtLoopHead skip) st = Some st'
     \<and> app st' = app (snd (process_all run list_existing (pages 20 (drop skip catalog)) st))
     \<and> logs st' = logs (snd (process_all run list_existing (pages 20 (drop skip catalog)) st))
          @ [final_entry (fst (process_all run list_existing (pages 20 (drop skip catalog)) st))]
     \<and> (fst (process_all run list_existing (pages 20 (drop skip catalog)) st) = None \<longrightarrow>
          world st' = (world st)\<lparr> trace := trace (world st)
             @ map (\<lambda>off. Fetch (products_url 20 off))
                 (request_offsets 20 skip (length catalog)) \<rparr>)"
proof (induction "length catalog - skip" arbitrary: skip st rule: less_induct)
  case less
  let ?w1 = "(world st)\<lparr> trace := trace (world st) @ [Fetch (products_url 20 skip)] \<rparr>"
  let ?batch = "take 20 (drop skip catalog)"
  show ?case
  proof (cases "length catalog \<le> skip")
    case True
    then show ?thesis
      by (subst sync_loop.simps, subst request_offsets.simps)
         (simp add: fetchAllProducts_next_def fetch_page_catalog final_entry_def)
  next
    case False
    then have page: "pages 20 (drop skip catalog) = ?batch # pages 20 (drop (skip + 20) catalog)"
      by (subst pages.simps) (simp add: add.commute)
    obtain r s1 where pb: "process_batch run list_existing ?batch st = (r, s1)"
      by (cases "process_batch run list_existing ?batch st")
    then have pb1: "process_batch run list_existing ?batch (st\<lparr> world := ?w1 \<rparr>)
        = (r, s1\<lparr> world := ?w1 \<rparr>)"
      by (simp add: process_batch_world)
    have next1: "fetchAllProducts_next (catalog_fetch catalog) 20 (AtLoopHead skip) (world st)
        = ((Yield ?batch, AtYield skip (length catalog)), ?w1)"
      using False by (simp add: fetchAllProducts_next_def fetch_page_catalog)
    show ?thesis
    proof (cases r)
      case (Some err)
      with next1 pb1
      have "sync_loop (catalog_fetch catalog) run list_existing (AtLoopHead skip) st =
          Some (s1\<lparr> world := ?w1, logs := logs s1 @ [Error_critical err] \<rparr>)"
        by (subst sync_loop.simps) simp
      with Some pb show ?thesis
        unfolding page by (simp add: final_entry_def)
    next
      case None
      let ?s1 = "s1\<lparr> world := ?w1 \<rparr>"
      from None next1 pb1
      have step: "sync_loop (catalog_fetch catalog) run list_existing (AtLoopHead skip) st =
          sync_loop (catalog_fetch catalog) run list_existing (AtYield skip (length catalog)) ?s1"
        by (subst sync_loop.simps) simp
      from None pb
      have all: "process_all run list_existing (pages 20 (drop skip catalog)) st =
          process_all run list_existing (pages 20 (drop (skip + 20) catalog)) s1"
        unfolding page by simp
      show ?thesis
      proof (cases "skip + 20 < length catalog")
        case True
        then have "sync_loop (catalog_fetch catalog) run list_existing
              (AtYield skip (length catalog)) ?s1 =
            sync_loop (catalog_fetch catalog) run list_existing (AtLoopHead (skip + 20)) ?s1"
          by (subst sync_loop.simps, subst (2) sync_loop.simps)
             (simp add: fetchAllProducts_next_def Let_def)
        with step
        have eq: "sync_loop (catalog_fetch catalog) run list_existing (AtLoopHead skip) st =
            sync_loop (catalog_fetch catalog) run list_existing (AtLoopHead (skip + 20)) ?s1"
          by simp
        have offs: "request_offsets 20 skip (length catalog) =
            skip # request_offsets 20 (skip + 20) (length catalog)"
          using True by (subst request_offsets.simps) simp
        have "length catalog - (skip + 20) < length catalog - skip"
          using True by simp
        from less [OF this, of ?s1] show ?thesis
          unfolding eq all offs by (simp add: process_all_world)
      next
        case False
        then have "pages 20 (drop (skip + 20) catalog) = []"
          by simp
        moreover from False
        have "sync_loop (catalog_fetch catalog) run list_existing
              (AtYield skip (length catalog)) ?s1 =
            Some (?s1\<lparr> logs := logs ?s1 @ [Info_completed] \<rparr>)"
          by (subst sync_loop.simps) (simp add: fetchAllProducts_next_def Let_def)
        moreover have "request_offsets 20 skip (length catalog) = [skip]"
          using False by (subst request_offsets.simps) simp
        ultimately show ?thesis
          unfolding step all by (simp add: final_entry_def)
      qed
    qed
  qed
qed

lemma dailyProductSync_catalog:
  "\<exists>st'. dailyProductSync (catalog_fetch catalog) run list_existing st = Some st'
     \<and> app st' = app (snd (process_all run list_existing (pages 20 catalog)
                             (st\<lparr> logs := logs st @ [Info_starting] \<rparr>)))
     \<and> logs st' = logs (snd (process_all run list_existing (pages 20 catalog)
                               (st\<lparr> logs := logs st @ [Info_starting] \<rparr>)))
          @ [final_entry (fst (process_all run list_existing (pages 20 catalog)
                                 (st\<lparr> logs := logs st @ [Info_starting] \<rparr>)))]
     \<and> (fst (process_all run list_existing (pages 20 catalog)
                (st\<lparr> logs := logs st @ [Info_starting] \<rparr>)) = None \<longrightarrow>
          world st' = (world st)\<lparr> trace := trace (world st)
             @ map (\<lambda>k. Fetch (products_url 20 (k * 20)))
                 [0..<max 1 ((length catalog + 20 - 1) div 20)] \<rparr>)"
proof -
  have offs: "request_offsets 20 0 (length catalog) =
      map (\<lambda>k. k * 20) [0..<max 1 ((length catalog + 20 - 1) div 20)]"
    using request_offsets_multiples [of 20 0 "length catalog"] by simp
  from sync_loop_catalog_from [of catalog run list_existing 0
      "st\<lparr> logs := logs st @ [Info_starting] \<rparr>"]
  show ?thesis
    by (simp add: dailyProductSync_def fetchAllProducts_def offs comp_def)
qed

lemma dailyProductSync_wellformed:
  assumes "\<forall>p \<in> set catalog. raw_id p \<noteq> None \<and> raw_title p \<noteq> None"
    and "\<forall>s ids. \<exists>ps. list_existing s ids = Inr ps"
    and "\<forall>s input. \<exists>errors. fst (run s input) = Inr errors"
  shows "\<exists>st'. dailyProductSync (catalog_fetch catalog) run list_existing st = Some st'
     \<and> filter is_processing (logs st') =
         filter is_processing (logs st)
           @ map (\<lambda>batch. Info_processing (length batch)) (pages 20 catalog)
     \<and> last (logs st') = Info_completed
     \<and> world st' = (world st)\<lparr> trace := trace (world st)
             @ map (\<lambda>k. Fetch (products_url 20 (k * 20)))
                 [0..<max 1 ((length catalog + 20 - 1) div 20)] \<rparr>"
proof -
  let ?st0 = "st\<lparr> logs := logs st @ [Info_starting] \<rparr>"
  let ?all = "process_all run list_existing (pages 20 catalog) ?st0"
  have "set (concat (pages 20 catalog)) = set catalog"
    by (simp add: concat_pages)
  with assms(1)
  have "\<forall>batch \<in> set (pages 20 catalog). \<forall>p \<in> set batch. raw_id p \<noteq> None \<and> raw_title p \<noteq> None"
    by auto
  from process_all_no_throw [OF this assms(2,3)]
  have none: "fst ?all = None" .
  from process_all_processing [OF none]
  have processing: "filter is_processing (logs (snd ?all)) =
      filter is_processing (logs st)
        @ map (\<lambda>batch. Info_processing (length batch)) (pages 20 catalog)"
    by (simp add: is_processing_def)
  from dailyProductSync_catalog [of catalog run list_existing st] none processing
  show ?thesis
    by (auto simp: final_entry_def is_processing_def)
qed

text \<open>
  Claim C6, as amended. The loop sits in one \<^verbatim>\<open>try\<close>, and only the errors that the workflow
  run returns are handled per batch. Against a catalog whose pages can all be fetched:
  the job always ends, and it is the loop body applied to the pages in order up to the
  first page on which the body throws, followed by "completed" if nothing was thrown and
  by "Critical error" otherwise. When every record has its id and title and neither the
  product service nor the workflow call rejects, nothing is thrown: every page is fetched
  and processed, whatever errors the workflow returns for any of them, and the job ends
  with "completed". A batch whose workflow run returns errors gets an "Error syncing
  batch" entry with those errors and the loop goes on. Every thrown error ends the run
  with a "Critical error" entry, without another fetch: one thrown by the generator (a
  page that cannot be fetched) and one thrown by the loop body, which throws when a
  record has no id, when the product service rejects, when a record has no title, and
  when the workflow call rejects.
\<close>

theorem dailyProductSync_continues_after_batch_errors:
  "(\<exists>st'. dailyProductSync (catalog_fetch catalog) run list_existing st = Some st'
      \<and> app st' = app (snd (process_all run list_existing (pages 20 catalog)
                              (st\<lparr> logs := logs st @ [Info_starting] \<rparr>)))
      \<and> logs st' = logs (snd (process_all run list_existing (pages 20 catalog)
                                (st\<lparr> logs := logs st @ [Info_starting] \<rparr>)))
           @ [final_entry (fst (process_all run list_existing (pages 20 catalog)
                                  (st\<lparr> logs := logs st @ [Info_starting] \<rparr>)))])
   \<and> ((\<forall>p \<in> set catalog. raw_id p \<noteq> None \<and> raw_title p \<noteq> None)
        \<and> (\<forall>s ids. \<exists>ps. list_existing s ids = Inr ps)
        \<and> (\<forall>s input. \<exists>errors. fst (run s input) = Inr errors) \<longrightarrow>
      (\<exists>st'. dailyProductSync (catalog_fetch catalog) run list_existing st = Some st'
         \<and> filter is_processing (logs st') =
             filter is_processing (logs st)
               @ map (\<lambda>batch. Info_processing (length batch)) (pages 20 catalog)
         \<and> last (logs st') = Info_completed
         \<and> world st' = (world st)\<lparr> trace := trace (world st)
               @ map (\<lambda>k. Fetch (products_url 20 (k * 20)))
                   [0..<max 1 ((length catalog + 20 - 1) div 20)] \<rparr>))
   \<and> (\<forall>batch (s :: ('n, 's, 'e) job_state) ids ps cu errors app'.
        map_throwing raw_external_id batch = Inr ids
          \<and> list_existing (app s) ids = Inr ps
          \<and> split_loop_raw (Map_new (map (\<lambda>p. (sp_metadata_external_id p, p)) ps))
               batch [] [] = Inr cu
          \<and> run (app s) cu = (Inr errors, app') \<and> errors \<noteq> [] \<and> batch \<noteq> [] \<longrightarrow>
        process_batch run list_existing batch s =
          (None, s\<lparr> app := app',
                     logs := logs s @ [Info_processing (length batch),
                                       Error_syncing_batch errors] \<rparr>))
   \<and> (\<forall>(fetch :: ('n, RawProduct DummyResponse) fetch_fn) gen
         (s :: ('n, 's, 'e) job_state) err gen' w'.
        fetchAllProducts_next fetch 20 gen (world s) = ((Throw err, gen'), w') \<longrightarrow>
        sync_loop fetch run list_existing gen s =
          Some (s\<lparr> world := w', logs := logs s @ [Error_critical err] \<rparr>))
   \<and> (\<forall>(fetch :: ('n, RawProduct DummyResponse) fetch_fn) gen
         (s :: ('n, 's, 'e) job_state) batch gen' w' err s'.
        fetchAllProducts_next fetch 20 gen (world s) = ((Yield batch, gen'), w')
          \<and> process_batch run list_existing batch (s\<lparr> world := w' \<rparr>) = (Some err, s') \<longrightarrow>
        sync_loop fetch run list_existing gen s =
          Some (s'\<lparr> logs := logs s' @ [Error_critical err] \<rparr>))
   \<and> (\<forall>batch (s :: ('n, 's, 'e) job_state) err.
        (map_throwing raw_external_id batch = Inl err
         \<or> (\<exists>ids. map_throwing raw_external_id batch = Inr ids
              \<and> (list_existing (app s) ids = Inl err
                 \<or> (\<exists>ps. list_existing (app s) ids = Inr ps
                      \<and> split_loop_raw
                           (Map_new (map (\<lambda>p. (sp_metadata_external_id p, p)) ps))
                           batch [] [] = Inl err)))) \<longrightarrow>
        process_batch run list_existing batch s =
          (Some err, s\<lparr> logs := logs s @ [Info_processing (length batch)] \<rparr>))
   \<and> (\<forall>batch (s :: ('n, 's, 'e) job_state) ids ps cu err app'.
        map_throwing raw_external_id batch = Inr ids
          \<and> list_existing (app s) ids = Inr ps
          \<and> split_loop_raw (Map_new (map (\<lambda>p. (sp_metadata_external_id p, p)) ps))
               batch [] [] = Inr cu
          \<and> run (app s) cu = (Inl err, app') \<and> batch \<noteq> [] \<longrightarrow>
        process_batch run list_existing batch s =
          (Some err, s\<lparr> app := app',
                         logs := logs s @ [Info_processing (length batch)] \<rparr>))"
proof (intro conjI allI impI)
  from dailyProductSync_catalog [of catalog run list_existing st]
  show "\<exists>st'. dailyProductSync (catalog_fetch catalog) run list_existing st = Some st'
      \<and> app st' = app (snd (process_all run list_existing (pages 20 catalog)
                              (st\<lparr> logs := logs st @ [Info_starting] \<rparr>)))
      \<and> logs st' = logs (snd (process_all run list_existing (pages 20 catalog)
                                (st\<lparr> logs := logs st @ [Info_starting] \<rparr>)))
           @ [final_entry (fst (process_all run list_existing (pages 20 catalog)
                                  (st\<lparr> logs := logs st @ [Info_starting] \<rparr>)))]"
    by blast
next
  assume "(\<forall>p \<in> set catalog. raw_id p \<noteq> None \<and> raw_title p \<noteq> None)
      \<and> (\<forall>s ids. \<exists>ps. list_existing s ids = Inr ps)
      \<and> (\<forall>s input. \<exists>errors. fst (run s input) = Inr errors)"
  then have "\<forall>p \<in> set catalog. raw_id p \<noteq> None \<and> raw_title p \<noteq> None"
    and "\<forall>s ids. \<exists>ps. list_existing s ids = Inr ps"
    and "\<forall>s input. \<exists>errors. fst (run s input) = Inr errors"
    by simp_all
  then show "\<exists>st'. dailyProductSync (catalog_fetch catalog) run list_existing st = Some st'
         \<and> filter is_processing (logs st') =
             filter is_processing (logs st)
               @ map (\<lambda>batch. Info_processing (length batch)) (pages 20 catalog)
         \<and> last (logs st') = Info_completed
         \<and> world st' = (world st)\<lparr> trace := trace (world st)
               @ map (\<lambda>k. Fetch (products_url 20 (k * 20)))
                   [0..<max 1 ((length catalog + 20 - 1) div 20)] \<rparr>"
    by (rule dailyProductSync_wellformed)
next
  fix batch and s :: "('n, 's, 'e) job_state" and ids ps cu errors app'
  assume "map_throwing raw_external_id batch = Inr ids
      \<and> list_existing (app s) ids = Inr ps
      \<and> split_loop_raw (Map_new (map (\<lambda>p. (sp_metadata_external_id p, p)) ps))
           batch [] [] = Inr cu
      \<and> run (app s) cu = (Inr errors, app') \<and> errors \<noteq> [] \<and> batch \<noteq> []"
  then show "process_batch run list_existing batch s =
      (None, s\<lparr> app := app',
                 logs := logs s @ [Info_processing (length batch),
                                   Error_syncing_batch errors] \<rparr>)"
    using process_batch_returned_errors [of batch ids list_existing s ps cu run errors app']
    by simp
next
  fix fetch :: "('n, RawProduct DummyResponse) fetch_fn" and gen
    and s :: "('n, 's, 'e) job_state" and err gen' w'
  assume "fetchAllProducts_next fetch 20 gen (world s) = ((Throw err, gen'), w')"
  then show "sync_loop fetch run list_existing gen s =
      Some (s\<lparr> world := w', logs := logs s @ [Error_critical err] \<rparr>)"
    by (rule sync_loop_generator_throws)
next
  fix fetch :: "('n, RawProduct DummyResponse) fetch_fn" and gen
    and s :: "('n, 's, 'e) job_state" and batch gen' w' err s'
  assume "fetchAllProducts_next fetch 20 gen (world s) = ((Yield batch, gen'), w')
      \<and> process_batch run list_existing batch (s\<lparr> world := w' \<rparr>) = (Some err, s')"
  then show "sync_loop fetch run list_existing gen s =
      Some (s'\<lparr> logs := logs s' @ [Error_critical err] \<rparr>)"
    using sync_loop_body_throws [of fetch gen s batch gen' w' run list_existing err s']
    by simp
next
  fix batch and s :: "('n, 's, 'e) job_state" and err
  assume "map_throwing raw_external_id batch = Inl err
     \<or> (\<exists>ids. map_throwing raw_external_id batch = Inr ids
          \<and> (list_existing (app s) ids = Inl err
             \<or> (\<exists>ps. list_existing (app s) ids = Inr ps
                  \<and> split_loop_raw (Map_new (map (\<lambda>p. (sp_metadata_external_id p, p)) ps))
                       batch [] [] = Inl err)))"
  then show "process_batch run list_existing batch s =
      (Some err, s\<lparr> logs := logs s @ [Info_processing (length batch)] \<rparr>)"
    by (rule process_batch_throws)
next
  fix batch and s :: "('n, 's, 'e) job_state" and ids ps cu err app'
  assume "map_throwing raw_external_id batch = Inr ids
      \<and> list_existing (app s) ids = Inr ps
      \<and> split_loop_raw (Map_new (map (\<lambda>p. (sp_metadata_external_id p, p)) ps))
           batch [] [] = Inr cu
      \<and> run (app s) cu = (Inl err, app') \<and> batch \<noteq> []"
  then show "process_batch run list_existing batch s =
      (Some err, s\<lparr> app := app', logs := logs s @ [Info_processing (length batch)] \<rparr>)"
    using process_batch_rejected_run [of batch ids list_existing s ps cu run err app']
    by simp
qed

text \<open>
  Claim C6 as stated fails. The catalog holds 41 products, three pages. The first page is
  served; both attempts for the second page fail. The job logs a critical error and ends:
  the third page is never requested and its batch never processed.
\<close>

theorem dailyProductSync_fetch_failure_counterexample:
  "length (pages 20 (numbered_catalog 41)) = 3
   \<and> dailyProductSync (flaky_fetch (numbered_catalog 41) [1, 2]) succeeding_run empty_service
       (job_start 0)
     = Some \<lparr> world =
               \<lparr> net = 3,
                 trace = [Fetch (products_url 20 0), Fetch (products_url 20 20), Sleep 1000,
                          Fetch (products_url 20 20)] \<rparr>,
             app = (),
             logs = [Info_starting, Info_processing 20, Info_synced 20 0,
                     Error_critical (Error ''fetch failed'')] \<rparr>"
  by code_simp

theorem dailyProductSync_continues_after_batch_errors_witness:
  "list_all (\<lambda>p. raw_id p \<noteq> None \<and> raw_title p \<noteq> None) (numbered_catalog 41)
   \<and> (\<exists>st'. dailyProductSync (catalog_fetch (numbered_catalog 41)) failing_run empty_service
               (job_start ()) = Some st'
          \<and> filter is_processing (logs st')
              = [Info_processing 20, Info_processing 20, Info_processing 1]
          \<and> last (logs st') = Info_completed
          \<and> world st' = \<lparr> net = (), trace = [Fetch (products_url 20 0),
                 Fetch (products_url 20 20), Fetch (products_url 20 40)] \<rparr>)
   \<and> process_batch failing_run empty_service [raw_of demo_apple] (job_start ())
       = (None, \<lparr> world = \<lparr> net = (), trace = [] \<rparr>, app = (),
                  logs = [Info_processing 1, Error_syncing_batch [''step failed'']] \<rparr>)
   \<and> sync_loop (flaky_fetch (numbered_catalog 41) [1, 2]) failing_run empty_service
         (AtYield 0 41) (job_start 1)
       = Some \<lparr> world = \<lparr> net = 3, trace = [Fetch (products_url 20 20), Sleep 1000,
                                             Fetch (products_url 20 20)] \<rparr>,
               app = (), logs = [Error_critical (Error ''fetch failed'')] \<rparr>
   \<and> sync_loop (catalog_fetch (untitled_catalog 1 1)) failing_run empty_service
         (AtLoopHead 0) (job_start ())
       = Some \<lparr> world = \<lparr> net = (), trace = [Fetch (products_url 20 0)] \<rparr>, app = (),
               logs = [Info_processing 1, Error_critical
                 (Error ''Cannot read properties of undefined (reading toLowerCase)'')] \<rparr>
   \<and> process_batch failing_run empty_service [demo_without_id] (job_start ())
       = (Some (Error ''Cannot read properties of undefined (reading toString)''),
          \<lparr> world = \<lparr> net = (), trace = [] \<rparr>, app = (), logs = [Info_processing 1] \<rparr>)
   \<and> process_batch failing_run rejecting_service [raw_of demo_apple] (job_start ())
       = (Some (Error ''connection refused''),
          \<lparr> world = \<lparr> net = (), trace = [] \<rparr>, app = (), logs = [Info_processing 1] \<rparr>)
   \<and> process_batch rejecting_run empty_service [raw_of demo_apple] (job_start ())
       = (Some (Error ''workflow engine failed''),
          \<lparr> world = \<lparr> net = (), trace = [] \<rparr>, app = (), logs = [Info_processing 1] \<rparr>)"
proof -
  let ?s = "job_start () :: (unit, unit, string) job_state"
  let ?t = "job_start 1 :: (nat, unit, string) job_state"
  let ?apple = "[raw_of demo_apple]"
  let ?no_map = "Map_new (map (\<lambda>p. (sp_metadata_external_id p, p)) [])"
  let ?w = "\<lparr> net = (), trace = [Fetch (products_url 20 0)] \<rparr>"
  let ?w' = "\<lparr> net = 3 :: nat, trace = [Fetch (products_url 20 20), Sleep 1000,
      Fetch (products_url 20 20)] \<rparr>"
  note inst = dailyProductSync_continues_after_batch_errors
    [of "numbered_catalog 41" failing_run empty_service ?s]
  note inst_service = dailyProductSync_continues_after_batch_errors
    [of "numbered_catalog 41" failing_run rejecting_service ?s]
  note inst_run = dailyProductSync_continues_after_batch_errors
    [of "numbered_catalog 41" rejecting_run empty_service ?s]
  note all_pages = inst [THEN conjunct2, THEN conjunct1, THEN mp]
  note returned = inst [THEN conjunct2, THEN conjunct2, THEN conjunct1, rule_format]
  note generator_throws =
    inst [THEN conjunct2, THEN conjunct2, THEN conjunct2, THEN conjunct1, rule_format]
  note body_throws =
    inst [THEN conjunct2, THEN conjunct2, THEN conjunct2, THEN conjunct2, THEN conjunct1,
      rule_format]
  note throws =
    inst [THEN conjunct2, THEN conjunct2, THEN conjunct2, THEN conjunct2, THEN conjunct2,
      THEN conjunct1, rule_format]
  note service_throws =
    inst_service [THEN conjunct2, THEN conjunct2, THEN conjunct2, THEN conjunct2,
      THEN conjunct2, THEN conjunct1, rule_format]
  note run_throws =
    inst_run [THEN conjunct2, THEN conjunct2, THEN conjunct2, THEN conjunct2, THEN conjunct2,
      THEN conjunct2, rule_format]
  have wellformed: "list_all (\<lambda>p. raw_id p \<noteq> None \<and> raw_title p \<noteq> None) (numbered_catalog 41)"
    by code_simp
  then have h1: "\<forall>p \<in> set (numbered_catalog 41). raw_id p \<noteq> None \<and> raw_title p \<noteq> None"
    by (simp add: list_all_iff)
  have h2: "\<forall>s ids. \<exists>ps. empty_service s ids = Inr ps"
    by (simp add: empty_service_def)
  have h3: "\<forall>s input. \<exists>errors. fst (failing_run s input) = Inr errors"
    by (simp add: failing_run_def)
  have p: "map (\<lambda>batch. Info_processing (length batch) :: string log_entry)
      (pages 20 (numbered_catalog 41))
      = [Info_processing 20, Info_processing 20, Info_processing 1]"
    by code_simp
  have f: "map (\<lambda>k. Fetch (products_url 20 (k * 20)))
      [0..<max 1 ((length (numbered_catalog 41) + 20 - 1) div 20)]
      = [Fetch (products_url 20 0), Fetch (products_url 20 20), Fetch (products_url 20 40)]"
    by code_simp
  have ids: "map_throwing raw_external_id ?apple = Inr [''2'']"
    by code_simp
  have split: "split_loop_raw ?no_map ?apple [] [] = Inr ([mapToMedusaFormat demo_apple], [])"
    by (simp add: Map_new_def mapToMedusaFormat_raw_of raw_external_id_raw_of)
  have thrown: "fetchAllProducts_next (flaky_fetch (numbered_catalog 41) [1, 2]) 20 (AtYield 0 41)
      (world ?t) = ((Throw (Error ''fetch failed''), Finished), ?w')"
    by code_simp
  have yielded: "fetchAllProducts_next (catalog_fetch (untitled_catalog 1 1)) 20 (AtLoopHead 0)
      (world ?s) = ((Yield (untitled_catalog 1 1), AtYield 0 1), ?w)"
    by code_simp
  have body: "process_batch failing_run empty_service (untitled_catalog 1 1) (?s\<lparr> world := ?w \<rparr>)
      = (Some (Error ''Cannot read properties of undefined (reading toLowerCase)''),
         \<lparr> world = ?w, app = (), logs = [Info_processing 1] \<rparr>)"
    by code_simp
  have no_id: "map_throwing raw_external_id [demo_without_id]
      = Inl (Error ''Cannot read properties of undefined (reading toString)'')"
    by code_simp
  have found: "empty_service (app ?s) [''2''] = Inr []"
    by (simp add: empty_service_def)
  have refused: "rejecting_service (app ?s) [''2''] = Inl (Error ''connection refused'')"
    by (simp add: rejecting_service_def)
  have ran: "failing_run (app ?s) ([mapToMedusaFormat demo_apple], [])
      = (Inr [''step failed''], ())"
    by (simp add: failing_run_def)
  have rejected: "rejecting_run (app ?s) ([mapToMedusaFormat demo_apple], [])
      = (Inl (Error ''workflow engine failed''), ())"
    by (simp add: rejecting_run_def)
  have c2: "\<exists>st'. dailyProductSync (catalog_fetch (numbered_catalog 41)) failing_run
        empty_service (job_start ()) = Some st'
      \<and> filter is_processing (logs st')
          = [Info_processing 20, Info_processing 20, Info_processing 1]
      \<and> last (logs st') = Info_completed
      \<and> world st' = \<lparr> net = (), trace = [Fetch (products_url 20 0),
             Fetch (products_url 20 20), Fetch (products_url 20 40)] \<rparr>"
    using all_pages [OF conjI [OF h1 conjI [OF h2 h3]]]
    unfolding p f by (simp add: job_start_def)
  have c3: "process_batch failing_run empty_service ?apple ?s
      = (None, \<lparr> world = \<lparr> net = (), trace = [] \<rparr>, app = (),
                 logs = [Info_processing 1, Error_syncing_batch [''step failed'']] \<rparr>)"
    using returned [of ?apple "[''2'']" ?s "[]" "([mapToMedusaFormat demo_apple], [])"
        "[''step failed'']" "()"] ids found split ran
    by (simp add: job_start_def)
  have c4: "sync_loop (flaky_fetch (numbered_catalog 41) [1, 2]) failing_run empty_service
        (AtYield 0 41) (job_start 1)
      = Some \<lparr> world = ?w', app = (), logs = [Error_critical (Error ''fetch failed'')] \<rparr>"
    using generator_throws [OF thrown]
    by (simp add: job_start_def)
  have c5: "sync_loop (catalog_fetch (untitled_catalog 1 1)) failing_run empty_service
        (AtLoopHead 0) ?s
      = Some \<lparr> world = ?w, app = (),
               logs = [Info_processing 1, Error_critical
                 (Error ''Cannot read properties of undefined (reading toLowerCase)'')] \<rparr>"
    using body_throws [OF conjI [OF yielded body]]
    by simp
  have c6: "process_batch failing_run empty_service [demo_without_id] ?s
      = (Some (Error ''Cannot read properties of undefined (reading toString)''),
         \<lparr> world = \<lparr> net = (), trace = [] \<rparr>, app = (), logs = [Info_processing 1] \<rparr>)"
    using throws [OF disjI1 [OF no_id], of ?s]
    by (simp add: job_start_def)
  have c7: "process_batch failing_run rejecting_service ?apple ?s
      = (Some (Error ''connection refused''),
         \<lparr> world = \<lparr> net = (), trace = [] \<rparr>, app = (), logs = [Info_processing 1] \<rparr>)"
    using service_throws [of ?apple "Error ''connection refused''" ?s] ids refused
    by (simp add: job_start_def)
  have c8: "process_batch rejecting_run empty_service ?apple ?s
      = (Some (Error ''workflow engine failed''),
         \<lparr> world = \<lparr> net = (), trace = [] \<rparr>, app = (), logs = [Info_processing 1] \<rparr>)"
    using run_throws [of ?apple "[''2'']" ?s "[]" "([mapToMedusaFormat demo_apple], [])"
        "Error ''workflow engine failed''" "()"] ids found split rejected
    by (simp add: job_start_def)
  from wellformed c2 c3 c4 c5 c6 c7 c8 show ?thesis
    by simp
qed

text \<open>
  Two more runs that end early, against the same catalog served without a failure. With
  the title of record 25 missing, the second page throws in \<^verbatim>\<open>mapToMedusaFormat\<close>; with a
  product service that rejects, the first page throws at \<^verbatim>\<open>listProducts\<close>. In both the
  later pages are never requested.
\<close>

lemma dailyProductSync_untitled_record_run:
  "dailyProductSync (catalog_fetch (untitled_catalog 41 25)) succeeding_run empty_service
       (job_start ())
     = Some \<lparr> world = \<lparr> net = (),
                         trace = [Fetch (products_url 20 0), Fetch (products_url 20 20)] \<rparr>,
             app = (),
             logs = [Info_starting, Info_processing 20, Info_synced 20 0, Info_processing 20,
                     Error_critical
                       (Error ''Cannot read properties of undefined (reading toLowerCase)'')] \<rparr>"
  by code_simp

lemma dailyProductSync_rejecting_service_run:
  "dailyProductSync (catalog_fetch (numbered_catalog 41)) succeeding_run rejecting_service
       (job_start ())
     = Some \<lparr> world = \<lparr> net = (), trace = [Fetch (products_url 20 0)] \<rparr>,
             app = (),
             logs = [Info_starting, Info_processing 20,
                     Error_critical (Error ''connection refused'')] \<rparr>"
  by code_simp


section \<open>Compensation of the brand and category steps\<close>

lemma createBrands_ids:
  "createBrands new_ids names table = (created, table') \<Longrightarrow>
     table' = table @ created \<and> map brand_id created = take (length names) new_ids"
  by (auto simp: createBrands_def Let_def map2_map_map [symmetric] take_zip [symmetric]
      simp del: map2_map_map intro!: nth_equalityI)

lemma manageBrandsStep_created:
  assumes "manageBrandsStep new_ids brandNames table = ((brandMap, createdIds), table')"
  shows "\<exists>created. table' = table @ created \<and> createdIds = map brand_id created
           \<and> set createdIds \<subseteq> set new_ids"
proof -
  have sub: "set (take n new_ids) \<subseteq> set new_ids" for n
    by (rule set_take_subset)
  from assms show ?thesis
    by (auto simp: manageBrandsStep_def Let_def split: if_splits prod.splits
        dest!: createBrands_ids intro: set_mp [OF sub])
qed

lemma deleteBrands_created:
  assumes "set (map brand_id created) \<inter> brand_id ` set table = {}"
  shows "deleteBrands (map brand_id created) (table @ created) = table"
proof -
  have "filter (\<lambda>b. brand_id b \<notin> brand_id ` set created) table = table"
    using assms by (auto simp: filter_id_conv)
  moreover have "filter (\<lambda>b. brand_id b \<notin> brand_id ` set created) created = []"
    by (auto simp: filter_empty_conv)
  ultimately show ?thesis
    by (simp add: deleteBrands_def)
qed

lemma createProductCategories_ids:
  "createProductCategories new_ids inputs table = Inr (created, table') \<Longrightarrow>
     table' = table @ created \<and> map category_id created = take (length inputs) new_ids"
  by (auto simp: createProductCategories_def Let_def map2_map_map [symmetric] take_zip [symmetric]
      simp del: map2_map_map split: if_splits intro!: nth_equalityI)

lemma manageCategoriesStep_created:
  assumes "manageCategoriesStep new_ids categoryNames table = ((categoryMap, createdIds), table')"
  shows "\<exists>created. table' = table @ created \<and> createdIds = map category_id created
           \<and> set createdIds \<subseteq> set new_ids"
proof -
  have sub: "set (take n new_ids) \<subseteq> set new_ids" for n
    by (rule set_take_subset)
  from assms show ?thesis
    by (auto simp: manageCategoriesStep_def Let_def split: if_splits prod.splits sum.splits
        dest!: createProductCategories_ids intro: set_mp [OF sub])
qed

lemma deleteProductCategories_created:
  assumes "set (map category_id created) \<inter> category_id ` set table = {}"
  shows "deleteProductCategories (map category_id created) (table @ created) = table"
proof -
  have "filter (\<lambda>c. category_id c \<notin> category_id ` set created) table = table"
    using assms by (auto simp: filter_id_conv)
  moreover have "filter (\<lambda>c. category_id c \<notin> category_id ` set created) created = []"
    by (auto simp: filter_empty_conv)
  ultimately show ?thesis
    by (simp add: deleteProductCategories_def)
qed

text \<open>
  Claim C4. In a run of the batch workflow, the ids each of the two steps hands to its
  compensation function are the ids of the rows that step created in the run, none of them
  the id of a row that existed before; the compensation function deletes the rows with
  those ids, which leaves the table as it was before the run: every row created by the
  step is gone and every earlier row is still there. (The framework generates the ids of
  new rows; they are assumed not to be in use.)
\<close>

theorem compensation_deletes_exactly_created_rows:
  assumes "set new_brand_ids \<inter> brand_id ` set brands = {}"
    and "set new_category_ids \<inter> category_id ` set categories = {}"
    and "manageBrandsStep new_brand_ids brandNames brands =
           ((brandMap, createdBrandIds), brands')"
    and "manageCategoriesStep new_category_ids categoryNames categories =
           ((categoryMap, createdCategoryIds), categories')"
  shows "(\<exists>created. brands' = brands @ created \<and> createdBrandIds = map brand_id created)
       \<and> set createdBrandIds \<inter> brand_id ` set brands = {}
       \<and> manageBrandsStep_compensate (Some createdBrandIds) brands' = brands
       \<and> (\<exists>created. categories' = categories @ created
             \<and> createdCategoryIds = map category_id created)
       \<and> set createdCategoryIds \<inter> category_id ` set categories = {}
       \<and> manageCategoriesStep_compensate (Some createdCategoryIds) categories' = categories"
proof -
  from manageBrandsStep_created [OF assms(3)] obtain bs where
    bs: "brands' = brands @ bs" "createdBrandIds = map brand_id bs"
      "set createdBrandIds \<subseteq> set new_brand_ids"
    by blast
  from bs(3) assms(1) have b_fresh: "set createdBrandIds \<inter> brand_id ` set brands = {}"
    by blast
  have b_undo: "manageBrandsStep_compensate (Some createdBrandIds) brands' = brands"
  proof (cases "bs = []")
    case True
    with bs show ?thesis by (simp add: manageBrandsStep_compensate_def)
  next
    case False
    with bs b_fresh show ?thesis
      using deleteBrands_created [of bs brands]
      by (simp add: manageBrandsStep_compensate_def)
  qed
  from manageCategoriesStep_created [OF assms(4)] obtain cs where
    cs: "categories' = categories @ cs" "createdCategoryIds = map category_id cs"
      "set createdCategoryIds \<subseteq> set new_category_ids"
    by blast
  from cs(3) assms(2)
  have c_fresh: "set createdCategoryIds \<inter> category_id ` set categories = {}"
    by blast
  have c_undo: "manageCategoriesStep_compensate (Some createdCategoryIds) categories' = categories"
  proof (cases "cs = []")
    case True
    with cs show ?thesis by (simp add: manageCategoriesStep_compensate_def)
  next
    case False
    with cs c_fresh show ?thesis
      using deleteProductCategories_created [of cs categories]
      by (simp add: manageCategoriesStep_compensate_def)
  qed
  from bs(1,2) b_fresh b_undo cs(1,2) c_fresh c_undo show ?thesis
    by blast
qed


theorem compensation_deletes_exactly_created_rows_witness:
  "set [''brand_1'', ''brand_2''] \<inter> brand_id ` set demo_brands = {}
   \<and> set [''pcat_1'', ''pcat_2''] \<inter> category_id ` set demo_categories = {}
   \<and> snd (fst (manageBrandsStep [''brand_1'', ''brand_2''] [''Nike'', ''Apple'', ''Nike'']
         demo_brands)) = [''brand_1'']
   \<and> manageBrandsStep_compensate (Some [''brand_1''])
         (snd (manageBrandsStep [''brand_1'', ''brand_2''] [''Nike'', ''Apple'', ''Nike'']
            demo_brands)) = demo_brands
   \<and> snd (fst (manageCategoriesStep [''pcat_1'', ''pcat_2''] [''beauty'', ''Home Decor'']
         demo_categories)) = [''pcat_1'']
   \<and> manageCategoriesStep_compensate (Some [''pcat_1''])
         (snd (manageCategoriesStep [''pcat_1'', ''pcat_2''] [''beauty'', ''Home Decor'']
            demo_categories)) = demo_categories"
proof -
  let ?b = "manageBrandsStep [''brand_1'', ''brand_2''] [''Nike'', ''Apple'', ''Nike''] demo_brands"
  let ?c = "manageCategoriesStep [''pcat_1'', ''pcat_2''] [''beauty'', ''Home Decor'']
      demo_categories"
  have h1: "set [''brand_1'', ''brand_2''] \<inter> brand_id ` set demo_brands = {}"
    by (simp add: demo_brands_def)
  have h2: "set [''pcat_1'', ''pcat_2''] \<inter> category_id ` set demo_categories = {}"
    by (simp add: demo_categories_def)
  have b_ids: "snd (fst ?b) = [''brand_1'']"
    by code_simp
  have c_ids: "snd (fst ?c) = [''pcat_1'']"
    by code_simp
  have h3: "?b = ((fst (fst ?b), [''brand_1'']), snd ?b)"
    using b_ids by (simp add: prod_eq_iff)
  have h4: "?c = ((fst (fst ?c), [''pcat_1'']), snd ?c)"
    using c_ids by (simp add: prod_eq_iff)
  from compensation_deletes_exactly_created_rows [OF h1 h2 h3 h4] h1 h2 b_ids c_ids
  show ?thesis
    by blast
qed

section \<open>Deduplication of categories\<close>

text \<open>
  Claim C2 does not hold for the category step. Two names of one run that differ only in
  case or punctuation, here \<^verbatim>\<open>Home Decor\<close> and \<^verbatim>\<open>home decor\<close>, are distinct members of the
  set of names but have the same handle. The step puts both on the list it passes to
  \<^verbatim>\<open>createProductCategories\<close>; the call fails on the repeated handle, the fallback lookup
  finds nothing, and the map the step returns has an id for neither name (nor for
  \<^verbatim>\<open>Beauty\<close>, which was part of the same failed call).
\<close>

theorem manageCategoriesStep_same_handle_twice:
  "snd (categories_loop Map.empty (Array_from_Set [''Home Decor'', ''home decor'', ''Beauty''])
          Map.empty [])
     = [\<lparr> ci_name = ''Home Decor'', ci_handle = ''home-decor'' \<rparr>,
        \<lparr> ci_name = ''home decor'', ci_handle = ''home-decor'' \<rparr>,
        \<lparr> ci_name = ''Beauty'', ci_handle = ''beauty'' \<rparr>]
   \<and> (case manageCategoriesStep [''pcat_1'', ''pcat_2'', ''pcat_3'']
             [''Home Decor'', ''home decor'', ''Beauty''] [] of
        ((categoryMap, createdIds), table') \<Rightarrow>
          (map categoryMap [''Home Decor'', ''home decor'', ''Beauty''], createdIds, table'))
     = ([None, None, None], [], [])"
  by code_simp

section \<open>The status sent to the product service\<close>

lemma char_toUpperCase_not_lower:
  "char_toUpperCase c \<notin> set ''abcdefghijklmnopqrstuvwxyz''"
proof (cases "map_of (zip ''abcdefghijklmnopqrstuvwxyz'' ''ABCDEFGHIJKLMNOPQRSTUVWXYZ'') c")
  case None
  have "length ''abcdefghijklmnopqrstuvwxyz'' = length ''ABCDEFGHIJKLMNOPQRSTUVWXYZ''"
    by simp
  from map_of_zip_is_None [OF this, of c] None
  have notin: "c \<notin> set ''abcdefghijklmnopqrstuvwxyz''"
    by blast
  have eq: "char_toUpperCase c = c"
    by (simp only: char_toUpperCase_def None option.case)
  from notin show ?thesis
    unfolding eq .
next
  case (Some u)
  then have "(c, u) \<in> set (zip ''abcdefghijklmnopqrstuvwxyz'' ''ABCDEFGHIJKLMNOPQRSTUVWXYZ'')"
    by (rule map_of_SomeD)
  then have "u \<in> set ''ABCDEFGHIJKLMNOPQRSTUVWXYZ''"
    by (rule set_zip_rightD)
  then have notin: "u \<notin> set ''abcdefghijklmnopqrstuvwxyz''"
    by auto
  have eq: "char_toUpperCase c = u"
    by (simp only: char_toUpperCase_def Some option.case)
  from notin show ?thesis
    unfolding eq .
qed

lemma toUpperCase_no_lower:
  "c \<in> set (toUpperCase s) \<Longrightarrow> c \<notin> set ''abcdefghijklmnopqrstuvwxyz''"
  using char_toUpperCase_not_lower by (auto simp: toUpperCase_def)

lemma toUpperCase_not_inherited:
  "toUpperCase s \<noteq> ''__proto__'' \<and> toUpperCase s \<notin> set Object_prototype_functions"
proof -
  have o: "CHR ''o'' \<notin> set (toUpperCase s)"
  proof
    assume "CHR ''o'' \<in> set (toUpperCase s)"
    from toUpperCase_no_lower [OF this] show False by simp
  qed
  have e: "CHR ''e'' \<notin> set (toUpperCase s)"
  proof
    assume "CHR ''e'' \<in> set (toUpperCase s)"
    from toUpperCase_no_lower [OF this] show False by simp
  qed
  show ?thesis
  proof (intro conjI notI)
    assume "toUpperCase s = ''__proto__''"
    with o show False by simp
  next
    assume "toUpperCase s \<in> set Object_prototype_functions"
    with o e show False
      by (auto simp: Object_prototype_functions_def)
  qed
qed

lemma ProductStatus_values:
  "ProductStatus key = Some v \<Longrightarrow> v \<in> set [''draft'', ''proposed'', ''published'', ''rejected'']"
  by (auto simp: ProductStatus_def split: if_splits)

lemma status_of_eq:
  "status_of s = Str (case ProductStatus (toUpperCase s) of Some v \<Rightarrow> v | None \<Rightarrow> ''draft'')"
proof (cases "ProductStatus (toUpperCase s)")
  case None
  with toUpperCase_not_inherited [of s] have "obj_get ProductStatus (toUpperCase s) = Undefined"
    by (simp add: obj_get_def)
  moreover have "obj_get ProductStatus ''DRAFT'' = Str ''draft''"
    by (simp add: obj_get_def ProductStatus_def)
  ultimately show ?thesis
    using None by (simp add: status_of_def truthy_def)
next
  case (Some v)
  then have "obj_get ProductStatus (toUpperCase s) = Str v"
    by (simp add: obj_get_def)
  moreover from ProductStatus_values [OF Some] have "v \<noteq> []"
    by auto
  ultimately show ?thesis
    using Some by (simp add: status_of_def truthy_def)
qed

text \<open>
  Claim C9, as amended. For every status string \<open>s\<close>, \<^verbatim>\<open>createProductsStep\<close> sends a
  status that is one of the four values of \<^verbatim>\<open>ProductStatus\<close>: the value of the member
  named by the uppercased \<open>s\<close> when there is one, the value of \<^verbatim>\<open>DRAFT\<close> otherwise.
  \<^verbatim>\<open>updateProductsStep\<close> sends the same status when \<open>s\<close> is not empty; for the empty string
  (as for a missing status) it sets no status property at all.
\<close>

theorem status_sent_is_a_ProductStatus:
  "create_dto categoryMap (p\<lparr> pi_status := Some s \<rparr>) =
     Inr \<lparr> dto_rest = rest_of p,
           dto_status =
             Str (case ProductStatus (toUpperCase s) of Some v \<Rightarrow> v | None \<Rightarrow> ''draft''),
           dto_category_ids =
             (case category_of categoryMap (pi_categoryName p) of Some c \<Rightarrow> [c] | None \<Rightarrow> []) \<rparr>
   \<and> ud_status (update_data categoryMap (u\<lparr> upd_fields := (upd_fields u)\<lparr> pi_status := Some s \<rparr> \<rparr>)) =
       (if s = [] then None
        else Some (Str (case ProductStatus (toUpperCase s) of Some v \<Rightarrow> v | None \<Rightarrow> ''draft'')))
   \<and> ud_status (update_data categoryMap (u\<lparr> upd_fields := (upd_fields u)\<lparr> pi_status := None \<rparr> \<rparr>)) = None
   \<and> (case ProductStatus (toUpperCase s) of Some v \<Rightarrow> v | None \<Rightarrow> ''draft'')
       \<in> set [''draft'', ''proposed'', ''published'', ''rejected'']"
proof -
  have "(case ProductStatus (toUpperCase s) of Some v \<Rightarrow> v | None \<Rightarrow> ''draft'')
      \<in> set [''draft'', ''proposed'', ''published'', ''rejected'']"
    using ProductStatus_values [of "toUpperCase s"]
    by (cases "ProductStatus (toUpperCase s)") auto
  then show ?thesis
    by (simp add: create_dto_def update_data_def status_of_eq rest_of_def)
qed

text \<open>
  Claim C9 as stated fails for \<^verbatim>\<open>updateProductsStep\<close>: for the status string \<^verbatim>\<open>""\<close> the
  step sends no status (the claim asks for \<^verbatim>\<open>DRAFT\<close>), while \<^verbatim>\<open>createProductsStep\<close> sends
  \<^verbatim>\<open>"draft"\<close> for the same string.
\<close>

theorem updateProductsStep_empty_status_counterexample:
  "map (\<lambda>(i, d). (i, ud_status d))
     (updateProductsStep_calls
        [\<lparr> upd_id = ''prod_a'',
           upd_fields = (mapToMedusaFormat demo_apple)\<lparr> pi_status := Some '''' \<rparr> \<rparr>] Map.empty)
     = [(''prod_a'', None)]
   \<and> map_sum id (map_option (map dto_status))
       (createProductsStep_dtos [(mapToMedusaFormat demo_apple)\<lparr> pi_status := Some '''' \<rparr>]
          Map.empty)
     = Inr (Some [Str ''draft''])"
  by code_simp

section \<open>The links submitted\<close>

lemma hex_cases: "d < 16 \<Longrightarrow> d \<in> set [0, 1, 2, 3, 4, 5, 6, 7, 8, 9, 10, 11, 12, 13, 14, 15 :: nat]"
  by simp arith

lemma hex_value_hex_digit:
  assumes "d < 16"
  shows "hex_value (hex_digit d) = Some d"
proof -
  have "list_all (\<lambda>d. hex_value (hex_digit d) = Some d)
      [0, 1, 2, 3, 4, 5, 6, 7, 8, 9, 10, 11, 12, 13, 14, 15]"
    by code_simp
  then have "\<forall>d \<in> set [0, 1, 2, 3, 4, 5, 6, 7, 8, 9, 10, 11, 12, 13, 14, 15 :: nat].
      hex_value (hex_digit d) = Some d"
    by (simp only: list_all_iff)
  with hex_cases [OF assms] show ?thesis
    by blast
qed

lemma json_unescape_hex_control:
  assumes "(of_char c :: nat) < 32"
  shows "json_unescape_hex CHR ''0'' CHR ''0''
           (hex_digit ((of_char c :: nat) div 16)) (hex_digit ((of_char c :: nat) mod 16)) = Some c"
proof -
  let ?n = "of_char c :: nat"
  have zero: "hex_value CHR ''0'' = Some 0"
    by (simp add: hex_value_def)
  have hi: "hex_value (hex_digit (?n div 16)) = Some (?n div 16)"
    using assms by (intro hex_value_hex_digit) simp
  have lo: "hex_value (hex_digit (?n mod 16)) = Some (?n mod 16)"
    by (intro hex_value_hex_digit) simp
  have "((0 * 16 + 0) * 16 + ?n div 16) * 16 + ?n mod 16 = ?n"
    by simp
  moreover have "?n < 256"
    using assms by simp
  ultimately show ?thesis
    unfolding json_unescape_hex_def zero hi lo by (simp add: Let_def)
qed

lemma json_string_from_escape:
  "json_string_from (json_escape_char c @ r) = map_option (apfst ((#) c)) (json_string_from r)"
proof -
  consider (short) "c \<in> set [CHR 0x22, CHR 0x5C, CHR 0x08, CHR 0x0C, CHR 0x0A, CHR 0x0D, CHR 0x09]"
    | (control) "c \<notin> set [CHR 0x22, CHR 0x5C, CHR 0x08, CHR 0x0C, CHR 0x0A, CHR 0x0D, CHR 0x09]"
        "(of_char c :: nat) < 32"
    | (plain) "c \<notin> set [CHR 0x22, CHR 0x5C, CHR 0x08, CHR 0x0C, CHR 0x0A, CHR 0x0D, CHR 0x09]"
        "\<not> (of_char c :: nat) < 32"
    by blast
  then show ?thesis
  proof cases
    case short
    then show ?thesis
      by (auto simp: json_escape_char_def json_unescape_simple_def)
  next
    case control
    then have esc: "json_escape_char c =
        [CHR 0x5C, CHR ''u'', CHR ''0'', CHR ''0'',
         hex_digit ((of_char c :: nat) div 16), hex_digit ((of_char c :: nat) mod 16)]"
      by (simp add: json_escape_char_def)
    show ?thesis
      unfolding esc using json_unescape_hex_control [OF control(2)] by simp
  next
    case plain
    then have "json_escape_char c = [c]"
      by (simp add: json_escape_char_def)
    with plain show ?thesis
      by simp
  qed
qed

lemma json_string_from_quoted:
  "json_string_from (concat (map json_escape_char s) @ CHR 0x22 # rest) = Some (s, rest)"
  by (induction s) (simp_all add: json_string_from_escape)

lemma strip_prefix_append: "strip_prefix p (p @ r) = Some r"
  by (simp add: strip_prefix_def)

lemma JSON_parse_link_render: "JSON_parse_link (render_json_link l) = Some l"
proof -
  let ?head = "''{'' @ JSON_quote Modules_PRODUCT @ '':{'' @ JSON_quote ''product_id'' @ '':''
      @ [CHR 0x22]"
  let ?mid = "''},'' @ JSON_quote BRAND_MODULE @ '':{''"
  let ?brand = "case jl_brand_id l of
      JAbsent \<Rightarrow> []
    | JString s \<Rightarrow> JSON_quote ''brand_id'' @ '':'' @ JSON_quote s
    | JEmptyObject \<Rightarrow> JSON_quote ''brand_id'' @ '':{}''"
  have shape: "render_json_link l =
      ?head @ (concat (map json_escape_char (jl_product_id l)) @ CHR 0x22 # (?mid @ ?brand @ ''}}''))"
    by (simp add: render_json_link_def JSON_quote_def)
  have r1: "strip_prefix ?head (render_json_link l) =
      Some (concat (map json_escape_char (jl_product_id l)) @ CHR 0x22 # (?mid @ ?brand @ ''}}''))"
    unfolding shape by (rule strip_prefix_append)
  have r3: "strip_prefix ?mid (?mid @ ?brand @ ''}}'') = Some (?brand @ ''}}'')"
    by (rule strip_prefix_append)
  have tail: "(if ?brand @ ''}}'' = ''}}''
        then Some \<lparr> jl_product_id = jl_product_id l, jl_brand_id = JAbsent \<rparr>
        else
          (case strip_prefix (JSON_quote ''brand_id'' @ '':'') (?brand @ ''}}'') of
             None \<Rightarrow> None
           | Some r4 \<Rightarrow>
               if r4 = ''{}}}''
               then Some \<lparr> jl_product_id = jl_product_id l, jl_brand_id = JEmptyObject \<rparr>
               else
                 (case strip_prefix [CHR 0x22] r4 of
                    None \<Rightarrow> None
                  | Some r5 \<Rightarrow>
                      (case json_string_from r5 of
                         None \<Rightarrow> None
                       | Some (bid, r6) \<Rightarrow>
                           if r6 = ''}}''
                           then Some \<lparr> jl_product_id = jl_product_id l,
                                       jl_brand_id = JString bid \<rparr>
                           else None)))) = Some l"
  proof (cases "jl_brand_id l")
    case JAbsent
    then have "\<lparr> jl_product_id = jl_product_id l, jl_brand_id = JAbsent \<rparr> = l"
      by (cases l) simp
    with JAbsent show ?thesis by simp
  next
    case (JString s)
    have a: "strip_prefix (JSON_quote ''brand_id'' @ '':'')
        ((JSON_quote ''brand_id'' @ '':'' @ JSON_quote s) @ ''}}'')
        = Some (JSON_quote s @ ''}}'')"
      using strip_prefix_append [of "JSON_quote ''brand_id'' @ '':''" "JSON_quote s @ ''}}''"]
      by simp
    have b: "strip_prefix [CHR 0x22] (JSON_quote s @ ''}}'')
        = Some (concat (map json_escape_char s) @ CHR 0x22 # ''}}'')"
      by (simp add: strip_prefix_def JSON_quote_def)
    have c: "JSON_quote s @ ''}}'' \<noteq> ''{}}}''"
      by (simp add: JSON_quote_def)
    have d: "(JSON_quote ''brand_id'' @ '':'' @ JSON_quote s) @ ''}}'' \<noteq> ''}}''"
      by (simp add: JSON_quote_def)
    have l_eq: "\<lparr> jl_product_id = jl_product_id l, jl_brand_id = JString s \<rparr> = l"
      using JString by (cases l) simp
    show ?thesis
      unfolding JString json_property.case a option.case b
      using c d l_eq by (simp add: json_string_from_quoted)
  next
    case JEmptyObject
    have a: "strip_prefix (JSON_quote ''brand_id'' @ '':'')
        ((JSON_quote ''brand_id'' @ '':{}'') @ ''}}'') = Some ''{}}}''"
      using strip_prefix_append [of "JSON_quote ''brand_id'' @ '':''" "''{}}}''"]
      by simp
    have d: "(JSON_quote ''brand_id'' @ '':{}'') @ ''}}'' \<noteq> ''}}''"
      by (simp add: JSON_quote_def)
    have l_eq: "\<lparr> jl_product_id = jl_product_id l, jl_brand_id = JEmptyObject \<rparr> = l"
      using JEmptyObject by (cases l) simp
    show ?thesis
      unfolding JEmptyObject json_property.case a option.case
      using d l_eq by simp
  qed
  show ?thesis
    unfolding JSON_parse_link_def r1 option.case json_string_from_quoted prod.case r3
    by (rule tail)
qed

lemma JSON_parse_stringify: "JSON_parse_link (JSON_stringify_link l) = Some (to_json_link l)"
  by (simp add: JSON_stringify_link_def JSON_parse_link_render)

lemma distinct_Array_from_Set: "distinct (Array_from_Set xs)"
  by (simp add: Array_from_Set_def)

lemma set_Array_from_Set: "set (Array_from_Set xs) = set xs"
  by (simp add: Array_from_Set_def)

lemma uniqueLinks_eq:
  "uniqueLinks links =
     Inr (map (\<lambda>s. the (JSON_parse_link s)) (Array_from_Set (map JSON_stringify_link links)))"
  unfolding uniqueLinks_def
  by (rule map_throwing_total) (auto simp: set_Array_from_Set JSON_parse_stringify)

lemma uniqueLinks_distinct:
  "\<exists>unique. uniqueLinks links = Inr unique \<and> distinct unique
      \<and> set unique = to_json_link ` set links"
proof -
  let ?texts = "Array_from_Set (map JSON_stringify_link links)"
  let ?parse = "\<lambda>s. the (JSON_parse_link s)"
  have inj: "inj_on ?parse (set ?texts)"
  proof (rule inj_onI)
    fix s t
    assume "s \<in> set ?texts" "t \<in> set ?texts" and eq: "?parse s = ?parse t"
    then obtain k l where s: "s = JSON_stringify_link k" and t: "t = JSON_stringify_link l"
      by (auto simp: set_Array_from_Set)
    from eq have "to_json_link k = to_json_link l"
      by (simp add: s t JSON_parse_stringify)
    then show "s = t"
      by (simp add: s t JSON_stringify_link_def)
  qed
  have "distinct (map ?parse ?texts)"
    using inj distinct_Array_from_Set by (simp add: distinct_map)
  moreover have "set (map ?parse ?texts) = to_json_link ` set links"
    by (auto simp: set_Array_from_Set JSON_parse_stringify image_iff)
  ultimately show ?thesis
    by (simp add: uniqueLinks_eq)
qed

text \<open>
  Claim C8. Whatever the created and updated products, the brand map and the original
  inputs are, \<^verbatim>\<open>JSON.parse\<close> succeeds on every text of the set, and the list the step
  passes to \<^verbatim>\<open>remoteLink.create\<close> has no two equal entries: each product/brand pair of the
  links built occurs in it once, also when one product is in both input lists.
\<close>

theorem linkProductBrandsStep_no_duplicate_links:
  "\<exists>unique.
      uniqueLinks (step_links createdProducts updatedProducts brandMap originalCreateInput
                     originalUpdateInput) = Inr unique
    \<and> distinct unique
    \<and> set unique = to_json_link ` set (step_links createdProducts updatedProducts brandMap
                                          originalCreateInput originalUpdateInput)
    \<and> linkProductBrandsStep_created createdProducts updatedProducts brandMap originalCreateInput
          originalUpdateInput = Inr (if length unique > 0 then Some unique else None)"
proof -
  obtain unique where
    "uniqueLinks (step_links createdProducts updatedProducts brandMap originalCreateInput
       originalUpdateInput) = Inr unique"
    and "distinct unique"
    and "set unique = to_json_link ` set (step_links createdProducts updatedProducts brandMap
        originalCreateInput originalUpdateInput)"
    using uniqueLinks_distinct by blast
  then show ?thesis
    by (auto simp: linkProductBrandsStep_created_def)
qed


text \<open>One product in both lists, with the same brand: two links are built, one is submitted.\<close>

lemma linkProductBrandsStep_same_product_twice:
  "length (step_links [hd demo_store] [hd demo_store] [''Glamour'' \<mapsto> ''brand_1'']
             [mapToMedusaFormat demo_lipstick]
             [\<lparr> upd_id = ''prod_a'', upd_fields = mapToMedusaFormat demo_lipstick \<rparr>]) = 2
   \<and> linkProductBrandsStep_created [hd demo_store] [hd demo_store] [''Glamour'' \<mapsto> ''brand_1'']
         [mapToMedusaFormat demo_lipstick]
         [\<lparr> upd_id = ''prod_a'', upd_fields = mapToMedusaFormat demo_lipstick \<rparr>]
       = Inr (Some [\<lparr> jl_product_id = ''prod_a'', jl_brand_id = JString ''brand_1'' \<rparr>])"
  by code_simp

section \<open>The rows of the CSV export\<close>

lemma csv_plain_append [simp]: "csv_plain (a @ b) \<longleftrightarrow> csv_plain a \<and> csv_plain b"
  by (simp add: csv_plain_def)

lemma csv_plain_Cons:
  "csv_plain (c # s) \<longleftrightarrow>
     c \<noteq> CHR '','' \<and> c \<noteq> CHR 0x22 \<and> c \<noteq> CHR 0x0A \<and> c \<noteq> CHR 0x0D \<and> csv_plain s"
  by (auto simp: csv_plain_def)

lemma csv_plain_Nil [simp]: "csv_plain []"
  by (simp add: csv_plain_def)

lemma csv_unquoted_comma:
  "csv_plain f \<Longrightarrow>
     csv_fields InUnquoted cur fs (f @ CHR '','' # r) = csv_fields FieldStart [] (fs @ [cur @ f]) r"
  by (induction f arbitrary: cur) (simp_all add: csv_plain_Cons)

lemma csv_unquoted_end:
  "csv_plain f \<Longrightarrow> csv_fields InUnquoted cur fs f = Some (fs @ [cur @ f])"
  by (induction f arbitrary: cur) (simp_all add: csv_plain_Cons)

lemma csv_plain_comma:
  "csv_plain f \<Longrightarrow>
     csv_fields FieldStart [] fs (f @ CHR '','' # r) = csv_fields FieldStart [] (fs @ [f]) r"
  using csv_unquoted_comma [of "tl f" "[hd f]" fs r]
  by (cases f) (simp_all add: csv_plain_Cons)

lemma csv_plain_end:
  "csv_plain f \<Longrightarrow> csv_fields FieldStart [] fs f = Some (fs @ [f])"
  using csv_unquoted_end [of "tl f" "[hd f]" fs]
  by (cases f) (simp_all add: csv_plain_Cons)

lemma csv_in_quoted:
  "csv_fields InQuoted cur fs (double_quotes t @ CHR 0x22 # CHR '','' # r) =
     csv_fields FieldStart [] (fs @ [cur @ t]) r"
  by (induction t arbitrary: cur) (simp_all add: double_quotes_def)

lemma csv_quoted_comma:
  "csv_fields FieldStart [] fs (CHR 0x22 # double_quotes t @ CHR 0x22 # CHR '','' # r) =
     csv_fields FieldStart [] (fs @ [t]) r"
  using csv_in_quoted [of "[]" fs t r] by simp

lemma is_digit_plain: "list_all is_digit s \<Longrightarrow> csv_plain s"
  by (induction s) (auto simp: csv_plain_Cons is_digit_def)

lemma csv_plain_toFixed2: "csv_plain (toFixed2_of_cents a)"
proof -
  have "csv_plain (nat_toString n)" for n
    by (rule is_digit_plain [OF nat_toString_digits])
  moreover have "csv_plain [digit_char d]" for d
    using is_digit_plain [of "[digit_char d]"] by (simp add: is_digit_digit_char)
  ultimately show ?thesis
    by (simp add: toFixed2_of_cents_def csv_plain_Cons)
qed

lemma csv_plain_priceDisplay: "csv_plain (priceDisplay_of usdPrice)"
  by (cases usdPrice) (simp_all add: priceDisplay_of_def csv_plain_toFixed2 csv_plain_Cons)

lemma parse_csv_header:
  "parse_csv_record csv_header =
     Some [''ID'', ''External ID'', ''Title'', ''Handle'', ''Status'', ''Brand'',
           ''Price (USD)'', ''Created At'']"
  by code_simp

text \<open>
  Claim C10, as amended. For every product whose id, external id, handle, status and
  creation date hold no comma, no quotation mark and no line break (the cells the route
  writes unquoted), the row read under the CSV quoting rules has the 8 fields of the header:
  the id, the external id (empty when missing), the title, the handle, the status, the
  brand name (empty when missing), the price and the creation date. The title and the brand
  name, which the route quotes, may hold any character. The price is the usd amount of the
  first variant divided by 100 with two decimals when that amount is not zero, and
  \<^verbatim>\<open>N/A\<close> when the first variant has no usd price.
\<close>

theorem csv_row_has_the_header_fields:
  assumes "csv_plain (x_id p)"
    and "csv_plain (case x_metadata_external_id p of None \<Rightarrow> [] | Some e \<Rightarrow> e)"
    and "csv_plain (case x_handle p of None \<Rightarrow> [] | Some h \<Rightarrow> h)"
    and "csv_plain (x_status p)"
    and "csv_plain (x_created_at p)"
  shows "parse_csv_record (csv_row p) =
           Some [x_id p,
                 (case x_metadata_external_id p of None \<Rightarrow> [] | Some e \<Rightarrow> e),
                 (case x_title p of None \<Rightarrow> ''undefined'' | Some t \<Rightarrow> t),
                 (case x_handle p of None \<Rightarrow> [] | Some h \<Rightarrow> h),
                 x_status p,
                 (case x_brand_name p of None \<Rightarrow> [] | Some n \<Rightarrow> n),
                 priceDisplay_of (usdPrice_of p),
                 x_created_at p]
       \<and> map_option length (parse_csv_record (csv_row p))
           = map_option length (parse_csv_record csv_header)
       \<and> map_option length (parse_csv_record csv_header) = Some 8
       \<and> (\<forall>a. usdPrice_of p = Some a \<and> a \<noteq> 0 \<longrightarrow>
             priceDisplay_of (usdPrice_of p) =
               (if a < 0 then ''-'' else []) @ nat_toString (nat \<bar>a\<bar> div 100) @ ''.''
                 @ [digit_char (nat \<bar>a\<bar> mod 100 div 10), digit_char (nat \<bar>a\<bar> mod 10)])
       \<and> (usdPrice_of p = None \<longrightarrow> priceDisplay_of (usdPrice_of p) = ''N/A'')"
proof -
  let ?ext = "case x_metadata_external_id p of None \<Rightarrow> [] | Some e \<Rightarrow> e"
  let ?title = "case x_title p of None \<Rightarrow> ''undefined'' | Some t \<Rightarrow> t"
  let ?handle = "case x_handle p of None \<Rightarrow> [] | Some h \<Rightarrow> h"
  let ?brand = "case x_brand_name p of None \<Rightarrow> [] | Some n \<Rightarrow> n"
  let ?price = "priceDisplay_of (usdPrice_of p)"
  have title: "(case x_title p of None \<Rightarrow> ''undefined'' | Some t \<Rightarrow> double_quotes t)
      = double_quotes ?title"
    by (cases "x_title p") (simp_all add: double_quotes_def)
  have row: "csv_row p =
      x_id p @ CHR '','' # (?ext @ CHR '','' #
        (CHR 0x22 # double_quotes ?title @ CHR 0x22 # CHR '','' #
          (?handle @ CHR '','' # (x_status p @ CHR '','' #
            (CHR 0x22 # double_quotes ?brand @ CHR 0x22 # CHR '','' #
              (?price @ CHR '','' # x_created_at p))))))"
    by (simp add: csv_row_def csv_cells_def Let_def title)
  have parse: "parse_csv_record (csv_row p) =
      Some [x_id p, ?ext, ?title, ?handle, x_status p, ?brand, ?price, x_created_at p]"
    unfolding parse_csv_record_def row
    by (simp only: csv_plain_comma [OF assms(1)] csv_plain_comma [OF assms(2)]
        csv_quoted_comma csv_plain_comma [OF assms(3)] csv_plain_comma [OF assms(4)]
        csv_plain_comma [OF csv_plain_priceDisplay] csv_plain_end [OF assms(5)] append.simps)
  have price: "priceDisplay_of (Some a) =
      (if a < 0 then ''-'' else []) @ nat_toString (nat \<bar>a\<bar> div 100) @ ''.''
        @ [digit_char (nat \<bar>a\<bar> mod 100 div 10), digit_char (nat \<bar>a\<bar> mod 10)]"
    if "a \<noteq> 0" for a
    using that by (simp add: priceDisplay_of_def toFixed2_of_cents_def)
  have none: "priceDisplay_of None = ''N/A''"
    by (simp add: priceDisplay_of_def)
  from parse price none show ?thesis
    by (simp add: parse_csv_header)
qed

text \<open>
  Claim C10 as stated fails: the external id is written unquoted, so a product whose
  \<^verbatim>\<open>metadata.external_id\<close> is \<^verbatim>\<open>A,B\<close> gives a row of 9 fields.
\<close>

theorem csv_row_comma_counterexample:
  "map_option length (parse_csv_record (csv_row demo_export_comma)) = Some 9
   \<and> map_option length (parse_csv_record csv_header) = Some 8"
  by code_simp

text \<open>
  A usd price of 0 is written \<^verbatim>\<open>N/A\<close>, not \<^verbatim>\<open>0.00\<close>: the test \<^verbatim>\<open>usdPrice ? \<dots>\<close> takes
  the number 0 for a missing price.
\<close>

lemma csv_row_zero_price:
  "usdPrice_of (demo_export\<lparr> x_variants :=
       Some [\<lparr> xv_prices = Some [\<lparr> xp_currency_code = ''usd'', xp_amount = 0 \<rparr>] \<rparr>] \<rparr>) = Some 0
   \<and> map_option (\<lambda>fs. fs ! 6) (parse_csv_record (csv_row (demo_export\<lparr> x_variants :=
       Some [\<lparr> xv_prices = Some [\<lparr> xp_currency_code = ''usd'', xp_amount = 0 \<rparr>] \<rparr>] \<rparr>)))
     = Some ''N/A''"
  by code_simp

theorem csv_row_has_the_header_fields_witness:
  "csv_plain (x_id demo_export)
   \<and> csv_plain (x_status demo_export)
   \<and> csv_plain (x_created_at demo_export)
   \<and> usdPrice_of demo_export = Some 1299
   \<and> parse_csv_record (csv_row demo_export) =
       Some [''prod_a'', ''1'', [CHR ''6'', CHR 0x22, CHR '' '', CHR ''x'', CHR '','', CHR ''y''],
             ''six-inch-1'', ''draft'', [], ''12.99'', ''2026-01-01T00:00:00.000Z'']"
proof -
  have h1: "csv_plain (x_id demo_export)"
    and h2: "csv_plain (case x_metadata_external_id demo_export of None \<Rightarrow> [] | Some e \<Rightarrow> e)"
    and h3: "csv_plain (case x_handle demo_export of None \<Rightarrow> [] | Some h \<Rightarrow> h)"
    and h4: "csv_plain (x_status demo_export)"
    and h5: "csv_plain (x_created_at demo_export)"
    by code_simp+
  have u: "usdPrice_of demo_export = Some 1299"
    by code_simp
  have t: "(if (1299::int) < 0 then ''-'' else []) @ nat_toString (nat \<bar>1299\<bar> div 100) @ ''.''
      @ [digit_char (nat \<bar>1299\<bar> mod 100 div 10), digit_char (nat \<bar>1299\<bar> mod 10)] = ''12.99''"
    by code_simp
  from csv_row_has_the_header_fields [OF h1 h2 h3 h4 h5]
  have "parse_csv_record (csv_row demo_export) =
      Some [x_id demo_export,
            (case x_metadata_external_id demo_export of None \<Rightarrow> [] | Some e \<Rightarrow> e),
            (case x_title demo_export of None \<Rightarrow> ''undefined'' | Some t \<Rightarrow> t),
            (case x_handle demo_export of None \<Rightarrow> [] | Some h \<Rightarrow> h),
            x_status demo_export,
            (case x_brand_name demo_export of None \<Rightarrow> [] | Some n \<Rightarrow> n),
            priceDisplay_of (usdPrice_of demo_export),
            x_created_at demo_export]"
    and "priceDisplay_of (usdPrice_of demo_export) = ''12.99''"
    using u t by simp_all
  then show ?thesis
    using h1 h4 h5 u by (simp add: demo_export_def)
qed

section \<open>Deduplication of brands\<close>

lemma foldl_obj_set:
  assumes "\<forall>b \<in> set bs. brand_name b \<noteq> ''__proto__''"
  shows "foldl (\<lambda>m b. obj_set m (brand_name b) (brand_id b)) m bs n =
     (case find (\<lambda>b. brand_name b = n) (rev bs) of
        Some b \<Rightarrow> Some (brand_id b)
      | None \<Rightarrow> m n)"
  using assms
  by (induction bs arbitrary: m rule: rev_induct) (auto simp: obj_set_def)

lemma find_rev_None: "find P (rev xs) = None \<longleftrightarrow> (\<forall>x \<in> set xs. \<not> P x)"
  by (auto simp: find_None_iff)

lemma find_rev_Some: "find P (rev xs) = Some x \<Longrightarrow> x \<in> set xs \<and> P x"
  using find_Some_member [of P "rev xs" x] by simp

lemma in_set_mapD: "y \<in> set (map f xs) \<Longrightarrow> \<exists>x \<in> set xs. f x = y"
  by auto

lemma zip_names_created:
  assumes "length names \<le> length new_ids"
  shows "map brand_name (map2 (\<lambda>i n. \<lparr> brand_id = i, brand_name = n \<rparr>) new_ids names) = names"
  using assms
  by (induction names arbitrary: new_ids) (auto simp: Suc_le_length_iff)

text \<open>
  The brand half of claim C2, for names that are not names of inherited properties of a
  plain object (\<^verbatim>\<open>constructor\<close>, \<^verbatim>\<open>toString\<close>, \<dots>): when the ids in the table are not
  empty and the framework supplies an id for every new brand, the step creates one brand
  for each distinct name that no stored brand has, in order of first occurrence, and the map
  it returns gives every input name the id of a brand of that name.
\<close>

lemma manageBrandsStep_dedup:
  assumes names: "\<forall>n \<in> set brandNames. n \<noteq> ''__proto__'' \<and> n \<notin> set Object_prototype_functions"
    and ids: "\<forall>b \<in> set table. brand_id b \<noteq> []"
    and enough: "length brandNames \<le> length new_ids"
    and step: "manageBrandsStep new_ids brandNames table = ((brandMap, createdIds), table')"
  shows "\<exists>created. table' = table @ created
      \<and> map brand_name created =
          [n \<leftarrow> Array_from_Set brandNames. n \<notin> brand_name ` set table]
      \<and> distinct (map brand_name created)
      \<and> (\<forall>n \<in> set brandNames. \<exists>b \<in> set table'. brand_name b = n \<and> brandMap n = Some (brand_id b))"
proof (cases "brandNames = []")
  case True
  with step show ?thesis
    by (simp add: manageBrandsStep_def Array_from_Set_def)
next
  case False
  let ?unique = "Array_from_Set brandNames"
  let ?existing = "listBrands table ?unique"
  let ?map0 = "foldl (\<lambda>m b. obj_set m (brand_name b) (brand_id b)) Map.empty ?existing"
  let ?toCreate = "filter (\<lambda>n. \<not> truthy (obj_get ?map0 n)) ?unique"
  let ?created = "map2 (\<lambda>i n. \<lparr> brand_id = i, brand_name = n \<rparr>) new_ids ?toCreate"
  let ?map1 = "foldl (\<lambda>m b. obj_set m (brand_name b) (brand_id b)) ?map0 ?created"
  have unique: "set ?unique = set brandNames" "distinct ?unique"
    by (simp_all add: set_Array_from_Set distinct_Array_from_Set)
  have ex_names: "\<forall>b \<in> set ?existing. brand_name b \<noteq> ''__proto__''"
    using names unique by (auto simp: listBrands_def)
  have map0: "?map0 n = (case find (\<lambda>b. brand_name b = n) (rev ?existing) of
      Some b \<Rightarrow> Some (brand_id b) | None \<Rightarrow> None)" for n
    using foldl_obj_set [OF ex_names, of Map.empty n] by simp
  have stored: "\<exists>b \<in> set table. brand_name b = n \<and> ?map0 n = Some (brand_id b)"
    if "n \<in> set brandNames" "n \<in> brand_name ` set table" for n
  proof -
    from that unique have "\<exists>b \<in> set ?existing. brand_name b = n"
      by (auto simp: listBrands_def)
    then obtain b where "find (\<lambda>b. brand_name b = n) (rev ?existing) = Some b"
      using find_rev_None [of "\<lambda>b. brand_name b = n" ?existing]
      by (cases "find (\<lambda>b. brand_name b = n) (rev ?existing)") auto
    moreover from find_rev_Some [OF this] have "b \<in> set table" "brand_name b = n"
      by (auto simp: listBrands_def)
    ultimately show ?thesis
      by (auto simp: map0)
  qed
  have missing: "?map0 n = None" if "n \<notin> brand_name ` set table" for n
  proof -
    from that have "\<forall>b \<in> set ?existing. brand_name b \<noteq> n"
      by (auto simp: listBrands_def)
    then have "find (\<lambda>b. brand_name b = n) (rev ?existing) = None"
      by (simp add: find_rev_None)
    then show ?thesis
      by (simp add: map0)
  qed
  have falsy: "\<not> truthy (obj_get ?map0 n) \<longleftrightarrow> n \<notin> brand_name ` set table"
    if "n \<in> set brandNames" for n
  proof (cases "n \<in> brand_name ` set table")
    case True
    from stored [OF that True] ids show ?thesis
      using True by (auto simp: obj_get_def truthy_def)
  next
    case False
    from missing [OF False] names that show ?thesis
      using False by (auto simp: obj_get_def truthy_def)
  qed
  have toCreate: "?toCreate = [n \<leftarrow> ?unique. n \<notin> brand_name ` set table]"
    using falsy unique by (intro filter_cong) auto
  have "length ?toCreate \<le> length ?unique"
    by simp
  also have "\<dots> \<le> length brandNames"
    by (simp add: Array_from_Set_def) (metis length_remdups_leq length_rev)
  finally have len: "length ?toCreate \<le> length new_ids"
    using enough by simp
  have created_names: "map brand_name ?created = ?toCreate"
    by (rule zip_names_created [OF len])
  have "set (map brand_name ?created) = set ?toCreate"
    by (simp only: created_names)
  also have "\<dots> = {n \<in> set brandNames. n \<notin> brand_name ` set table}"
    by (simp only: toCreate set_filter unique(1))
  finally have in_created:
    "set (map brand_name ?created) = {n \<in> set brandNames. n \<notin> brand_name ` set table}" .
  have cr_names: "\<forall>b \<in> set ?created. brand_name b \<noteq> ''__proto__''"
  proof
    fix b assume "b \<in> set ?created"
    then have "brand_name b \<in> set (map brand_name ?created)"
      by (simp del: map_map)
    then have "brand_name b \<in> set brandNames"
      unfolding in_created by simp
    with names show "brand_name b \<noteq> ''__proto__''"
      by blast
  qed
  have map1: "?map1 n = (case find (\<lambda>b. brand_name b = n) (rev ?created) of
      Some b \<Rightarrow> Some (brand_id b) | None \<Rightarrow> ?map0 n)" for n
    by (rule foldl_obj_set [OF cr_names])
  have result: "brandMap = ?map1 \<and> table' = table @ ?created"
  proof (cases "?toCreate = []")
    case True
    then have "?created = []"
      by simp
    with step False True show ?thesis
      by (auto simp: manageBrandsStep_def Let_def)
  next
    case nonempty: False
    with step False show ?thesis
      by (simp add: manageBrandsStep_def Let_def createBrands_def split: prod.splits)
  qed
  have entry: "\<exists>b \<in> set (table @ ?created). brand_name b = n \<and> ?map1 n = Some (brand_id b)"
    if n: "n \<in> set brandNames" for n
  proof (cases "n \<in> brand_name ` set table")
    case True
    then have "n \<notin> set (map brand_name ?created)"
      unfolding in_created by simp
    then have "find (\<lambda>b. brand_name b = n) (rev ?created) = None"
      by (auto simp: find_rev_None simp del: map_map)
    with stored [OF n True] show ?thesis
      by (auto simp: map1)
  next
    case False
    with n have "n \<in> set (map brand_name ?created)"
      unfolding in_created by simp
    then have "\<exists>b \<in> set ?created. brand_name b = n"
      by (rule in_set_mapD)
    then obtain b where b: "find (\<lambda>b. brand_name b = n) (rev ?created) = Some b"
      using find_rev_None [of "\<lambda>b. brand_name b = n" ?created]
      by (cases "find (\<lambda>b. brand_name b = n) (rev ?created)") auto
    from find_rev_Some [OF b] b show ?thesis
      by (auto simp: map1)
  qed
  have "distinct ?toCreate"
    using unique(2) by simp
  then have "distinct (map brand_name ?created)"
    by (simp only: created_names)
  moreover have "map brand_name ?created = [n \<leftarrow> ?unique. n \<notin> brand_name ` set table]"
    using created_names toCreate by (rule trans)
  ultimately show ?thesis
    using result entry by (intro exI [of _ ?created]) simp
qed

text \<open>
  A brand called \<^verbatim>\<open>constructor\<close> that is not stored is never created: the test
  \<^verbatim>\<open>!brandMap[n]\<close> finds the inherited \<^verbatim>\<open>Object.prototype.constructor\<close>.
\<close>

lemma manageBrandsStep_inherited_name:
  "(case manageBrandsStep [''brand_1''] [''constructor''] [] of
      ((brandMap, createdIds), table') \<Rightarrow> (brandMap ''constructor'', createdIds, table'))
     = (None, [], [])"
  by code_simp


text \<open>
  The category step asks for a new category only under a handle that is not stored: the
  inputs it collects are the names whose handle the map of stored categories lacks.
\<close>

lemma categories_loop_toCreate:
  "snd (categories_loop handleMap names categoryMap toCreate) =
     toCreate @ map (\<lambda>name. \<lparr> ci_name = name, ci_handle = nameToHandle name \<rparr>)
                  [name \<leftarrow> names. handleMap (nameToHandle name) = None]"
  by (induction names arbitrary: categoryMap toCreate) (auto simp: Let_def split: option.splits)

section \<open>The single workflow: split and brands\<close>

lemma sync_split_loop_eq:
  "sync_split_loop brandMap m products cs us =
     (cs @ map (productData brandMap)
             [p \<leftarrow> products. m (Some (Number_toString (dp_id p))) = None],
      us @ map (\<lambda>p. \<lparr> su_id = sp_id (the (m (Some (Number_toString (dp_id p))))),
                       su_fields = productData brandMap p \<rparr>)
             [p \<leftarrow> products. m (Some (Number_toString (dp_id p))) \<noteq> None])"
  by (induction products arbitrary: cs us) (auto simp: Let_def split: option.splits)

text \<open>
  \<^verbatim>\<open>syncProductsStep\<close> splits a batch as the job does: by whether the id string is the
  external id of a stored product.
\<close>

lemma syncProductsStep_split_eq:
  "syncProductsStep_split store products brandMap =
     (map (productData brandMap)
        [p \<leftarrow> products. Number_toString (dp_id p) \<notin> stored_external_ids store],
      map (\<lambda>p. \<lparr> su_id = sp_id (the (stored_target store (Number_toString (dp_id p)))),
                  su_fields = productData brandMap p \<rparr>)
        [p \<leftarrow> products. Number_toString (dp_id p) \<in> stored_external_ids store])"
proof -
  have key: "\<And>p. p \<in> set products \<Longrightarrow>
      Map_new (map (\<lambda>p. (sp_metadata_external_id p, p))
         (listProducts store (map (\<lambda>p. Number_toString (dp_id p)) products)))
        (Some (Number_toString (dp_id p))) = stored_target store (Number_toString (dp_id p))"
    by (simp add: existingMap_get)
  show ?thesis
    unfolding syncProductsStep_split_def Let_def sync_split_loop_eq
    by (auto simp: key stored_external_ids_iff intro!: filter_cong map_cong)
qed

lemma Map_new_None: "Map_new entries k = None \<longleftrightarrow> k \<notin> fst ` set entries"
  by (simp add: Map_new_def map_of_eq_None_iff)

text \<open>
  \<^verbatim>\<open>syncBrandsStep\<close> asks for one new brand per distinct, non-empty brand name that no stored
  brand has.
\<close>

lemma syncBrandsStep_creates:
  assumes "length products \<le> length new_ids"
    and "syncBrandsStep new_ids products table = ((brandMap, createdIds), table')"
  shows "\<exists>created. table' = table @ created \<and> createdIds = map brand_id created
      \<and> map brand_name created =
          [n \<leftarrow> Array_from_Set (filter (\<lambda>n. n \<noteq> []) (List.map_filter dp_brand products)).
             n \<notin> brand_name ` set table]"
proof -
  let ?names = "Array_from_Set (filter (\<lambda>n. n \<noteq> []) (List.map_filter dp_brand products))"
  let ?existing = "listBrands table ?names"
  let ?map = "Map_new (map (\<lambda>b. (brand_name b, brand_id b)) ?existing)"
  let ?toCreate = "filter (\<lambda>name. ?map name = None) ?names"
  have "?map n = None \<longleftrightarrow> n \<notin> brand_name ` set table" if "n \<in> set ?names" for n
    using that by (auto simp: Map_new_None listBrands_def image_iff)
  then have toCreate: "?toCreate = [n \<leftarrow> ?names. n \<notin> brand_name ` set table]"
    by (intro filter_cong) auto
  have "length ?names \<le> length (filter (\<lambda>n. n \<noteq> []) (List.map_filter dp_brand products))"
    by (simp add: Array_from_Set_def) (metis length_remdups_leq length_rev)
  also have "\<dots> \<le> length (List.map_filter dp_brand products)"
    by simp
  also have "\<dots> \<le> length products"
    by (simp add: List.map_filter_def)
  finally have "length ?toCreate \<le> length new_ids"
    using assms(1) le_trans [OF length_filter_le] by (meson le_trans length_filter_le)
  then have names: "map brand_name
      (map2 (\<lambda>i n. \<lparr> brand_id = i, brand_name = n \<rparr>) new_ids ?toCreate) = ?toCreate"
    by (rule zip_names_created)
  show ?thesis
  proof (cases "?toCreate = []")
    case True
    with assms(2) toCreate show ?thesis
      by (auto simp: syncBrandsStep_def Let_def)
  next
    case False
    with assms(2) have "table' = table @ map2 (\<lambda>i n. \<lparr> brand_id = i, brand_name = n \<rparr>) new_ids ?toCreate"
      and "createdIds = map brand_id (map2 (\<lambda>i n. \<lparr> brand_id = i, brand_name = n \<rparr>) new_ids ?toCreate)"
      by (auto simp: syncBrandsStep_def Let_def createBrands_def split: prod.splits)
    with names toCreate show ?thesis
      by (intro exI [of _ "map2 (\<lambda>i n. \<lparr> brand_id = i, brand_name = n \<rparr>) new_ids ?toCreate"])
         (simp del: map_map)
  qed
qed

end
